theory Spec2Isabelle
  imports Complex_Main
begin

section \<open>The page script \<open>static/js/main.js\<close>\<close>

text \<open>
  The script creates six singletons (logger, event manager, state manager, loading
  manager, API manager, notification manager) and one application object. All of them
  are mutable objects shared by every function, so the model threads one record, the
  \<open>world\<close>, through every function. Code the script calls but does not contain
  (registered callbacks, \<open>fetch\<close>, the feature scripts, the two form methods, the
  document) is given by a second record, the \<open>env\<close>.

  Conventions of the model.
  \<^item> A JavaScript value is a \<open>jsval\<close>; a thrown value is a \<open>jsval\<close> too. A function that
    can throw returns \<open>jsval + 'a\<close>, with \<open>Inl\<close> the thrown value, next to the new world.
  \<^item> An \<open>async\<close> function is run to its end in one piece: what other page code does
    while it awaits is not part of the model, and neither is the firing of timers.
  \<^item> A callback is a function reference (a number); \<open>===\<close> on callbacks is equality of
    references. What a callback does when it is called (with which \<open>this\<close> and which
    arguments) is the environment's: it may call \<open>eventManager.on\<close> and
    \<open>eventManager.off\<close>, and then it returns or throws. Callbacks that call back into a
    dispatching function (\<open>emit\<close>, \<open>setState\<close>, the loading and notification managers)
    are outside the model.
  \<^item> Text that the script assigns to \<open>innerHTML\<close> is markup, which the browser parses;
    text that it assigns to \<open>textContent\<close> is shown as it is. The two are kept apart by
    their types.
  \<^item> Strings are lists of 8-bit characters; the accented letters of the script's texts
    are written by their code points.
\<close>

subsection \<open>JavaScript values\<close>

datatype jsval =
    JUndefined
  | JNull
  | JBool bool
  | JNum real
  | JNaN
  | JStr string
  | JArr "jsval list"
  | JObj "string \<Rightarrow> jsval option"
  | JFun nat

text \<open>The conversion to boolean that \<open>if (v)\<close>, \<open>!v\<close> and \<open>a || b\<close> apply.\<close>

fun truthy :: "jsval \<Rightarrow> bool" where
  "truthy JUndefined = False"
| "truthy JNull = False"
| "truthy (JBool b) = b"
| "truthy (JNum x) = (x \<noteq> 0)"
| "truthy JNaN = False"
| "truthy (JStr s) = (s \<noteq> [])"
| "truthy (JArr xs) = True"
| "truthy (JObj m) = True"
| "truthy (JFun f) = True"

text \<open>An error object: \<open>new Error(message)\<close>, or a TypeError, SyntaxError and so on.\<close>

definition js_error :: "string \<Rightarrow> string \<Rightarrow> jsval" where
  "js_error nm msg = JObj [''name'' \<mapsto> JStr nm, ''message'' \<mapsto> JStr msg]"

text \<open>
  Reading a property \<open>v.p\<close>: a TypeError on \<open>null\<close> and \<open>undefined\<close> (here and
  below the messages of the engine's own errors are in the wording of V8), the stored
  value on an object, \<open>undefined\<close> where the object has no such property. The script reads
  the properties \<open>valid\<close>, \<open>success\<close>, \<open>error\<close> and \<open>message\<close> only, which no
  primitive, array or plain function has.
\<close>

fun get_prop :: "jsval \<Rightarrow> string \<Rightarrow> jsval + jsval" where
  "get_prop JUndefined p =
     Inl (js_error ''TypeError''
            (''Cannot read properties of undefined (reading '' @ [CHR 0x27] @ p @ [CHR 0x27] @ '')''))"
| "get_prop JNull p =
     Inl (js_error ''TypeError''
            (''Cannot read properties of null (reading '' @ [CHR 0x27] @ p @ [CHR 0x27] @ '')''))"
| "get_prop (JObj m) p = Inr (case m p of None \<Rightarrow> JUndefined | Some v \<Rightarrow> v)"
| "get_prop v p = Inr JUndefined"

subsection \<open>The world and the environment\<close>

datatype level = Debug | Info | Warn | Error

fun level_num :: "level \<Rightarrow> nat" where
  "level_num Debug = 0"
| "level_num Info = 1"
| "level_num Warn = 2"
| "level_num Error = 3"

text \<open>
  One constructor for each logging statement of the modelled functions, with the values
  the statement interpolates or passes on.
\<close>

datatype log_msg =
    LogListenerRegistered string
  | LogEmit string jsval
  | LogListenerFailed string jsval
  | LogListenerRemoved string
  | LogStateUpdated jsval
  | LogSubscriberFailed jsval
  | LogLoadingInit
  | LogLoadingStarted string
  | LogLoadingStopped string
  | LogAllLoadingStopped
  | LogApiRequest string string
  | LogApiOk string
  | LogAttemptFailed nat nat string jsval
  | LogApiFailed string
  | LogNotifInit
  | LogNotifShown string string
  | LogAppInit
  | LogAppReady
  | LogAppFailed jsval
  | LogModulesLoading
  | LogModuleLoaded string
  | LogModuleFailed string jsval
  | LogModulesLoaded nat
  | LogGlobalListeners
  | LogUiInit
  | LogUiReady
  | LogGenStart
  | LogGenFailed jsval

text \<open>
  The options \<open>fetch\<close> is called with. \<open>body\<close> is the text
  \<open>JSON.stringify(data)\<close>; the model keeps the value the text encodes. \<open>None\<close> is a
  request without a body.
\<close>

datatype json_text = Stringify jsval

record fetch_init =
  http_method :: string
  headers :: "(string \<times> string) list"
  timeout_ms :: nat
  body :: "json_text option"

text \<open>
  What the page does that can be seen from outside, in order: a console line, a call of
  a callback, a \<open>fetch\<close>, a wait (\<open>ApiManager.delay\<close>, in milliseconds), a script
  element appended to the document head (module name and path), and an
  \<open>addEventListener\<close> (target and event name).
\<close>

datatype event =
    Console level log_msg
  | Call nat jsval "jsval list"
  | Fetch string fetch_init
  | Delay nat
  | Script string string
  | AddListener string string

text \<open>
  An entry of a listener array, \<open>{ callback, context }\<close>. The field \<open>context\<close> is
  named \<open>ctx\<close> here.
\<close>

record listener =
  callback :: nat
  ctx :: jsval

type_synonym registry = "string \<Rightarrow> listener list option"

text \<open>
  Markup: a string on its way through the HTML parser, as the right-hand side of an
  assignment to \<open>innerHTML\<close> is.
\<close>

datatype html = Html string

text \<open>
  The elements the managers hold.
  \<^item> The loading overlay: its \<open>style.display\<close>, and the text of its first descendant of
    class \<open>loading-message\<close>, which is what
    \<open>this.overlay.querySelector('.loading-message')\<close> finds; \<open>None\<close> when the overlay
    has no such descendant and \<open>querySelector\<close> returns \<open>null\<close>.
  \<^item> The progress bar: its \<open>style.display\<close> and its \<open>style.width\<close> in percent.
  \<^item> A notification: the type in its class name \<open>notification notification-<type>\<close>,
    and the message as \<open>show\<close> puts it into the markup it assigns to the
    notification's \<open>innerHTML\<close>, between the tags of the element of class
    \<open>notification-message\<close>. The icon and the close button of that markup are left out.
\<close>

record overlay_el =
  ov_display :: string
  ov_message :: "string option"

record progress_el =
  pb_display :: string
  pb_width :: "real option"

record notif =
  n_type :: string
  n_message :: html

text \<open>
  The fields of the singletons: \<open>logger.currentLevel\<close>; \<open>eventManager.listeners\<close>;
  \<open>stateManager.state\<close> and \<open>.subscribers\<close> (a Set, in insertion order);
  \<open>loadingManager.activeLoads\<close>, \<open>.overlay\<close>, \<open>.progressBar\<close>, \<open>.statusElement\<close>
  (its text); \<open>notificationManager.container\<close> (its children) and \<open>.notifications\<close>;
  \<open>app.modules\<close> (a Map, in insertion order) and \<open>app.initialized\<close>. \<open>fetches\<close> and
  \<open>ids\<close> count the calls of \<open>fetch\<close> and the identifiers drawn from
  \<open>Date.now()\<close> and \<open>Math.random()\<close> so far.
\<close>

record world =
  currentLevel :: level
  trace :: "event list"
  listeners :: registry
  state :: "string \<Rightarrow> jsval option"
  subscribers :: "nat list"
  activeLoads :: "string set"
  overlay :: "overlay_el option"
  progressBar :: "progress_el option"
  statusElement :: "string option"
  container :: "notif list option"
  notifications :: "string \<Rightarrow> notif option"
  modules :: "(string \<times> jsval) list"
  initialized :: bool
  fetches :: nat
  ids :: nat

text \<open>What a callback does with the event manager while it runs.\<close>

datatype reg_op = RegOn string nat jsval | RegOff string nat

text \<open>
  What \<open>fetch\<close> does: it rejects with an error object (name and message: a TypeError
  for a network failure, an AbortError when the timeout aborts it), or it resolves with
  a response, whose \<open>json()\<close> rejects with a SyntaxError or resolves with a value.
\<close>

datatype json_result = BadJson string | Json jsval

datatype fetch_outcome =
    Rejected string string
  | Responded nat string json_result

text \<open>
  What appending a module's script element leads to: \<open>onerror\<close>, or \<open>onload\<close> with
  the value \<open>window[name]\<close> then has. The browser is taken to fire one of the two for
  every script element.
\<close>

datatype script_outcome = ScriptError | ScriptLoaded jsval

text \<open>
  The environment.
  \<^item> \<open>handler f this args\<close>: what the callback \<open>f\<close> does when called.
  \<^item> \<open>net n url init\<close>: the outcome of the \<open>n\<close>-th call of \<open>fetch\<close>.
  \<^item> \<open>script name path\<close>: the outcome of loading a module's script.
  \<^item> \<open>getFormData\<close> and \<open>validateForm\<close>: \<open>startGeneration\<close> calls
    \<open>this.getFormData()\<close> and \<open>this.validateForm(formData)\<close>, which the class does
    not define. \<open>None\<close> is a method nobody has added (the call is a TypeError);
    otherwise the method throws (\<open>Inl\<close>) or returns (\<open>Inr\<close>).
  \<^item> \<open>random_id n\<close>: the \<open>n\<close>-th pair \<open>Date.now()\<close>, \<open>Math.random()\<close>, as text.
  \<^item> \<open>other_to_string\<close>: the string conversion of numbers, arrays, objects and
    functions.
  \<^item> The document the script finds: the elements with the ids \<open>loadingOverlay\<close>,
    \<open>loadingProgressBar\<close>, \<open>loadingStatus\<close> and \<open>notificationContainer\<close>; whether
    there is a \<open>generationForm\<close> and how many inputs it has; which of the four
    buttons exist; how many elements carry \<open>data-tooltip\<close>; whether the media query
    \<open>(max-width: 768px)\<close> matches.
\<close>

record env =
  handler :: "nat \<Rightarrow> jsval \<Rightarrow> jsval list \<Rightarrow> reg_op list \<times> jsval option"
  net :: "nat \<Rightarrow> string \<Rightarrow> fetch_init \<Rightarrow> fetch_outcome"
  script :: "string \<Rightarrow> string \<Rightarrow> script_outcome"
  getFormData :: "(jsval + jsval) option"
  validateForm :: "(jsval \<Rightarrow> jsval + jsval) option"
  random_id :: "nat \<Rightarrow> string"
  other_to_string :: "jsval \<Rightarrow> string"
  doc_overlay :: "overlay_el option"
  doc_progressBar :: "progress_el option"
  doc_status :: "string option"
  doc_container :: "notif list option"
  doc_form :: "nat option"
  doc_buttons :: "string set"
  doc_tooltips :: nat
  doc_mobile :: bool

subsection \<open>Logger\<close>

text \<open>
  \<open>Logger.debug\<close>, \<open>info\<close>, \<open>warn\<close> and \<open>error\<close> share one shape: the line is written
  to the console when \<open>this.currentLevel <= this.levels.<level>\<close>.
\<close>

definition logger_log :: "level \<Rightarrow> log_msg \<Rightarrow> world \<Rightarrow> world" where
  "logger_log lv m w =
     (if level_num (currentLevel w) \<le> level_num lv
      then w\<lparr>trace := trace w @ [Console lv m]\<rparr> else w)"

abbreviation logger_debug :: "log_msg \<Rightarrow> world \<Rightarrow> world" where
  "logger_debug \<equiv> logger_log Debug"

abbreviation logger_info :: "log_msg \<Rightarrow> world \<Rightarrow> world" where
  "logger_info \<equiv> logger_log Info"

abbreviation logger_warn :: "log_msg \<Rightarrow> world \<Rightarrow> world" where
  "logger_warn \<equiv> logger_log Warn"

abbreviation logger_error :: "log_msg \<Rightarrow> world \<Rightarrow> world" where
  "logger_error \<equiv> logger_log Error"

subsection \<open>EventManager\<close>

text \<open>
  A parameter with the default \<open>null\<close>: the default takes the place of an argument
  that is missing or \<open>undefined\<close>.
\<close>

definition or_null :: "jsval \<Rightarrow> jsval" where
  "or_null v = (if v = JUndefined then JNull else v)"

text \<open>\<open>on(eventType, callback, context = null)\<close>.\<close>

definition on :: "string \<Rightarrow> nat \<Rightarrow> jsval \<Rightarrow> world \<Rightarrow> world" where
  "on eventType cb context0 w =
     (let context = or_null context0;
          w1 = (case listeners w eventType of
                  None \<Rightarrow> w\<lparr>listeners := (listeners w)(eventType \<mapsto> [])\<rparr>
                | Some ls \<Rightarrow> w);
          arr = (case listeners w1 eventType of None \<Rightarrow> [] | Some ls \<Rightarrow> ls);
          w2 = w1\<lparr>listeners := (listeners w1)(eventType \<mapsto> arr @ [\<lparr>callback = cb, ctx = context\<rparr>])\<rparr>
      in logger_debug (LogListenerRegistered eventType) w2)"

text \<open>\<open>Array.prototype.findIndex\<close>: the first index whose element satisfies \<open>P\<close>.\<close>

fun findIndex :: "('a \<Rightarrow> bool) \<Rightarrow> 'a list \<Rightarrow> nat option" where
  "findIndex P [] = None"
| "findIndex P (x # xs) =
     (if P x then Some 0 else (case findIndex P xs of None \<Rightarrow> None | Some i \<Rightarrow> Some (Suc i)))"

text \<open>\<open>listeners.splice(index, 1)\<close>.\<close>

definition splice1 :: "nat \<Rightarrow> 'a list \<Rightarrow> 'a list" where
  "splice1 i xs = take i xs @ drop (Suc i) xs"

definition off :: "string \<Rightarrow> nat \<Rightarrow> world \<Rightarrow> world" where
  "off eventType cb w =
     (case listeners w eventType of
        None \<Rightarrow> w
      | Some ls \<Rightarrow>
          (case findIndex (\<lambda>l. callback l = cb) ls of
             None \<Rightarrow> w
           | Some index \<Rightarrow>
               logger_debug (LogListenerRemoved eventType)
                 (w\<lparr>listeners := (listeners w)(eventType \<mapsto> splice1 index ls)\<rparr>)))"

fun apply_reg_op :: "reg_op \<Rightarrow> world \<Rightarrow> world" where
  "apply_reg_op (RegOn eventType cb context) w = on eventType cb context w"
| "apply_reg_op (RegOff eventType cb) w = off eventType cb w"

text \<open>
  Calling a callback \<open>f\<close> with \<open>this\<close> and arguments: the call is recorded, the
  callback's calls of \<open>on\<close> and \<open>off\<close> are run, and the result says whether it threw.
\<close>

definition call_handler :: "env \<Rightarrow> nat \<Rightarrow> jsval \<Rightarrow> jsval list \<Rightarrow> world \<Rightarrow> jsval option \<times> world" where
  "call_handler e f this args w =
     (let (ops, thrown) = handler e f this args;
          w1 = w\<lparr>trace := trace w @ [Call f this args]\<rparr>
      in (thrown, fold apply_reg_op ops w1))"

text \<open>
  An entry of a listener array as a value: the object \<open>{ callback, context }\<close> that
  \<open>on\<close> pushes.
\<close>

definition entry :: "listener \<Rightarrow> jsval" where
  "entry l = JObj [''callback'' \<mapsto> JFun (callback l), ''context'' \<mapsto> ctx l]"

text \<open>
  The body of the \<open>forEach\<close> callback in \<open>emit\<close>. When the context is truthy the
  listener is called with \<open>listener.callback.call(listener.context, data)\<close>, so \<open>this\<close>
  is the context. Otherwise the call is \<open>listener.callback(data)\<close>, a method call on the
  entry, so \<open>this\<close> is the entry itself. What the listener throws is caught and logged.
\<close>

definition receiver :: "listener \<Rightarrow> jsval" where
  "receiver l = (if truthy (ctx l) then ctx l else entry l)"

definition invoke_listener :: "env \<Rightarrow> string \<Rightarrow> jsval \<Rightarrow> listener \<Rightarrow> world \<Rightarrow> world" where
  "invoke_listener e eventType data l w =
     (let (thrown, w1) = call_handler e (callback l) (receiver l) [data] w
      in case thrown of
           None \<Rightarrow> w1
         | Some err \<Rightarrow> logger_error (LogListenerFailed eventType err) w1)"

text \<open>
  \<open>Array.prototype.forEach\<close> on the listener array of \<open>eventType\<close>. The array is the one
  object the map holds for the event: \<open>on\<close> pushes to it and \<open>off\<close> splices it in
  place, so a listener that registers or unregisters changes the array under the
  iteration. \<open>forEach\<close> reads the length once, visits the indices \<open>0 .. length - 1\<close>
  and skips an index the array no longer has. Here \<open>k\<close> is the index and \<open>n\<close> the
  number of indices left.
\<close>

fun forEach_listeners :: "env \<Rightarrow> string \<Rightarrow> jsval \<Rightarrow> nat \<Rightarrow> nat \<Rightarrow> world \<Rightarrow> world" where
  "forEach_listeners e eventType data k 0 w = w"
| "forEach_listeners e eventType data k (Suc n) w =
     (let arr = (case listeners w eventType of None \<Rightarrow> [] | Some ls \<Rightarrow> ls)
      in forEach_listeners e eventType data (Suc k) n
           (if k < length arr then invoke_listener e eventType data (arr ! k) w else w))"

text \<open>\<open>emit(eventType, data = null)\<close>.\<close>

definition emit :: "env \<Rightarrow> string \<Rightarrow> jsval \<Rightarrow> world \<Rightarrow> world" where
  "emit e eventType data0 w =
     (let data = or_null data0;
          w1 = logger_debug (LogEmit eventType data) w
      in case listeners w1 eventType of
           None \<Rightarrow> w1
         | Some ls \<Rightarrow> forEach_listeners e eventType data 0 (length ls) w1)"

subsection \<open>StateManager\<close>

text \<open>
  One step of \<open>this.subscribers.forEach\<close> in \<open>setState\<close>: the subscriber is called
  with \<open>this.state\<close> and the copy of the previous state, by a plain call, which gives
  it no \<open>this\<close>; what it throws is caught and logged.
\<close>

definition notify_subscriber :: "env \<Rightarrow> jsval \<Rightarrow> nat \<Rightarrow> world \<Rightarrow> world" where
  "notify_subscriber e previousState subscriber w =
     (let (thrown, w1) = call_handler e subscriber JUndefined [JObj (state w), previousState] w
      in case thrown of
           None \<Rightarrow> w1
         | Some err \<Rightarrow> logger_error (LogSubscriberFailed err) w1)"

text \<open>
  \<open>setState(updates)\<close>. An object is a map from property names to values, and the
  spread \<open>{ ...this.state, ...updates }\<close> is \<open>++\<close>: the right operand wins where
  both have a key.
\<close>

definition setState :: "env \<Rightarrow> (string \<Rightarrow> jsval option) \<Rightarrow> world \<Rightarrow> world" where
  "setState e updates w =
     (let previousState = JObj (state w);
          w1 = w\<lparr>state := state w ++ updates\<rparr>;
          w2 = logger_debug (LogStateUpdated (JObj updates)) w1;
          w3 = fold (notify_subscriber e previousState) (subscribers w2) w2
      in emit e ''stateChanged''
           (JObj [''newState'' \<mapsto> JObj (state w3), ''previousState'' \<mapsto> previousState,
                  ''updates'' \<mapsto> JObj updates]) w3)"

subsection \<open>LoadingManager\<close>

text \<open>
  \<open>document.getElementById\<close> for the three loading elements: the element the manager
  already holds (it is in the document under that id), else the document's own.
\<close>

definition find_overlay :: "env \<Rightarrow> world \<Rightarrow> overlay_el option" where
  "find_overlay e w = (case overlay w of None \<Rightarrow> doc_overlay e | Some el \<Rightarrow> Some el)"

definition find_progressBar :: "env \<Rightarrow> world \<Rightarrow> progress_el option" where
  "find_progressBar e w = (case progressBar w of None \<Rightarrow> doc_progressBar e | Some p \<Rightarrow> Some p)"

definition find_status :: "env \<Rightarrow> world \<Rightarrow> string option" where
  "find_status e w = (case statusElement w of None \<Rightarrow> doc_status e | Some t \<Rightarrow> Some t)"

text \<open>
  \<open>createLoadingElements\<close>: the new overlay is appended to the body, after every
  element of the document, so the two lookups by id find the document's own progress
  bar and status element where it has them and the new overlay's children otherwise.
\<close>

definition createLoadingElements :: "env \<Rightarrow> world \<Rightarrow> world" where
  "createLoadingElements e w =
     (let w1 = w\<lparr>overlay := Some \<lparr>ov_display = [], ov_message = Some ''Chargement en cours...''\<rparr>\<rparr>
      in w1\<lparr>progressBar :=
              Some (case find_progressBar e w1 of
                      None \<Rightarrow> \<lparr>pb_display = [], pb_width = None\<rparr> | Some p \<Rightarrow> p),
            statusElement := Some (case find_status e w1 of None \<Rightarrow> [] | Some t \<Rightarrow> t)\<rparr>)"

definition lm_initialize :: "env \<Rightarrow> world \<Rightarrow> world" where
  "lm_initialize e w =
     (let w1 = w\<lparr>overlay := find_overlay e w,
                  progressBar := find_progressBar e w,
                  statusElement := find_status e w\<rparr>;
          w2 = (if overlay w1 = None then createLoadingElements e w1 else w1)
      in logger_debug LogLoadingInit w2)"

text \<open>
  The block \<open>if (this.overlay) { ... }\<close> of \<open>startLoading\<close>. The overlay is displayed
  first; then \<open>this.overlay.querySelector('.loading-message').textContent = message\<close>
  is a TypeError when the overlay has no such descendant, and the rest of the block is
  not run.
\<close>

definition show_overlay :: "string \<Rightarrow> bool \<Rightarrow> world \<Rightarrow> (jsval + unit) \<times> world" where
  "show_overlay message showProgress w =
     (case overlay w of
        None \<Rightarrow> (Inr (), w)
      | Some el \<Rightarrow>
          (let w1 = w\<lparr>overlay := Some (el\<lparr>ov_display := ''flex''\<rparr>)\<rparr>
           in case ov_message el of
                None \<Rightarrow>
                  (Inl (js_error ''TypeError''
                          ''Cannot set properties of null (setting 'textContent')''), w1)
              | Some previous \<Rightarrow>
                  (let w2 = w1\<lparr>overlay := Some (el\<lparr>ov_display := ''flex'', ov_message := Some message\<rparr>)\<rparr>
                   in (Inr (),
                       case progressBar w2 of
                         None \<Rightarrow> w2
                       | Some p \<Rightarrow>
                           if showProgress
                           then w2\<lparr>progressBar := Some (p\<lparr>pb_display := ''block'', pb_width := Some 0\<rparr>)\<rparr>
                           else w2))))"

text \<open>
  \<open>startLoading(loadId, message, showProgress)\<close>. The load is added to the set before
  anything else, so it is in the set also when the function throws.
\<close>

definition startLoading :: "env \<Rightarrow> string \<Rightarrow> string \<Rightarrow> bool \<Rightarrow> world \<Rightarrow> (jsval + unit) \<times> world" where
  "startLoading e loadId message showProgress w =
     (let w1 = w\<lparr>activeLoads := insert loadId (activeLoads w)\<rparr>
      in case show_overlay message showProgress w1 of
           (Inl type_error, w2) \<Rightarrow> (Inl type_error, w2)
         | (Inr u, w2) \<Rightarrow>
             (let w3 = setState e [''loading'' \<mapsto> JBool True] w2;
                  w4 = logger_debug (LogLoadingStarted loadId) w3
              in (Inr (),
                  emit e ''loadingStarted''
                    (JObj [''loadId'' \<mapsto> JStr loadId, ''message'' \<mapsto> JStr message]) w4)))"

definition updateProgress :: "env \<Rightarrow> string \<Rightarrow> real \<Rightarrow> string \<Rightarrow> world \<Rightarrow> world" where
  "updateProgress e loadId progress status w =
     (if loadId \<notin> activeLoads w then w
      else
        (let w1 = (case progressBar w of
                     None \<Rightarrow> w
                   | Some p \<Rightarrow> w\<lparr>progressBar := Some (p\<lparr>pb_width := Some (min 100 (max 0 progress))\<rparr>)\<rparr>);
             w2 = (case statusElement w1 of
                     None \<Rightarrow> w1
                   | Some t \<Rightarrow> if status \<noteq> [] then w1\<lparr>statusElement := Some status\<rparr> else w1)
         in emit e ''loadingProgress''
              (JObj [''loadId'' \<mapsto> JStr loadId, ''progress'' \<mapsto> JNum progress,
                     ''status'' \<mapsto> JStr status]) w2))"

definition stopLoading :: "env \<Rightarrow> string \<Rightarrow> world \<Rightarrow> world" where
  "stopLoading e loadId w =
     (let w1 = w\<lparr>activeLoads := activeLoads w - {loadId}\<rparr>;
          w2 = (if activeLoads w1 = {}
                then setState e [''loading'' \<mapsto> JBool False]
                       (case overlay w1 of
                          None \<Rightarrow> w1
                        | Some el \<Rightarrow> w1\<lparr>overlay := Some (el\<lparr>ov_display := ''none''\<rparr>)\<rparr>)
                else w1);
          w3 = logger_debug (LogLoadingStopped loadId) w2
      in emit e ''loadingStopped'' (JObj [''loadId'' \<mapsto> JStr loadId]) w3)"

definition stopAllLoading :: "env \<Rightarrow> world \<Rightarrow> world" where
  "stopAllLoading e w =
     (let w1 = w\<lparr>activeLoads := {}\<rparr>;
          w2 = (case overlay w1 of
                  None \<Rightarrow> w1
                | Some el \<Rightarrow> w1\<lparr>overlay := Some (el\<lparr>ov_display := ''none''\<rparr>)\<rparr>);
          w3 = setState e [''loading'' \<mapsto> JBool False] w2;
          w4 = logger_debug LogAllLoadingStopped w3
      in emit e ''allLoadingStopped'' JNull w4)"

subsection \<open>NotificationManager\<close>

definition nm_initialize :: "env \<Rightarrow> world \<Rightarrow> world" where
  "nm_initialize e w =
     (let found = (case container w of None \<Rightarrow> doc_container e | Some c \<Rightarrow> Some c);
          w1 = w\<lparr>container := Some (case found of None \<Rightarrow> [] | Some c \<Rightarrow> c)\<rparr>
      in logger_debug LogNotifInit w1)"

text \<open>
  \<open>show(message, type, duration)\<close>. The message is interpolated into the markup
  assigned to \<open>notification.innerHTML\<close>, so it reaches the page as markup; the log line
  and the event carry it as the string it is. \<open>this.container.appendChild\<close> is a
  TypeError while the container is \<open>null\<close>. The two timers the function starts (the
  entrance animation, and the automatic \<open>close\<close> after \<open>duration\<close>) fire after it has
  returned.
\<close>

definition nm_show :: "env \<Rightarrow> string \<Rightarrow> string \<Rightarrow> nat \<Rightarrow> world \<Rightarrow> (jsval + string) \<times> world" where
  "nm_show e message type duration w =
     (let notificationId = ''notif_'' @ random_id e (ids w);
          w0 = w\<lparr>ids := Suc (ids w)\<rparr>;
          notification = \<lparr>n_type = type, n_message = Html message\<rparr>
      in case container w0 of
           None \<Rightarrow>
             (Inl (js_error ''TypeError'' ''Cannot read properties of null (reading 'appendChild')''), w0)
         | Some children \<Rightarrow>
             (let w1 = w0\<lparr>container := Some (children @ [notification]),
                          notifications := (notifications w0)(notificationId \<mapsto> notification)\<rparr>;
                  w2 = logger_debug (LogNotifShown type message) w1
              in (Inr notificationId,
                  emit e ''notificationShown''
                    (JObj [''id'' \<mapsto> JStr notificationId, ''message'' \<mapsto> JStr message,
                           ''type'' \<mapsto> JStr type]) w2)))"

definition nm_success :: "env \<Rightarrow> string \<Rightarrow> world \<Rightarrow> (jsval + string) \<times> world" where
  "nm_success e message w = nm_show e message ''success'' 5000 w"

definition nm_error :: "env \<Rightarrow> string \<Rightarrow> world \<Rightarrow> (jsval + string) \<times> world" where
  "nm_error e message w = nm_show e message ''error'' 8000 w"

subsection \<open>ApiManager\<close>

text \<open>\<open>APP_CONFIG.api\<close>, which the constructor copies into the manager.\<close>

definition baseUrl :: string where
  "baseUrl = []"

definition timeout :: nat where
  "timeout = 300000"

definition retryAttempts :: nat where
  "retryAttempts = 3"

text \<open>The decimal digits of a number, as a template literal prints a status code.\<close>

fun show_nat :: "nat \<Rightarrow> string" where
  "show_nat n =
     (if n < 10 then [char_of (48 + n)] else show_nat (n div 10) @ [char_of (48 + n mod 10)])"

declare show_nat.simps [simp del]

text \<open>
  The \<open>options\<close> argument of \<open>request\<close>: the keys it may override. A \<open>body\<close> that
  is \<open>undefined\<close> is as good as none.
\<close>

record req_options =
  opt_method :: "string option"
  opt_body :: "json_text option"

definition finalOptions :: "req_options \<Rightarrow> fetch_init" where
  "finalOptions options =
     \<lparr>http_method = (case opt_method options of None \<Rightarrow> ''GET'' | Some m \<Rightarrow> m),
      headers = [(''Content-Type'', ''application/json''), (''Accept'', ''application/json'')],
      timeout_ms = timeout,
      body = opt_body options\<rparr>"

text \<open>
  The \<open>try\<close> block of one attempt, up to \<open>response.json()\<close>: what \<open>fetch\<close> rejects with
  is thrown, a response that is not \<open>ok\<close> (a status outside 200 to 299) throws
  \<open>Error("HTTP <status>: <statusText>")\<close>, and so does a body that is not JSON.
\<close>

fun attempt_result :: "fetch_outcome \<Rightarrow> jsval + jsval" where
  "attempt_result (Rejected nm msg) = Inl (js_error nm msg)"
| "attempt_result (Responded status statusText b) =
     (if \<not> (200 \<le> status \<and> status \<le> 299)
      then Inl (js_error ''Error'' (''HTTP '' @ show_nat status @ '': '' @ statusText))
      else (case b of BadJson msg \<Rightarrow> Inl (js_error ''SyntaxError'' msg) | Json v \<Rightarrow> Inr v))"

definition do_fetch :: "env \<Rightarrow> string \<Rightarrow> fetch_init \<Rightarrow> world \<Rightarrow> (jsval + jsval) \<times> world" where
  "do_fetch e url init w =
     (attempt_result (net e (fetches w) url init),
      w\<lparr>trace := trace w @ [Fetch url init], fetches := Suc (fetches w)\<rparr>)"

text \<open>
  The loop \<open>for (attempt = 1; attempt <= this.retryAttempts; attempt++)\<close> of
  \<open>request\<close>; \<open>n\<close> counts the attempts left, \<open>retryAttempts - attempt + 1\<close>. When the
  loop ends without a \<open>return\<close> or a \<open>throw\<close> the function returns \<open>undefined\<close>.
\<close>

fun request_loop ::
  "env \<Rightarrow> string \<Rightarrow> string \<Rightarrow> fetch_init \<Rightarrow> string \<Rightarrow> nat \<Rightarrow> nat \<Rightarrow> world \<Rightarrow> (jsval + jsval) \<times> world" where
  "request_loop e url endpoint init requestId attempt 0 w = (Inr JUndefined, w)"
| "request_loop e url endpoint init requestId attempt (Suc n) w =
     (case do_fetch e url init w of
        (Inr data, w1) \<Rightarrow>
          (Inr data,
           emit e ''apiSuccess''
             (JObj [''endpoint'' \<mapsto> JStr endpoint, ''data'' \<mapsto> data, ''requestId'' \<mapsto> JStr requestId])
             (logger_debug (LogApiOk url) w1))
      | (Inl error, w1) \<Rightarrow>
          (case get_prop error ''message'' of
             Inl type_error \<Rightarrow> (Inl type_error, w1)
           | Inr message \<Rightarrow>
               (let w2 = logger_warn (LogAttemptFailed attempt retryAttempts url message) w1
                in if attempt = retryAttempts
                   then (Inl error,
                         emit e ''apiError''
                           (JObj [''endpoint'' \<mapsto> JStr endpoint, ''error'' \<mapsto> error,
                                  ''requestId'' \<mapsto> JStr requestId])
                           (logger_error (LogApiFailed url) w2))
                   else request_loop e url endpoint init requestId (Suc attempt) n
                          (w2\<lparr>trace := trace w2 @ [Delay (2 ^ (attempt - 1) * 1000)]\<rparr>))))"

definition request :: "env \<Rightarrow> string \<Rightarrow> req_options \<Rightarrow> world \<Rightarrow> (jsval + jsval) \<times> world" where
  "request e endpoint options w =
     (let url = baseUrl @ endpoint;
          requestId = ''api_'' @ random_id e (ids w);
          w0 = w\<lparr>ids := Suc (ids w)\<rparr>;
          init = finalOptions options;
          w1 = logger_debug (LogApiRequest (http_method init) url) w0
      in request_loop e url endpoint init requestId 1 retryAttempts w1)"

text \<open>
  \<open>JSON.stringify(v)\<close>: a text, except for \<open>undefined\<close> and for a function, where the
  result is \<open>undefined\<close> and not a text.
\<close>

fun stringify :: "jsval \<Rightarrow> json_text option" where
  "stringify JUndefined = None"
| "stringify (JFun f) = None"
| "stringify v = Some (Stringify v)"

text \<open>
  \<open>post(endpoint, data = {})\<close>: the default \<open>{}\<close> takes the place of a \<open>data\<close> that
  is missing or \<open>undefined\<close>.
\<close>

definition post :: "env \<Rightarrow> string \<Rightarrow> jsval \<Rightarrow> world \<Rightarrow> (jsval + jsval) \<times> world" where
  "post e endpoint data0 w =
     (let data = (if data0 = JUndefined then JObj Map.empty else data0)
      in request e endpoint \<lparr>opt_method = Some ''POST'', opt_body = stringify data\<rparr> w)"

subsection \<open>MalaysiaGeneratorApp\<close>

text \<open>The letters \<open>e\<close> with an acute and with a grave accent.\<close>

definition e_acute :: char where
  "e_acute = CHR 0xE9"

definition e_grave :: char where
  "e_grave = CHR 0xE8"

text \<open>The texts \<open>startGeneration\<close> shows.\<close>

definition msg_fix_form :: string where
  "msg_fix_form = ''Veuillez corriger les erreurs du formulaire''"

definition msg_generating :: string where
  "msg_generating = ''G'' @ [e_acute] @ ''n'' @ [e_acute] @ ''ration en cours...''"

definition msg_generated :: string where
  "msg_generated =
     ''G'' @ [e_acute] @ ''n'' @ [e_acute] @ ''ration termin'' @ [e_acute] @ ''e avec succ''
       @ [e_grave] @ ''s''"

definition msg_generation_failed :: string where
  "msg_generation_failed = ''Erreur de g'' @ [e_acute] @ ''n'' @ [e_acute] @ ''ration''"

text \<open>\<open>Map.prototype.set\<close> on a map kept in insertion order.\<close>

fun map_set :: "'k \<Rightarrow> 'v \<Rightarrow> ('k \<times> 'v) list \<Rightarrow> ('k \<times> 'v) list" where
  "map_set k v [] = [(k, v)]"
| "map_set k v ((k', v') # kvs) = (if k = k' then (k, v) # kvs else (k', v') # map_set k v kvs)"

text \<open>
  \<open>loadModule(name, path)\<close>: the promise resolves with \<open>window[name]\<close> when the script
  has loaded and has registered the module there, and rejects otherwise. The \<open>catch\<close>
  of the function only covers the creation of the script element.
\<close>

definition loadModule :: "env \<Rightarrow> string \<Rightarrow> string \<Rightarrow> world \<Rightarrow> (jsval + jsval) \<times> world" where
  "loadModule e name path w =
     (let w1 = w\<lparr>trace := trace w @ [Script name path]\<rparr>
      in case script e name path of
           ScriptLoaded v \<Rightarrow>
             if truthy v then (Inr v, w1\<lparr>modules := map_set name v (modules w1)\<rparr>)
             else (Inl (js_error ''Error''
                     (''Module '' @ name @ '' non trouv'' @ [e_acute] @ '' apr'' @ [e_grave]
                        @ ''s chargement'')), w1)
         | ScriptError \<Rightarrow>
             (Inl (js_error ''Error'' (''Erreur lors du chargement de '' @ path)), w1))"

definition modulesToLoad :: "(string \<times> string) list" where
  "modulesToLoad =
     [(''formValidator'', ''/static/js/components/form-validator.js''),
      (''mapController'', ''/static/js/components/map-controller.js''),
      (''dataVisualizer'', ''/static/js/components/data-visualizer.js''),
      (''osmIntegration'', ''/static/js/modules/osm-integration.js''),
      (''exportManager'', ''/static/js/modules/export-manager.js'')]"

text \<open>
  The \<open>for\<close> loop of \<open>loadModules\<close> from index \<open>i\<close> on, over the modules still to
  load. The inner \<open>try\<close> and \<open>catch\<close> turn a rejected \<open>loadModule\<close> into a warning.
\<close>

fun loadModules_loop :: "env \<Rightarrow> string \<Rightarrow> nat \<Rightarrow> (string \<times> string) list \<Rightarrow> world \<Rightarrow> world" where
  "loadModules_loop e moduleLoadingId i [] w = w"
| "loadModules_loop e moduleLoadingId i ((name, path) # rest) w =
     (let progress = (real (i + 1) / real (length modulesToLoad)) * 100;
          w1 = updateProgress e moduleLoadingId progress (''Chargement de '' @ name @ ''...'') w;
          w2 = (case loadModule e name path w1 of
                  (Inr v, w') \<Rightarrow> logger_debug (LogModuleLoaded name) w'
                | (Inl error, w') \<Rightarrow> logger_warn (LogModuleFailed name error) w')
      in loadModules_loop e moduleLoadingId (Suc i) rest w2)"

text \<open>
  \<open>loadModules\<close>. \<open>startLoading\<close> is called before the outer \<open>try\<close>: what it
  throws leaves the function at once, past the \<open>finally\<close>. Nothing inside the outer
  \<open>try\<close> throws, so there the \<open>finally\<close> is the last statement.
\<close>

definition loadModules :: "env \<Rightarrow> world \<Rightarrow> (jsval + unit) \<times> world" where
  "loadModules e w =
     (let w1 = logger_info LogModulesLoading w;
          moduleLoadingId = ''modules_loading''
      in case startLoading e moduleLoadingId ''Chargement des modules...'' True w1 of
           (Inl thrown, w2) \<Rightarrow> (Inl thrown, w2)
         | (Inr u, w2) \<Rightarrow>
             (let w3 = loadModules_loop e moduleLoadingId 0 modulesToLoad w2;
                  w4 = logger_info (LogModulesLoaded (length (modules w3))) w3
              in (Inr (), stopLoading e moduleLoadingId w4)))"

definition add_listeners :: "(string \<times> string) list \<Rightarrow> world \<Rightarrow> world" where
  "add_listeners ls w = w\<lparr>trace := trace w @ map (\<lambda>(target, name). AddListener target name) ls\<rparr>"

definition setupGlobalEventListeners :: "world \<Rightarrow> world" where
  "setupGlobalEventListeners w =
     logger_debug LogGlobalListeners
       (add_listeners
          [(''window'', ''error''), (''window'', ''unhandledrejection''),
           (''document'', ''keydown''), (''document'', ''visibilitychange'')] w)"

text \<open>
  \<open>setupForms\<close>, with \<open>APP_CONFIG.validation.realTime\<close> as configured (\<open>true\<close>):
  one \<open>submit\<close> listener on the form and one \<open>blur\<close> listener on each of its inputs.
\<close>

definition setupForms :: "env \<Rightarrow> world \<Rightarrow> world" where
  "setupForms e w =
     (case doc_form e of
        None \<Rightarrow> w
      | Some inputs \<Rightarrow>
          add_listeners
            ((''generationForm'', ''submit'') # replicate inputs (''generationForm input'', ''blur'')) w)"

definition setupMainButtons :: "env \<Rightarrow> world \<Rightarrow> world" where
  "setupMainButtons e w =
     add_listeners
       (map (\<lambda>buttonId. (buttonId, ''click''))
          (filter (\<lambda>buttonId. buttonId \<in> doc_buttons e)
             [''generateBtn'', ''previewBtn'', ''sampleBtn'', ''resetBtn''])) w"

definition setupTooltips :: "env \<Rightarrow> world \<Rightarrow> world" where
  "setupTooltips e w =
     add_listeners
       (concat (replicate (doc_tooltips e)
          [(''[data-tooltip]'', ''mouseenter''), (''[data-tooltip]'', ''mouseleave'')])) w"

text \<open>
  \<open>setupResponsive\<close>: the listener is added, then run once at once.
  \<open>window.matchMedia\<close> is taken to exist, as it does in a browser.
\<close>

definition setupResponsive :: "env \<Rightarrow> world \<Rightarrow> world" where
  "setupResponsive e w =
     (let w1 = add_listeners [(''(max-width: 768px)'', ''change'')] w;
          w2 = setState e [''isMobile'' \<mapsto> JBool (doc_mobile e)] w1
      in emit e ''viewportChanged'' (JObj [''isMobile'' \<mapsto> JBool (doc_mobile e)]) w2)"

definition initializeUI :: "env \<Rightarrow> world \<Rightarrow> world" where
  "initializeUI e w =
     logger_debug LogUiReady
       (setupResponsive e (setupTooltips e (setupMainButtons e (setupForms e (logger_info LogUiInit w)))))"

text \<open>
  The \<open>try\<close> block of the application's \<open>initialize\<close>. Of its statements
  \<open>loadModules\<close> and the notification can throw.
\<close>

definition initialize_try :: "env \<Rightarrow> world \<Rightarrow> (jsval + unit) \<times> world" where
  "initialize_try e w =
     (let w2 = lm_initialize e w;
          w3 = nm_initialize e w2
      in case loadModules e w3 of
           (Inl thrown, w4) \<Rightarrow> (Inl thrown, w4)
         | (Inr u, w4) \<Rightarrow>
             (let w5 = setupGlobalEventListeners w4;
                  w6 = initializeUI e w5;
                  w7 = w6\<lparr>initialized := True\<rparr>;
                  w8 = setState e [''initialized'' \<mapsto> JBool True] w7;
                  w9 = logger_info LogAppReady w8
              in case nm_success e
                        (''Application charg'' @ [e_acute] @ ''e avec succ'' @ [e_grave] @ ''s'') w9 of
                   (Inl thrown, w10) \<Rightarrow> (Inl thrown, w10)
                 | (Inr notificationId, w10) \<Rightarrow> (Inr (), emit e ''appInitialized'' JNull w10)))"

text \<open>
  The \<open>catch\<close> block of \<open>initialize\<close>: it logs, notifies and throws the error
  again.
\<close>

definition initialize_catch :: "env \<Rightarrow> jsval \<Rightarrow> world \<Rightarrow> (jsval + unit) \<times> world" where
  "initialize_catch e error w =
     (let w1 = logger_error (LogAppFailed error) w
      in case nm_error e (''Erreur lors du chargement de l'' @ [CHR 0x27] @ ''application'') w1 of
           (Inl thrown, w2) \<Rightarrow> (Inl thrown, w2)
         | (Inr notificationId, w2) \<Rightarrow> (Inl error, w2))"

text \<open>\<open>initialize\<close> of the application.\<close>

definition initialize :: "env \<Rightarrow> world \<Rightarrow> (jsval + unit) \<times> world" where
  "initialize e w =
     (case initialize_try e (logger_info LogAppInit w) of
        (Inr u, w1) \<Rightarrow> (Inr u, w1)
      | (Inl error, w1) \<Rightarrow> initialize_catch e error w1)"

text \<open>
  The string a template literal or \<open>new Error(v)\<close> makes of a value.
\<close>

fun to_string :: "env \<Rightarrow> jsval \<Rightarrow> string" where
  "to_string e (JStr s) = s"
| "to_string e JUndefined = ''undefined''"
| "to_string e JNull = ''null''"
| "to_string e (JBool b) = (if b then ''true'' else ''false'')"
| "to_string e JNaN = ''NaN''"
| "to_string e v = other_to_string e v"

text \<open>
  The \<open>try\<close> block of \<open>startGeneration\<close>. The result is what the block throws
  (\<open>Inl\<close>) or \<open>Inr ()\<close> when it ends or returns.
\<close>

definition generation_try :: "env \<Rightarrow> world \<Rightarrow> (jsval + unit) \<times> world" where
  "generation_try e w =
     (case getFormData e of
        None \<Rightarrow> (Inl (js_error ''TypeError'' ''this.getFormData is not a function''), w)
      | Some (Inl thrown) \<Rightarrow> (Inl thrown, w)
      | Some (Inr formData) \<Rightarrow>
     (case validateForm e of
        None \<Rightarrow> (Inl (js_error ''TypeError'' ''this.validateForm is not a function''), w)
      | Some validate \<Rightarrow>
     (case validate formData of
        Inl thrown \<Rightarrow> (Inl thrown, w)
      | Inr validation \<Rightarrow>
     (case get_prop validation ''valid'' of
        Inl type_error \<Rightarrow> (Inl type_error, w)
      | Inr valid \<Rightarrow>
          if \<not> truthy valid
          then (case nm_error e msg_fix_form w of
                  (Inl thrown, w1) \<Rightarrow> (Inl thrown, w1)
                | (Inr notificationId, w1) \<Rightarrow> (Inr (), w1))
          else
            (let generationId = ''main_generation''
             in case startLoading e generationId msg_generating True w of
                  (Inl thrown, w1) \<Rightarrow> (Inl thrown, w1)
                | (Inr u, w1) \<Rightarrow>
                (case post e ''/generate/'' formData w1 of
                  (Inl thrown, w2) \<Rightarrow> (Inl thrown, w2)
                | (Inr result, w2) \<Rightarrow>
                    (case get_prop result ''success'' of
                       Inl type_error \<Rightarrow> (Inl type_error, w2)
                     | Inr success \<Rightarrow>
                         if truthy success
                         then (case nm_success e msg_generated w2 of
                                 (Inl thrown, w3) \<Rightarrow> (Inl thrown, w3)
                               | (Inr notificationId, w3) \<Rightarrow>
                                   (Inr (),
                                    emit e ''generationCompleted'' result
                                      (setState e [''currentGeneration'' \<mapsto> result] w3)))
                         else (case get_prop result ''error'' of
                                 Inl type_error \<Rightarrow> (Inl type_error, w2)
                               | Inr err \<Rightarrow>
                                   (Inl (js_error ''Error''
                                           (to_string e
                                              (if truthy err then err
                                               else JStr msg_generation_failed))),
                                    w2)))))))))"

text \<open>The \<open>catch\<close> block of \<open>startGeneration\<close>.\<close>

definition generation_catch :: "env \<Rightarrow> jsval \<Rightarrow> world \<Rightarrow> (jsval + unit) \<times> world" where
  "generation_catch e error w =
     (let w1 = logger_error (LogGenFailed error) w
      in case get_prop error ''message'' of
           Inl type_error \<Rightarrow> (Inl type_error, w1)
         | Inr message \<Rightarrow>
             (case nm_error e (''Erreur: '' @ to_string e message) w1 of
                (Inl thrown, w2) \<Rightarrow> (Inl thrown, w2)
              | (Inr notificationId, w2) \<Rightarrow> (Inr (), w2)))"

text \<open>\<open>startGeneration\<close>: \<open>try\<close>, \<open>catch\<close>, and the \<open>finally\<close> that runs in every case.\<close>

definition startGeneration :: "env \<Rightarrow> world \<Rightarrow> (jsval + unit) \<times> world" where
  "startGeneration e w =
     (let w0 = logger_info LogGenStart w;
          (r, w2) = (case generation_try e w0 of
                       (Inr u, w1) \<Rightarrow> (Inr u, w1)
                     | (Inl error, w1) \<Rightarrow> generation_catch e error w1)
      in (r, stopLoading e ''main_generation'' w2))"

subsection \<open>The state the script starts in\<close>

text \<open>
  \<open>APP_STATE\<close>, and the singletons as their constructors leave them: the logger at
  the configured level \<open>info\<close>, no listener, no subscriber, no active load, no element
  looked up yet.
\<close>

definition APP_STATE :: "string \<Rightarrow> jsval option" where
  "APP_STATE =
     [''initialized'' \<mapsto> JBool False, ''loading'' \<mapsto> JBool False,
      ''currentGeneration'' \<mapsto> JNull, ''lastGenerationTime'' \<mapsto> JNull,
      ''errors'' \<mapsto> JArr [], ''warnings'' \<mapsto> JArr [],
      ''currentView'' \<mapsto> JStr ''form'', ''modules'' \<mapsto> JObj Map.empty]"

definition initial_world :: world where
  "initial_world =
     \<lparr>currentLevel = Info, trace = [], listeners = Map.empty, state = APP_STATE,
      subscribers = [], activeLoads = {}, overlay = None, progressBar = None,
      statusElement = None, container = None, notifications = Map.empty, modules = [],
      initialized = False, fetches = 0, ids = 0\<rparr>"

text \<open>
  An environment in which every callback returns at once, every \<open>fetch\<close> fails, no
  script loads, the form methods are missing and the document is empty.
\<close>

definition quiet_env :: env where
  "quiet_env =
     \<lparr>handler = (\<lambda>f this args. ([], None)),
      net = (\<lambda>n url init. Rejected ''TypeError'' ''Failed to fetch''),
      script = (\<lambda>name path. ScriptError),
      getFormData = None,
      validateForm = None,
      random_id = show_nat,
      other_to_string = (\<lambda>v. ''[object Object]''),
      doc_overlay = None, doc_progressBar = None, doc_status = None, doc_container = None,
      doc_form = None, doc_buttons = {}, doc_tooltips = 0, doc_mobile = False\<rparr>"

subsection \<open>Notions the properties are stated with\<close>

text \<open>The listeners registered for an event, in registration order.\<close>

definition registered :: "world \<Rightarrow> string \<Rightarrow> listener list" where
  "registered w eventType = (case listeners w eventType of None \<Rightarrow> [] | Some ls \<Rightarrow> ls)"

text \<open>
  What a dispatch shows in the trace: the calls of callbacks and the error lines of the
  console, in order.
\<close>

fun dispatch_of :: "event list \<Rightarrow> event list" where
  "dispatch_of [] = []"
| "dispatch_of (Call f this args # es) = Call f this args # dispatch_of es"
| "dispatch_of (Console Error m # es) = Console Error m # dispatch_of es"
| "dispatch_of (ev # es) = dispatch_of es"

text \<open>
  What the dispatch of one listener should show: its call with the event data, and
  after it the error line when the callback throws.
\<close>

definition listener_outcome :: "env \<Rightarrow> string \<Rightarrow> jsval \<Rightarrow> listener \<Rightarrow> event list" where
  "listener_outcome e eventType data l =
     Call (callback l) (receiver l) [data] #
       (case snd (handler e (callback l) (receiver l) [data]) of
          None \<Rightarrow> []
        | Some err \<Rightarrow> [Console Error (LogListenerFailed eventType err)])"

text \<open>Whether a listener, dispatched with \<open>data\<close>, calls \<open>off\<close> for the event type.\<close>

fun is_off_for :: "string \<Rightarrow> reg_op \<Rightarrow> bool" where
  "is_off_for eventType (RegOff ev cb) = (ev = eventType)"
| "is_off_for eventType (RegOn ev cb context) = False"

definition calls_off :: "env \<Rightarrow> string \<Rightarrow> jsval \<Rightarrow> listener \<Rightarrow> bool" where
  "calls_off e eventType data l =
     list_ex (is_off_for eventType) (fst (handler e (callback l) (receiver l) [data]))"

text \<open>A list without its first element that satisfies \<open>P\<close>.\<close>

fun remove_first :: "('a \<Rightarrow> bool) \<Rightarrow> 'a list \<Rightarrow> 'a list" where
  "remove_first P [] = []"
| "remove_first P (x # xs) = (if P x then xs else x # remove_first P xs)"

text \<open>The calls of callbacks a trace records, in order.\<close>

fun calls_of :: "event list \<Rightarrow> (nat \<times> jsval \<times> jsval list) list" where
  "calls_of [] = []"
| "calls_of (Call f this args # es) = (f, this, args) # calls_of es"
| "calls_of (ev # es) = calls_of es"

text \<open>How often a trace calls the callback \<open>cb\<close>.\<close>

definition times_called :: "nat \<Rightarrow> event list \<Rightarrow> nat" where
  "times_called cb tr = length (filter (\<lambda>(f, this, args). f = cb) (calls_of tr))"

text \<open>
  What a dispatch can add to the trace: calls of callbacks, and the debug and error
  lines of the console.
\<close>

fun is_dispatch_event :: "event \<Rightarrow> bool" where
  "is_dispatch_event (Call f this args) = True"
| "is_dispatch_event (Console Debug m) = True"
| "is_dispatch_event (Console Error m) = True"
| "is_dispatch_event ev = False"

text \<open>
  Two worlds that differ at most in the listener arrays and in such events at the end
  of the trace: what a dispatch can change.
\<close>

definition only_dispatch :: "world \<Rightarrow> world \<Rightarrow> bool" where
  "only_dispatch w w' \<longleftrightarrow>
     (\<exists>es. list_all is_dispatch_event es \<and>
           w' = w\<lparr>trace := trace w @ es, listeners := listeners w'\<rparr>)"

text \<open>
  Two worlds with the same page: they differ at most in the trace, the listener arrays
  and the two counters.
\<close>

definition same_page :: "world \<Rightarrow> world \<Rightarrow> bool" where
  "same_page w w' \<longleftrightarrow>
     w' = w\<lparr>trace := trace w', listeners := listeners w', fetches := fetches w', ids := ids w'\<rparr>"

text \<open>The calls of \<open>fetch\<close> and the waits of a trace, in order.\<close>

fun is_net_event :: "event \<Rightarrow> bool" where
  "is_net_event (Fetch url init) = True"
| "is_net_event (Delay ms) = True"
| "is_net_event ev = False"

definition net_of :: "event list \<Rightarrow> event list" where
  "net_of tr = filter is_net_event tr"

text \<open>The warnings of a trace, in order.\<close>

fun is_warning :: "event \<Rightarrow> bool" where
  "is_warning (Console Warn m) = True"
| "is_warning ev = False"

definition warnings_of :: "event list \<Rightarrow> event list" where
  "warnings_of tr = filter is_warning tr"

text \<open>
  The world after a failed attempt of \<open>request\<close> that is not the last: the \<open>fetch\<close>,
  the warning, and the wait before the next attempt.
\<close>

definition after_failure :: "string \<Rightarrow> fetch_init \<Rightarrow> nat \<Rightarrow> jsval \<Rightarrow> world \<Rightarrow> world" where
  "after_failure url init attempt err w =
     (let w1 = w\<lparr>trace := trace w @ [Fetch url init], fetches := Suc (fetches w)\<rparr>;
          w2 = logger_warn (LogAttemptFailed attempt retryAttempts url
                 (case get_prop err ''message'' of Inr m \<Rightarrow> m | Inl t \<Rightarrow> JUndefined)) w1
      in w2\<lparr>trace := trace w2 @ [Delay (2 ^ (attempt - 1) * 1000)]\<rparr>)"

text \<open>
  A submission as \<open>startGeneration\<close> sees it: the form data and the value of
  \<open>validation.valid\<close>, when both form methods exist and return and the property can be
  read.
\<close>

definition validation_of :: "env \<Rightarrow> (jsval \<times> jsval) option" where
  "validation_of e =
     (case getFormData e of
        Some (Inr formData) \<Rightarrow>
          (case validateForm e of
             Some validate \<Rightarrow>
               (case validate formData of
                  Inr validation \<Rightarrow>
                    (case get_prop validation ''valid'' of
                       Inr valid \<Rightarrow> Some (formData, valid)
                     | Inl type_error \<Rightarrow> None)
                | Inl thrown \<Rightarrow> None)
           | None \<Rightarrow> None)
      | Some (Inl thrown) \<Rightarrow> None
      | None \<Rightarrow> None)"

text \<open>
  A loading manager whose overlay can take a message: it holds no overlay, or one with a
  \<open>.loading-message\<close> descendant.
\<close>

definition overlay_usable :: "overlay_el option \<Rightarrow> bool" where
  "overlay_usable ov = (case ov of None \<Rightarrow> True | Some el \<Rightarrow> ov_message el \<noteq> None)"

text \<open>
  The JSON body of a request that posts \<open>formData\<close>: the text of the form data, the
  text of \<open>{}\<close> when the form data is \<open>undefined\<close>, and none when the form data is a
  function.
\<close>

definition json_body :: "jsval \<Rightarrow> json_text option" where
  "json_body formData =
     (case formData of
        JUndefined \<Rightarrow> Some (Stringify (JObj Map.empty))
      | JFun f \<Rightarrow> None
      | _ \<Rightarrow> Some (Stringify formData))"

text \<open>
  The request \<open>post('/generate/', formData)\<close> makes, the world in which
  \<open>startGeneration\<close> makes it, what it comes to there, and whether that is a
  response with a truthy \<open>success\<close>.
\<close>

definition generate_init :: "jsval \<Rightarrow> fetch_init" where
  "generate_init formData =
     \<lparr>http_method = ''POST'',
      headers = [(''Content-Type'', ''application/json''), (''Accept'', ''application/json'')],
      timeout_ms = 300000,
      body = json_body formData\<rparr>"

definition generation_started :: "env \<Rightarrow> world \<Rightarrow> world" where
  "generation_started e w =
     snd (startLoading e ''main_generation'' msg_generating True (logger_info LogGenStart w))"

text \<open>
  Markup that is nothing but text: it has no \<open><\<close>, which opens a tag, no \<open>&\<close>, which
  opens a character reference, and none of the characters the parser drops or replaces
  (the null character and the carriage return). The parser turns such markup into one
  text node with the same characters, so the text of the element is the string itself;
  of other markup the model does not say what the text is.
\<close>

definition plain_text :: "string \<Rightarrow> bool" where
  "plain_text s \<longleftrightarrow>
     CHR ''<'' \<notin> set s \<and> CHR ''&'' \<notin> set s \<and> CHR 0x00 \<notin> set s \<and> CHR 0x0D \<notin> set s"

fun text_of :: "html \<Rightarrow> string option" where
  "text_of (Html s) = (if plain_text s then Some s else None)"

definition generation_response :: "env \<Rightarrow> jsval \<Rightarrow> world \<Rightarrow> jsval + jsval" where
  "generation_response e formData w = fst (post e ''/generate/'' formData (generation_started e w))"

definition generation_succeeded :: "env \<Rightarrow> jsval \<Rightarrow> world \<Rightarrow> bool" where
  "generation_succeeded e formData w =
     (case generation_response e formData w of
        Inr result \<Rightarrow> (case get_prop result ''success'' of Inr success \<Rightarrow> truthy success | Inl t \<Rightarrow> False)
      | Inl thrown \<Rightarrow> False)"

text \<open>The warning \<open>request\<close> logs for a failed attempt.\<close>

definition failure_warning :: "nat \<Rightarrow> string \<Rightarrow> jsval \<Rightarrow> event" where
  "failure_warning attempt url err =
     Console Warn (LogAttemptFailed attempt retryAttempts url
       (case get_prop err ''message'' of Inr m \<Rightarrow> m | Inl t \<Rightarrow> JUndefined))"

text \<open>The listeners a trace adds to the document, the window and the media query, in order.\<close>

fun is_add_listener :: "event \<Rightarrow> bool" where
  "is_add_listener (AddListener target name) = True"
| "is_add_listener ev = False"

definition dom_listeners_of :: "event list \<Rightarrow> event list" where
  "dom_listeners_of tr = filter is_add_listener tr"

text \<open>
  The listeners the bootstrap is to add: the four global ones, then those of the form
  (its \<open>submit\<close> and the \<open>blur\<close> of each input), of the main buttons the page has,
  of the elements with a tooltip, and of the media query.
\<close>

definition bootstrap_listeners :: "env \<Rightarrow> (string \<times> string) list" where
  "bootstrap_listeners e =
     [(''window'', ''error''), (''window'', ''unhandledrejection''),
      (''document'', ''keydown''), (''document'', ''visibilitychange'')]
     @ (case doc_form e of
          None \<Rightarrow> []
        | Some inputs \<Rightarrow>
            (''generationForm'', ''submit'') # replicate inputs (''generationForm input'', ''blur''))
     @ map (\<lambda>buttonId. (buttonId, ''click''))
         (filter (\<lambda>buttonId. buttonId \<in> doc_buttons e)
            [''generateBtn'', ''previewBtn'', ''sampleBtn'', ''resetBtn''])
     @ concat (replicate (doc_tooltips e)
         [(''[data-tooltip]'', ''mouseenter''), (''[data-tooltip]'', ''mouseleave'')])
     @ [(''(max-width: 768px)'', ''change'')]"

text \<open>The script elements a trace appends, in order.\<close>

fun is_script :: "event \<Rightarrow> bool" where
  "is_script (Script name path) = True"
| "is_script ev = False"

definition scripts_of :: "event list \<Rightarrow> event list" where
  "scripts_of tr = filter is_script tr"

text \<open>
  The module a script registers: the value of \<open>window[name]\<close> after the script has
  loaded, when the script loads and that value is truthy.
\<close>

definition module_value :: "env \<Rightarrow> string \<Rightarrow> string \<Rightarrow> jsval option" where
  "module_value e name path =
     (case script e name path of
        ScriptLoaded v \<Rightarrow> if truthy v then Some v else None
      | ScriptError \<Rightarrow> None)"

text \<open>
  The loading overlay is hidden when its \<open>style.display\<close> is \<open>none\<close>; a manager that
  holds no overlay shows none. The loading flag is the property \<open>loading\<close> of the
  global state.
\<close>

definition overlay_hidden :: "world \<Rightarrow> bool" where
  "overlay_hidden w = (case overlay w of None \<Rightarrow> True | Some el \<Rightarrow> ov_display el = ''none'')"

definition loading_flag :: "world \<Rightarrow> jsval option" where
  "loading_flag w = state w ''loading''"

text \<open>
  The invariant of the loading manager: the flag says whether a load is active, and an
  overlay the manager holds is displayed (\<open>flex\<close>) while a load is active and hidden
  (\<open>none\<close>) otherwise.
\<close>

definition loading_inv :: "world \<Rightarrow> bool" where
  "loading_inv w \<longleftrightarrow>
     loading_flag w = Some (JBool (activeLoads w \<noteq> {})) \<and>
     (case overlay w of
        None \<Rightarrow> True
      | Some el \<Rightarrow> ov_display el = (if activeLoads w = {} then ''none'' else ''flex''))"

text \<open>
  The calls a client makes on the loading manager, and a run of such calls, one after
  the other, each in the world the one before has left.
\<close>

datatype load_op =
    StartLoading string string bool
  | UpdateProgress string real string
  | StopLoading string
  | StopAllLoading

fun run_load_op :: "env \<Rightarrow> load_op \<Rightarrow> world \<Rightarrow> world" where
  "run_load_op e (StartLoading loadId message showProgress) w =
     snd (startLoading e loadId message showProgress w)"
| "run_load_op e (UpdateProgress loadId progress status) w = updateProgress e loadId progress status w"
| "run_load_op e (StopLoading loadId) w = stopLoading e loadId w"
| "run_load_op e StopAllLoading w = stopAllLoading e w"

definition run_load_ops :: "env \<Rightarrow> load_op list \<Rightarrow> world \<Rightarrow> world" where
  "run_load_ops e ops w = fold (run_load_op e) ops w"

text \<open>
  The identifiers a run of calls leaves pending: those that were pending before or were
  started in the run, and have not been stopped since.
\<close>

fun pending_after :: "load_op \<Rightarrow> string set \<Rightarrow> string set" where
  "pending_after (StartLoading loadId message showProgress) before = insert loadId before"
| "pending_after (UpdateProgress loadId progress status) before = before"
| "pending_after (StopLoading loadId) before = before - {loadId}"
| "pending_after StopAllLoading before = {}"

definition pending :: "load_op list \<Rightarrow> string set \<Rightarrow> string set" where
  "pending ops before = fold pending_after ops before"

subsection \<open>Concrete callbacks and worlds\<close>

text \<open>
  A callback that unregisters itself when it is called (callback 1, for the event
  \<open>tick\<close>), as a listener that is to run once does; every other callback returns at
  once. In \<open>once_world\<close> it is registered for \<open>tick\<close>, and callback 2 after it.
\<close>

definition once_env :: env where
  "once_env =
     quiet_env\<lparr>handler := (\<lambda>f this args. if f = 1 then ([RegOff ''tick'' 1], None) else ([], None))\<rparr>"

definition once_world :: world where
  "once_world = on ''tick'' 2 JNull (on ''tick'' 1 JNull initial_world)"

text \<open>
  Callback 1 throws; callback 2 registers callback 3 for the same event and returns. In
  \<open>throwing_world\<close> callback 1 is registered for \<open>tick\<close> without a context and
  callback 2 with the object \<open>view\<close> as its context.
\<close>

definition throwing_env :: env where
  "throwing_env =
     quiet_env\<lparr>handler := (\<lambda>f this args.
        if f = 1 then ([], Some (js_error ''Error'' ''boom''))
        else if f = 2 then ([RegOn ''tick'' 3 JNull], None)
        else ([], None))\<rparr>"

definition view :: jsval where
  "view = JObj [''name'' \<mapsto> JStr ''view'']"

definition throwing_world :: world where
  "throwing_world = on ''tick'' 2 view (on ''tick'' 1 JNull initial_world)"

text \<open>A world in which callback 7 listens to \<open>tick\<close>.\<close>

definition busy_world :: world where
  "busy_world = on ''tick'' 7 JNull initial_world"

text \<open>
  A state with a nested object, and the page after \<open>LoadingManager.initialize\<close> in an
  empty document.
\<close>

definition nested_world :: world where
  "nested_world =
     initial_world\<lparr>state :=
       [''ui'' \<mapsto> JObj [''theme'' \<mapsto> JStr ''dark'', ''lang'' \<mapsto> JStr ''fr''],
        ''loading'' \<mapsto> JBool False]\<rparr>"

definition ready_world :: world where
  "ready_world = lm_initialize quiet_env initial_world"

text \<open>Two loads started one inside the other on that page.\<close>

definition two_loads :: world where
  "two_loads =
     run_load_ops quiet_env
       [StartLoading ''a'' ''first'' False, StartLoading ''b'' ''second'' False] ready_world"

text \<open>
  Two loads that share their identifier, started one inside the other on that page, of
  which one has been stopped.
\<close>

definition twin_loads :: world where
  "twin_loads =
     run_load_ops quiet_env
       [StartLoading ''main_generation'' ''first'' False,
        StartLoading ''main_generation'' ''second'' False,
        StopLoading ''main_generation''] ready_world"

text \<open>
  A server that cannot be reached twice and then answers, and a server that answers
  every request with the status 503.
\<close>

definition flaky_env :: env where
  "flaky_env =
     quiet_env\<lparr>net := (\<lambda>n url init.
        if n < 2 then Rejected ''TypeError'' ''Failed to fetch''
        else Responded 200 ''OK'' (Json (JObj [''success'' \<mapsto> JBool True])))\<rparr>"

definition down_env :: env where
  "down_env =
     quiet_env\<lparr>net := (\<lambda>n url init. Responded 503 ''Service Unavailable'' (Json JNull))\<rparr>"

text \<open>
  The page after the two managers' \<open>initialize\<close> in an empty document, and three
  environments for a submission: one whose form fails validation, one whose form
  passes while the server cannot be reached, and one whose form passes while the server
  answers that the generation failed.
\<close>

definition page_world :: world where
  "page_world = nm_initialize quiet_env (lm_initialize quiet_env initial_world)"

definition form_data :: jsval where
  "form_data = JObj [''city'' \<mapsto> JStr ''Kuala Lumpur'', ''buildings'' \<mapsto> JNum 10]"

definition invalid_env :: env where
  "invalid_env =
     quiet_env\<lparr>getFormData := Some (Inr form_data),
               validateForm := Some (\<lambda>formData. Inr (JObj [''valid'' \<mapsto> JBool False]))\<rparr>"

definition valid_env :: env where
  "valid_env =
     quiet_env\<lparr>getFormData := Some (Inr form_data),
               validateForm := Some (\<lambda>formData. Inr (JObj [''valid'' \<mapsto> JBool True]))\<rparr>"

definition refusing_env :: env where
  "refusing_env =
     valid_env\<lparr>net := (\<lambda>n url init.
        Responded 200 ''OK''
          (Json (JObj [''success'' \<mapsto> JBool False, ''error'' \<mapsto> JStr ''No buildings found''])))\<rparr>"

definition accepting_env :: env where
  "accepting_env =
     valid_env\<lparr>net := (\<lambda>n url init.
        Responded 200 ''OK''
          (Json (JObj [''success'' \<mapsto> JBool True, ''buildings'' \<mapsto> JArr []])))\<rparr>"

text \<open>
  A form whose data is \<open>undefined\<close> and passes validation, with the server that
  accepts.
\<close>

definition blank_env :: env where
  "blank_env = accepting_env\<lparr>getFormData := Some (Inr JUndefined)\<rparr>"

text \<open>
  A site on which the form validator loads and registers itself, the script of the map
  controller loads without registering anything, and the other three scripts are
  missing. Its page has the generation form with two inputs, the buttons to generate
  and to reset, and one element with a tooltip.
\<close>

definition partial_env :: env where
  "partial_env =
     quiet_env\<lparr>script := (\<lambda>name path.
        if name = ''formValidator'' then ScriptLoaded (JFun 40)
        else if name = ''mapController'' then ScriptLoaded JUndefined
        else ScriptError),
        doc_form := Some 2, doc_buttons := {''generateBtn'', ''resetBtn''}, doc_tooltips := 1\<rparr>"

text \<open>
  A site none of whose scripts loads, with a page whose loading overlay has no
  \<open>.loading-message\<close> descendant.
\<close>

definition bare_env :: env where
  "bare_env = quiet_env\<lparr>doc_overlay := Some \<lparr>ov_display = ''none'', ov_message = None\<rparr>\<rparr>"

text \<open>
  A server that answers that the generation failed and gives an empty error string,
  and a world in which the callback that unregisters itself is the only listener of
  \<open>tick\<close>.
\<close>

definition silent_env :: env where
  "silent_env =
     valid_env\<lparr>net := (\<lambda>n url init.
        Responded 200 ''OK'' (Json (JObj [''success'' \<mapsto> JBool False, ''error'' \<mapsto> JStr []])))\<rparr>"

definition lone_world :: world where
  "lone_world = on ''tick'' 1 JNull initial_world"

section \<open>Properties\<close>

subsection \<open>Traces\<close>

lemma calls_of_append: "calls_of (xs @ ys) = calls_of xs @ calls_of ys"
  by (induction xs rule: calls_of.induct) simp_all

subsection \<open>What a dispatch leaves alone\<close>

lemma only_dispatch_refl [simp]: "only_dispatch w w"
  unfolding only_dispatch_def by (rule exI[of _ "[]"]) simp

lemma only_dispatch_trans:
  assumes "only_dispatch a b" and "only_dispatch b c"
  shows "only_dispatch a c"
proof -
  from assms(1) obtain es where
    es: "list_all is_dispatch_event es" "b = a\<lparr>trace := trace a @ es, listeners := listeners b\<rparr>"
    unfolding only_dispatch_def by blast
  from assms(2) obtain fs where
    fs: "list_all is_dispatch_event fs" "c = b\<lparr>trace := trace b @ fs, listeners := listeners c\<rparr>"
    unfolding only_dispatch_def by blast
  from es(2) have tb: "trace b = trace a @ es"
    by (cases a, cases b) simp
  have "c = a\<lparr>trace := trace a @ (es @ fs), listeners := listeners c\<rparr>"
    using es(2) fs(2) tb by (cases a, cases b, cases c) simp
  with es(1) fs(1) show ?thesis
    unfolding only_dispatch_def by (intro exI[of _ "es @ fs"]) simp
qed

lemma only_dispatch_event [simp]:
  assumes "is_dispatch_event ev" and "only_dispatch w a"
  shows "only_dispatch w (a\<lparr>trace := trace a @ [ev]\<rparr>)"
proof (rule only_dispatch_trans[OF assms(2)])
  show "only_dispatch a (a\<lparr>trace := trace a @ [ev]\<rparr>)"
    unfolding only_dispatch_def using assms(1) by (intro exI[of _ "[ev]"]) simp
qed

lemma only_dispatch_listeners [simp]:
  assumes "only_dispatch w a"
  shows "only_dispatch w (a\<lparr>listeners := l\<rparr>)"
proof (rule only_dispatch_trans[OF assms])
  show "only_dispatch a (a\<lparr>listeners := l\<rparr>)"
    unfolding only_dispatch_def by (intro exI[of _ "[]"]) simp
qed

lemma only_dispatch_fields:
  assumes "only_dispatch w w'"
  shows "currentLevel w' = currentLevel w" "state w' = state w" "subscribers w' = subscribers w"
    "activeLoads w' = activeLoads w" "overlay w' = overlay w" "progressBar w' = progressBar w"
    "statusElement w' = statusElement w" "container w' = container w"
    "notifications w' = notifications w" "modules w' = modules w" "initialized w' = initialized w"
    "fetches w' = fetches w" "ids w' = ids w"
  using assms unfolding only_dispatch_def
  by (cases w, cases w', auto)+

text \<open>A view of the trace that shows no dispatch event is the same before and after.\<close>

lemma only_dispatch_filter:
  assumes "only_dispatch w w'" and "\<And>ev. is_dispatch_event ev \<Longrightarrow> \<not> P ev"
  shows "filter P (trace w') = filter P (trace w)"
proof -
  from assms(1) obtain es where
    es: "list_all is_dispatch_event es" "w' = w\<lparr>trace := trace w @ es, listeners := listeners w'\<rparr>"
    unfolding only_dispatch_def by blast
  from es(2) have "trace w' = trace w @ es"
    by (cases w, cases w') simp
  moreover from es(1) assms(2) have "filter P es = []"
    by (induction es) simp_all
  ultimately show ?thesis by simp
qed

lemma only_dispatch_net: "only_dispatch w w' \<Longrightarrow> net_of (trace w') = net_of (trace w)"
  unfolding net_of_def by (rule only_dispatch_filter) (auto elim: is_dispatch_event.elims)

lemma only_dispatch_warnings: "only_dispatch w w' \<Longrightarrow> warnings_of (trace w') = warnings_of (trace w)"
  unfolding warnings_of_def by (rule only_dispatch_filter) (auto elim: is_dispatch_event.elims)

lemma only_dispatch_logger [simp]:
  "lv = Debug \<or> lv = Error \<Longrightarrow> only_dispatch w a \<Longrightarrow> only_dispatch w (logger_log lv m a)"
  by (auto simp: logger_log_def)

lemma logger_fields [simp]:
  "currentLevel (logger_log lv m w) = currentLevel w" "state (logger_log lv m w) = state w"
  "subscribers (logger_log lv m w) = subscribers w" "activeLoads (logger_log lv m w) = activeLoads w"
  "overlay (logger_log lv m w) = overlay w" "progressBar (logger_log lv m w) = progressBar w"
  "statusElement (logger_log lv m w) = statusElement w" "container (logger_log lv m w) = container w"
  "notifications (logger_log lv m w) = notifications w" "modules (logger_log lv m w) = modules w"
  "initialized (logger_log lv m w) = initialized w" "fetches (logger_log lv m w) = fetches w"
  "ids (logger_log lv m w) = ids w"
  by (simp_all add: logger_log_def)

lemma only_dispatch_on [simp]: "only_dispatch w a \<Longrightarrow> only_dispatch w (on ev cb c a)"
  by (simp add: on_def Let_def split: option.split)

lemma only_dispatch_off [simp]: "only_dispatch w a \<Longrightarrow> only_dispatch w (off ev cb a)"
  by (simp add: off_def split: option.split)

lemma only_dispatch_ops [simp]: "only_dispatch w a \<Longrightarrow> only_dispatch w (fold apply_reg_op ops a)"
proof (induction ops arbitrary: a)
  case Nil
  then show ?case by simp
next
  case (Cons op ops)
  then show ?case by (cases op) simp_all
qed

lemma only_dispatch_call: "only_dispatch w a \<Longrightarrow> only_dispatch w (snd (call_handler e f this args a))"
  by (simp add: call_handler_def Let_def split: prod.split)

lemma only_dispatch_invoke [simp]: "only_dispatch w a \<Longrightarrow> only_dispatch w (invoke_listener e ev d l a)"
  using only_dispatch_call[of w a e "callback l" "receiver l" "[d]"]
  by (auto simp: invoke_listener_def split: prod.split option.split)

lemma only_dispatch_forEach [simp]:
  "only_dispatch w a \<Longrightarrow> only_dispatch w (forEach_listeners e ev d k n a)"
  by (induction n arbitrary: k a) (simp_all add: Let_def)

lemma only_dispatch_emit [simp]: "only_dispatch w a \<Longrightarrow> only_dispatch w (emit e ev d a)"
  by (simp add: emit_def Let_def split: option.split)

lemma only_dispatch_notify [simp]: "only_dispatch w a \<Longrightarrow> only_dispatch w (notify_subscriber e p s a)"
  using only_dispatch_call[of w a e s JUndefined "[JObj (state a), p]"]
  by (auto simp: notify_subscriber_def split: prod.split option.split)

lemma only_dispatch_subscribers [simp]:
  "only_dispatch w a \<Longrightarrow> only_dispatch w (fold (notify_subscriber e p) ss a)"
  by (induction ss arbitrary: a) simp_all

lemmas emit_fields [simp] = only_dispatch_fields[OF only_dispatch_emit[OF only_dispatch_refl]]

lemma state_setState [simp]: "state (setState e u w) = state w ++ u"
  by (simp add: setState_def Let_def only_dispatch_fields(2)[OF only_dispatch_subscribers[OF only_dispatch_refl]])

subsection \<open>EventManager\<close>

lemma or_null_simps [simp]:
  "or_null JUndefined = JNull" "or_null JNull = JNull" "or_null (JBool b) = JBool b"
  "or_null (JNum x) = JNum x" "or_null JNaN = JNaN" "or_null (JStr s) = JStr s"
  "or_null (JArr xs) = JArr xs" "or_null (JObj m) = JObj m" "or_null (JFun f) = JFun f"
  by (simp_all add: or_null_def)

lemma dispatch_of_append: "dispatch_of (xs @ ys) = dispatch_of xs @ dispatch_of ys"
  by (induction xs rule: dispatch_of.induct) simp_all

lemma level_num_le_3: "level_num lv \<le> 3"
  by (cases lv) simp_all

lemma trace_logger:
  "trace (logger_log lv m w) =
     trace w @ (if level_num (currentLevel w) \<le> level_num lv then [Console lv m] else [])"
  by (simp add: logger_log_def)

lemma listeners_logger [simp]: "listeners (logger_log lv m w) = listeners w"
  by (simp add: logger_log_def)

lemma dispatch_of_logger:
  "dispatch_of (trace (logger_log lv m w)) =
     dispatch_of (trace w) @ (if lv = Error then [Console Error m] else [])"
  by (cases lv) (simp_all add: trace_logger dispatch_of_append level_num_le_3)

lemma dispatch_of_debug [simp]: "dispatch_of (trace (logger_debug m w)) = dispatch_of (trace w)"
  by (simp add: dispatch_of_logger)

lemma dispatch_of_on [simp]: "dispatch_of (trace (on ev cb c w)) = dispatch_of (trace w)"
  by (simp add: on_def Let_def split: option.split)

lemma dispatch_of_off [simp]: "dispatch_of (trace (off ev cb w)) = dispatch_of (trace w)"
  by (simp add: off_def split: option.split)

lemma dispatch_of_ops [simp]: "dispatch_of (trace (fold apply_reg_op ops w)) = dispatch_of (trace w)"
proof (induction ops arbitrary: w)
  case Nil
  then show ?case by simp
next
  case (Cons op ops)
  then show ?case by (cases op) simp_all
qed

lemma listeners_on:
  "listeners (on ev' cb c w) =
     (listeners w)(ev' \<mapsto> registered w ev' @ [\<lparr>callback = cb, ctx = or_null c\<rparr>])"
  by (simp add: on_def Let_def registered_def split: option.split)

lemma listeners_off_other: "ev' \<noteq> ev \<Longrightarrow> listeners (off ev' cb w) ev = listeners w ev"
  by (simp add: off_def split: option.split)

text \<open>
  As long as nobody calls \<open>off\<close> for an event, the listeners registered for it stay
  where they are: the array only grows at its end.
\<close>

lemma ops_keep_prefix:
  assumes "\<not> list_ex (is_off_for ev) ops" and "listeners w ev = Some (ls @ xs)"
  shows "\<exists>ys. listeners (fold apply_reg_op ops w) ev = Some (ls @ ys)"
  using assms
proof (induction ops arbitrary: w xs)
  case Nil
  then show ?case by simp
next
  case (Cons op ops)
  show ?case
  proof (cases op)
    case (RegOn ev' cb c)
    have "\<exists>zs. listeners (on ev' cb c w) ev = Some (ls @ zs)"
      using Cons.prems(2) by (cases "ev = ev'") (simp_all add: listeners_on registered_def)
    then obtain zs where "listeners (on ev' cb c w) ev = Some (ls @ zs)" ..
    with Cons.IH[of "on ev' cb c w" zs] Cons.prems(1) RegOn show ?thesis by simp
  next
    case (RegOff ev' cb)
    with Cons.prems have "listeners (off ev' cb w) ev = Some (ls @ xs)"
      by (simp add: listeners_off_other)
    with Cons.IH[of "off ev' cb w" xs] Cons.prems(1) RegOff show ?thesis by simp
  qed
qed

lemma invoke_listener_trace:
  "dispatch_of (trace (invoke_listener e ev d l w)) = dispatch_of (trace w) @ listener_outcome e ev d l"
  by (simp add: invoke_listener_def call_handler_def listener_outcome_def Let_def
      dispatch_of_logger dispatch_of_append split: prod.split option.split)

lemma invoke_listener_prefix:
  assumes "\<not> calls_off e ev d l" and "listeners w ev = Some (ls @ xs)"
  shows "\<exists>ys. listeners (invoke_listener e ev d l w) ev = Some (ls @ ys)"
proof -
  obtain ops thrown where h: "handler e (callback l) (receiver l) [d] = (ops, thrown)"
    by (cases "handler e (callback l) (receiver l) [d]")
  with assms(1) have "\<not> list_ex (is_off_for ev) ops"
    by (simp add: calls_off_def)
  from ops_keep_prefix[OF this, of "w\<lparr>trace := trace w @ [Call (callback l) (receiver l) [d]]\<rparr>" ls xs] assms(2)
  show ?thesis
    by (cases thrown) (simp_all add: invoke_listener_def call_handler_def h)
qed

lemma forEach_listeners_trace:
  assumes "listeners w ev = Some (ls @ xs)" and "k + n = length ls"
    and "\<forall>l \<in> set (drop k ls). \<not> calls_off e ev d l"
  shows "dispatch_of (trace (forEach_listeners e ev d k n w)) =
           dispatch_of (trace w) @ concat (map (listener_outcome e ev d) (drop k ls))"
  using assms
proof (induction n arbitrary: k w xs)
  case 0
  then show ?case by simp
next
  case (Suc n)
  from Suc.prems(2) have k: "k < length ls" by simp
  then have d: "drop k ls = ls ! k # drop (Suc k) ls"
    by (simp add: Cons_nth_drop_Suc)
  let ?w = "invoke_listener e ev d (ls ! k) w"
  from Suc.prems(3) d have quiet: "\<not> calls_off e ev d (ls ! k)"
    by (metis list.set_intros(1))
  from invoke_listener_prefix[OF quiet Suc.prems(1)]
  obtain ys where ys: "listeners ?w ev = Some (ls @ ys)" ..
  have rest: "\<forall>l \<in> set (drop (Suc k) ls). \<not> calls_off e ev d l"
    using Suc.prems(3) d by (metis list.set_intros(2))
  have "dispatch_of (trace (forEach_listeners e ev d (Suc k) n ?w)) =
          dispatch_of (trace ?w) @ concat (map (listener_outcome e ev d) (drop (Suc k) ls))"
    using Suc.IH[OF ys _ rest] Suc.prems(2) by simp
  moreover have "forEach_listeners e ev d k (Suc n) w = forEach_listeners e ev d (Suc k) n ?w"
    using Suc.prems(1) k by (simp add: nth_append)
  ultimately show ?case
    by (simp add: invoke_listener_trace d)
qed


lemma emit_trace:
  assumes "\<forall>l \<in> set (registered w eventType). \<not> calls_off e eventType (or_null data) l"
  shows "dispatch_of (trace (emit e eventType data w)) =
           dispatch_of (trace w) @
           concat (map (listener_outcome e eventType (or_null data)) (registered w eventType))"
proof (cases "listeners w eventType")
  case None
  then show ?thesis by (simp add: emit_def Let_def registered_def)
next
  case (Some ls)
  let ?w = "logger_debug (LogEmit eventType (or_null data)) w"
  have "listeners ?w eventType = Some (ls @ [])" using Some by simp
  from forEach_listeners_trace[OF this, of 0 "length ls" e "or_null data"] assms Some
  show ?thesis by (simp add: emit_def Let_def registered_def)
qed

lemma calls_of_dispatch_of [simp]: "calls_of (dispatch_of tr) = calls_of tr"
  by (induction tr rule: dispatch_of.induct) simp_all

lemma calls_of_outcomes:
  "calls_of (concat (map (listener_outcome e ev d) ls)) = map (\<lambda>l. (callback l, receiver l, [d])) ls"
  by (induction ls) (simp_all add: listener_outcome_def calls_of_append split: option.split)

lemma emit_calls:
  assumes "\<forall>l \<in> set (registered w eventType). \<not> calls_off e eventType (or_null data) l"
  shows "calls_of (trace (emit e eventType data w)) =
           calls_of (trace w) @
           map (\<lambda>l. (callback l, receiver l, [or_null data])) (registered w eventType)"
proof -
  have "calls_of (dispatch_of (trace (emit e eventType data w))) =
          calls_of (dispatch_of (trace w) @
            concat (map (listener_outcome e eventType (or_null data)) (registered w eventType)))"
    by (simp only: emit_trace[OF assms])
  then show ?thesis by (simp add: calls_of_append calls_of_outcomes)
qed

lemma emit_times_called:
  assumes "\<forall>l \<in> set (registered w eventType). \<not> calls_off e eventType (or_null data) l"
  shows "times_called cb (trace (emit e eventType data w)) =
           times_called cb (trace w) + length (filter (\<lambda>l. callback l = cb) (registered w eventType))"
proof -
  have "length (filter (\<lambda>(f, this, args). f = cb) (map (\<lambda>l. (callback l, receiver l, [d])) ls)) =
          length (filter (\<lambda>l. callback l = cb) ls)" for ls d
    by (induction ls) simp_all
  then show ?thesis by (simp add: times_called_def emit_calls[OF assms])
qed

lemma registered_on:
  "registered (on ev cb c w) ev' =
     (if ev' = ev then registered w ev @ [\<lparr>callback = cb, ctx = or_null c\<rparr>] else registered w ev')"
  by (simp add: registered_def listeners_on)

lemma findIndex_None: "findIndex P xs = None \<longleftrightarrow> (\<forall>x \<in> set xs. \<not> P x)"
  by (induction xs) (auto split: option.split)

lemma splice1_findIndex: "findIndex P xs = Some i \<Longrightarrow> splice1 i xs = remove_first P xs"
proof (induction xs arbitrary: i)
  case Nil
  then show ?case by simp
next
  case (Cons x xs)
  show ?case
  proof (cases "P x")
    case True
    with Cons.prems show ?thesis by (simp add: splice1_def)
  next
    case False
    with Cons.prems obtain j where j: "findIndex P xs = Some j" "i = Suc j"
      by (auto split: option.splits)
    with Cons.IH[of j] False show ?thesis by (simp add: splice1_def)
  qed
qed

lemma remove_first_none: "\<forall>x \<in> set xs. \<not> P x \<Longrightarrow> remove_first P xs = xs"
  by (induction xs) simp_all

lemma registered_off:
  "registered (off ev cb w) ev' =
     (if ev' = ev then remove_first (\<lambda>l. callback l = cb) (registered w ev) else registered w ev')"
proof (cases "listeners w ev")
  case None
  then show ?thesis by (simp add: off_def registered_def)
next
  case (Some ls)
  show ?thesis
  proof (cases "findIndex (\<lambda>l. callback l = cb) ls")
    case None
    with Some show ?thesis
      by (simp add: off_def registered_def remove_first_none[OF iffD1[OF findIndex_None]])
  next
    case found: (Some i)
    with Some show ?thesis
      by (simp add: off_def registered_def splice1_findIndex)
  qed
qed

lemma off_not_registered:
  assumes "cb \<notin> callback ` set (registered w ev)"
  shows "off ev cb w = w"
proof (cases "listeners w ev")
  case None
  then show ?thesis by (simp add: off_def)
next
  case (Some ls)
  with assms have "findIndex (\<lambda>l. callback l = cb) ls = None"
    by (auto simp: findIndex_None registered_def)
  with Some show ?thesis by (simp add: off_def)
qed

lemma remove_first_append_new:
  "\<forall>x \<in> set xs. \<not> P x \<Longrightarrow> P y \<Longrightarrow> remove_first P (xs @ y # ys) = xs @ ys"
  by (induction xs) simp_all

lemmas on_fields [simp] = only_dispatch_fields[OF only_dispatch_on[OF only_dispatch_refl]]
lemmas off_fields [simp] = only_dispatch_fields[OF only_dispatch_off[OF only_dispatch_refl]]

lemma registered_initial_world [simp]: "registered initial_world ev = []"
  by (simp add: registered_def initial_world_def)

lemma level_initial_world [simp]: "currentLevel initial_world = Info"
  by (simp add: initial_world_def)

lemma trace_initial_world [simp]: "trace initial_world = []"
  by (simp add: initial_world_def)

lemma trace_on_quiet: "currentLevel w \<noteq> Debug \<Longrightarrow> trace (on ev cb c w) = trace w"
  by (cases "currentLevel w") (simp_all add: on_def logger_log_def Let_def split: option.split)

lemma listeners_registered: "listeners w ev = Some ls \<Longrightarrow> registered w ev = ls"
  by (simp add: registered_def)

lemma listeners_on_registered: "listeners (on ev cb c w) ev = Some (registered (on ev cb c w) ev)"
  by (simp add: listeners_on registered_def)

text \<open>
  C9, as amended. \<open>emit\<close> calls every listener that is registered for the event when
  \<open>emit\<close> is called, in registration order and with the event data (\<open>null\<close> when
  there is none), and logs what a listener throws as an error right after its call, after which the next listener is
  called all the same, provided that no listener calls \<open>off\<close> for that event type
  while it is dispatched. Nothing a listener throws leaves \<open>emit\<close>: the function has
  no result but the new world.
\<close>

theorem emit_calls_every_listener:
  assumes "\<forall>l \<in> set (registered w eventType). \<not> calls_off e eventType (or_null data) l"
  shows "dispatch_of (trace (emit e eventType data w)) =
           dispatch_of (trace w) @
           concat (map (listener_outcome e eventType (or_null data)) (registered w eventType))"
  using assms by (rule emit_trace)

lemma or_null_view [simp]: "or_null view = view"
  by (simp add: view_def)

lemma registered_throwing_world:
  "registered throwing_world ''tick'' =
     [\<lparr>callback = 1, ctx = JNull\<rparr>, \<lparr>callback = 2, ctx = view\<rparr>]"
  by (simp add: throwing_world_def registered_on)

lemma trace_throwing_world: "trace throwing_world = []"
  by (simp add: throwing_world_def trace_on_quiet)

lemma truthy_view [simp]: "truthy view"
  by (simp add: view_def)

theorem emit_calls_every_listener_witness:
  "dispatch_of (trace (emit throwing_env ''tick'' (JStr ''now'') throwing_world)) =
     [Call 1 (entry \<lparr>callback = 1, ctx = JNull\<rparr>) [JStr ''now''],
      Console Error (LogListenerFailed ''tick'' (js_error ''Error'' ''boom'')),
      Call 2 view [JStr ''now'']]
   \<and> dispatch_of (trace (emit throwing_env ''tick'' JUndefined throwing_world)) =
     [Call 1 (entry \<lparr>callback = 1, ctx = JNull\<rparr>) [JNull],
      Console Error (LogListenerFailed ''tick'' (js_error ''Error'' ''boom'')),
      Call 2 view [JNull]]"
  using emit_calls_every_listener[of throwing_world "''tick''" throwing_env "JStr ''now''"]
    emit_calls_every_listener[of throwing_world "''tick''" throwing_env JUndefined]
  by (simp add: registered_throwing_world trace_throwing_world calls_off_def throwing_env_def
      quiet_env_def listener_outcome_def receiver_def)

lemma registered_once_world:
  "registered once_world ''tick'' = [\<lparr>callback = 1, ctx = JNull\<rparr>, \<lparr>callback = 2, ctx = JNull\<rparr>]"
  by (simp add: once_world_def registered_on)

lemma listeners_once_world:
  "listeners once_world ''tick'' = Some [\<lparr>callback = 1, ctx = JNull\<rparr>, \<lparr>callback = 2, ctx = JNull\<rparr>]"
  unfolding once_world_def by (simp only: listeners_on_registered) (simp add: registered_on)

lemma level_once_world: "currentLevel once_world = Info"
  by (simp add: once_world_def)

lemma trace_once_world: "trace once_world = []"
  by (simp add: once_world_def trace_on_quiet)

lemma emit_once_world:
  "dispatch_of (trace (emit once_env ''tick'' JNull once_world)) =
     [Call 1 (entry \<lparr>callback = 1, ctx = JNull\<rparr>) [JNull]]"
  by (simp add: emit_def logger_log_def level_once_world listeners_once_world trace_once_world
      invoke_listener_def call_handler_def once_env_def quiet_env_def receiver_def off_def
      splice1_def Let_def)

text \<open>
  C9 as stated fails: callback 1 unregisters itself, the array shrinks under the
  iteration, and callback 2, registered all along, is never called.
\<close>

theorem emit_calls_every_listener_counterexample:
  "registered once_world ''tick'' = [\<lparr>callback = 1, ctx = JNull\<rparr>, \<lparr>callback = 2, ctx = JNull\<rparr>] \<and>
   dispatch_of (trace (emit once_env ''tick'' JNull once_world)) =
     [Call 1 (entry \<lparr>callback = 1, ctx = JNull\<rparr>) [JNull]] \<and>
   dispatch_of (trace (emit once_env ''tick'' JNull once_world)) \<noteq>
     dispatch_of (trace once_world) @
     concat (map (listener_outcome once_env ''tick'' JNull) (registered once_world ''tick''))"
  by (simp add: emit_once_world registered_once_world trace_once_world listener_outcome_def)

lemma trace_off_quiet: "currentLevel w \<noteq> Debug \<Longrightarrow> trace (off ev cb w) = trace w"
  by (cases "currentLevel w") (simp_all add: off_def logger_log_def split: option.split)

lemma times_called_Nil [simp]: "times_called cb [] = 0"
  by (simp add: times_called_def)

text \<open>
  C10, as amended. \<open>off(eventType, callback)\<close> removes the first registration of the
  callback from the array of the event type and nothing else; the arrays of other event
  types stay as they are. With a callback that is not registered for the event type,
  \<open>off\<close> changes nothing at all. When a callback that was not registered is registered
  twice and \<open>off\<close> is called once, the second registration is left, and an \<open>emit\<close>
  during which no listener calls \<open>off\<close> for the event type calls the callback once.
\<close>

theorem off_removes_first_registration:
  "registered (off eventType cb w) eventType =
     remove_first (\<lambda>l. callback l = cb) (registered w eventType)
   \<and> (\<forall>ev. ev \<noteq> eventType \<longrightarrow> registered (off eventType cb w) ev = registered w ev)
   \<and> (cb \<notin> callback ` set (registered w eventType) \<longrightarrow>
        off eventType cb w = w
        \<and> registered (off eventType cb (on eventType cb c2 (on eventType cb c1 w))) eventType =
            registered w eventType @ [\<lparr>callback = cb, ctx = or_null c2\<rparr>]
        \<and> ((\<forall>l \<in> set (registered w eventType @ [\<lparr>callback = cb, ctx = or_null c2\<rparr>]).
               \<not> calls_off e eventType (or_null data) l) \<longrightarrow>
            times_called cb
              (trace (emit e eventType data
                 (off eventType cb (on eventType cb c2 (on eventType cb c1 w))))) =
            times_called cb (trace (off eventType cb (on eventType cb c2 (on eventType cb c1 w)))) + 1))"
proof (intro conjI allI impI)
  show "registered (off eventType cb w) eventType =
          remove_first (\<lambda>l. callback l = cb) (registered w eventType)"
    by (simp add: registered_off)
next
  fix ev
  assume "ev \<noteq> eventType"
  then show "registered (off eventType cb w) ev = registered w ev"
    by (simp add: registered_off)
next
  assume "cb \<notin> callback ` set (registered w eventType)"
  then show "off eventType cb w = w"
    by (rule off_not_registered)
next
  let ?w' = "off eventType cb (on eventType cb c2 (on eventType cb c1 w))"
  assume new: "cb \<notin> callback ` set (registered w eventType)"
  then have none: "\<forall>l \<in> set (registered w eventType). \<not> callback l = cb"
    by auto
  show left: "registered ?w' eventType = registered w eventType @ [\<lparr>callback = cb, ctx = or_null c2\<rparr>]"
    by (simp add: registered_off registered_on remove_first_append_new[OF none])
  assume "\<forall>l \<in> set (registered w eventType @ [\<lparr>callback = cb, ctx = or_null c2\<rparr>]).
            \<not> calls_off e eventType (or_null data) l"
  then have "\<forall>l \<in> set (registered ?w' eventType). \<not> calls_off e eventType (or_null data) l"
    by (simp only: left)
  from emit_times_called[OF this, of cb]
  show "times_called cb (trace (emit e eventType data ?w')) = times_called cb (trace ?w') + 1"
    using none by (simp add: left)
qed

lemma registered_busy_world: "registered busy_world ''tick'' = [\<lparr>callback = 7, ctx = JNull\<rparr>]"
  by (simp add: busy_world_def registered_on)

lemma trace_busy_world: "trace busy_world = []"
  by (simp add: busy_world_def trace_on_quiet)

lemma level_busy_world: "currentLevel busy_world = Info"
  by (simp add: busy_world_def)

theorem off_removes_first_registration_witness:
  "5 \<notin> callback ` set (registered busy_world ''tick'')
   \<and> off ''tick'' 5 busy_world = busy_world
   \<and> registered (off ''tick'' 5 (on ''tick'' 5 (JStr ''second'') (on ''tick'' 5 JNull busy_world))) ''tick'' =
       [\<lparr>callback = 7, ctx = JNull\<rparr>, \<lparr>callback = 5, ctx = JStr ''second''\<rparr>]
   \<and> times_called 5
       (trace (emit quiet_env ''tick'' JNull
          (off ''tick'' 5 (on ''tick'' 5 (JStr ''second'') (on ''tick'' 5 JNull busy_world))))) = 1"
  using off_removes_first_registration[of "''tick''" 5 busy_world "JStr ''second''" JNull quiet_env JNull]
  by (simp add: registered_busy_world trace_busy_world level_busy_world trace_off_quiet
      trace_on_quiet calls_off_def quiet_env_def)

subsection \<open>StateManager\<close>

lemma setState_only: "only_dispatch (w\<lparr>state := state w ++ u\<rparr>) (setState e u w)"
  by (simp add: setState_def Let_def)

lemmas setState_fields [simp] = only_dispatch_fields(1,3-13)[OF setState_only, simplified]

text \<open>
  C4. \<open>setState(updates)\<close> replaces the state by the shallow merge of the old state and
  the update: a key of the update has the update's value, whatever the old value was
  (a nested object is replaced, not merged), and every other key has its old value.
\<close>

theorem setState_shallow_merge:
  "state (setState e updates w) = state w ++ updates
   \<and> (\<forall>k v. updates k = Some v \<longrightarrow> state (setState e updates w) k = Some v)
   \<and> (\<forall>k. updates k = None \<longrightarrow> state (setState e updates w) k = state w k)"
proof -
  have "only_dispatch (w\<lparr>state := state w ++ updates\<rparr>) (setState e updates w)"
    by (rule setState_only)
  then have "state (setState e updates w) = state w ++ updates"
    by (simp add: only_dispatch_fields(2))
  then show ?thesis
    by (simp add: map_add_def)
qed

theorem setState_shallow_merge_witness:
  "state (setState quiet_env [''ui'' \<mapsto> JObj [''theme'' \<mapsto> JStr ''light'']] nested_world) ''ui'' =
     Some (JObj [''theme'' \<mapsto> JStr ''light''])
   \<and> state (setState quiet_env [''ui'' \<mapsto> JObj [''theme'' \<mapsto> JStr ''light'']] nested_world) ''loading'' =
     Some (JBool False)
   \<and> state (setState quiet_env [''ui'' \<mapsto> JObj [''theme'' \<mapsto> JStr ''light'']] nested_world) ''lang'' =
     None"
  using setState_shallow_merge[of quiet_env "[''ui'' \<mapsto> JObj [''theme'' \<mapsto> JStr ''light'']]" nested_world]
  by (simp add: nested_world_def)

subsection \<open>LoadingManager\<close>

lemma show_overlay_fields [simp]:
  "activeLoads (snd (show_overlay m sp w)) = activeLoads w"
  "state (snd (show_overlay m sp w)) = state w"
  "trace (snd (show_overlay m sp w)) = trace w"
  "listeners (snd (show_overlay m sp w)) = listeners w"
  "subscribers (snd (show_overlay m sp w)) = subscribers w"
  "currentLevel (snd (show_overlay m sp w)) = currentLevel w"
  "container (snd (show_overlay m sp w)) = container w"
  "notifications (snd (show_overlay m sp w)) = notifications w"
  "modules (snd (show_overlay m sp w)) = modules w"
  "initialized (snd (show_overlay m sp w)) = initialized w"
  "fetches (snd (show_overlay m sp w)) = fetches w"
  "ids (snd (show_overlay m sp w)) = ids w"
  by (simp_all add: show_overlay_def Let_def split: option.split)

lemma show_overlay_usable:
  assumes "overlay_usable (overlay w)"
  shows "fst (show_overlay m sp w) = Inr ()"
    and "overlay (snd (show_overlay m sp w)) =
           map_option (\<lambda>el. el\<lparr>ov_display := ''flex'', ov_message := Some m\<rparr>) (overlay w)"
  using assms
  by (auto simp: show_overlay_def overlay_usable_def Let_def split: option.splits)

lemma show_overlay_unusable:
  assumes "\<not> overlay_usable (overlay w)"
  shows "fst (show_overlay m sp w) =
           Inl (js_error ''TypeError'' ''Cannot set properties of null (setting 'textContent')'')"
    and "overlay (snd (show_overlay m sp w)) =
           map_option (\<lambda>el. el\<lparr>ov_display := ''flex''\<rparr>) (overlay w)"
    and "progressBar (snd (show_overlay m sp w)) = progressBar w"
  using assms
  by (auto simp: show_overlay_def overlay_usable_def Let_def split: option.splits)

text \<open>\<open>startLoading\<close> by what becomes of the overlay.\<close>

lemma startLoading_eq:
  "startLoading e loadId m sp w =
     (case fst (show_overlay m sp (w\<lparr>activeLoads := insert loadId (activeLoads w)\<rparr>)) of
        Inl type_error \<Rightarrow>
          (Inl type_error, snd (show_overlay m sp (w\<lparr>activeLoads := insert loadId (activeLoads w)\<rparr>)))
      | Inr u \<Rightarrow>
          (Inr (),
           emit e ''loadingStarted'' (JObj [''loadId'' \<mapsto> JStr loadId, ''message'' \<mapsto> JStr m])
             (logger_debug (LogLoadingStarted loadId)
                (setState e [''loading'' \<mapsto> JBool True]
                   (snd (show_overlay m sp (w\<lparr>activeLoads := insert loadId (activeLoads w)\<rparr>)))))))"
  by (simp add: startLoading_def Let_def split: prod.split sum.split)

lemma startLoading_returns:
  "overlay_usable (overlay w) \<Longrightarrow> fst (startLoading e loadId m sp w) = Inr ()"
  by (simp add: startLoading_eq show_overlay_usable)

lemma startLoading_throws:
  "\<not> overlay_usable (overlay w) \<Longrightarrow>
     fst (startLoading e loadId m sp w) =
       Inl (js_error ''TypeError'' ''Cannot set properties of null (setting 'textContent')'')"
  by (simp add: startLoading_eq show_overlay_unusable)

lemma startLoading_activeLoads [simp]:
  "activeLoads (snd (startLoading e loadId m sp w)) = insert loadId (activeLoads w)"
  by (simp add: startLoading_eq split: sum.split)

lemma startLoading_overlay:
  "overlay_usable (overlay w) \<Longrightarrow>
     overlay (snd (startLoading e loadId m sp w)) =
       map_option (\<lambda>el. el\<lparr>ov_display := ''flex'', ov_message := Some m\<rparr>) (overlay w)"
  by (simp add: startLoading_eq show_overlay_usable)

lemma startLoading_state:
  "overlay_usable (overlay w) \<Longrightarrow>
     state (snd (startLoading e loadId m sp w)) = state w ++ [''loading'' \<mapsto> JBool True]"
  by (simp add: startLoading_eq show_overlay_usable)

lemma stopLoading_activeLoads [simp]:
  "activeLoads (stopLoading e loadId w) = activeLoads w - {loadId}"
  by (simp add: stopLoading_def Let_def split: option.split)

lemma stopLoading_overlay [simp]:
  "overlay (stopLoading e loadId w) =
     (if activeLoads w - {loadId} = {} then map_option (\<lambda>el. el\<lparr>ov_display := ''none''\<rparr>) (overlay w)
      else overlay w)"
  by (simp add: stopLoading_def Let_def split: option.split)

lemma stopLoading_state [simp]:
  "state (stopLoading e loadId w) =
     (if activeLoads w - {loadId} = {} then state w ++ [''loading'' \<mapsto> JBool False] else state w)"
  by (simp add: stopLoading_def Let_def split: option.split)

lemma updateProgress_activeLoads [simp]:
  "activeLoads (updateProgress e loadId p s w) = activeLoads w"
  by (simp add: updateProgress_def Let_def split: option.split)

lemma updateProgress_overlay [simp]: "overlay (updateProgress e loadId p s w) = overlay w"
  by (simp add: updateProgress_def Let_def split: option.split)

lemma updateProgress_state [simp]: "state (updateProgress e loadId p s w) = state w"
  by (simp add: updateProgress_def Let_def split: option.split)

lemma stopAllLoading_activeLoads [simp]: "activeLoads (stopAllLoading e w) = {}"
  by (simp add: stopAllLoading_def Let_def split: option.split)

lemma stopAllLoading_overlay [simp]:
  "overlay (stopAllLoading e w) = map_option (\<lambda>el. el\<lparr>ov_display := ''none''\<rparr>) (overlay w)"
  by (simp add: stopAllLoading_def Let_def split: option.split)

lemma stopAllLoading_state [simp]:
  "state (stopAllLoading e w) = state w ++ [''loading'' \<mapsto> JBool False]"
  by (simp add: stopAllLoading_def Let_def split: option.split)

text \<open>An overlay that can take a message stays one.\<close>

lemma overlay_usable_map [simp]:
  "overlay_usable (map_option (\<lambda>el. el\<lparr>ov_display := d\<rparr>) ov) = overlay_usable ov"
  "overlay_usable (map_option (\<lambda>el. el\<lparr>ov_display := d, ov_message := Some m\<rparr>) ov)"
  by (cases ov; simp add: overlay_usable_def)+

lemma overlay_usable_startLoading:
  "overlay_usable (overlay w) \<Longrightarrow> overlay_usable (overlay (snd (startLoading e loadId m sp w)))"
  by (simp add: startLoading_overlay)

lemma overlay_usable_run_load_op:
  "overlay_usable (overlay w) \<Longrightarrow> overlay_usable (overlay (run_load_op e op w))"
  by (cases op) (simp_all add: overlay_usable_startLoading)

lemma loading_inv_startLoading:
  "overlay_usable (overlay w) \<Longrightarrow> loading_inv (snd (startLoading e loadId m sp w))"
  by (simp add: loading_inv_def loading_flag_def startLoading_overlay startLoading_state
      split: option.split)

lemma loading_inv_stopAllLoading: "loading_inv (stopAllLoading e w)"
  by (simp add: loading_inv_def loading_flag_def split: option.split)

lemma loading_inv_stopLoading: "loading_inv w \<Longrightarrow> loading_inv (stopLoading e loadId w)"
  by (auto simp: loading_inv_def loading_flag_def split: option.splits)

lemma loading_inv_last: "activeLoads w - {loadId} = {} \<Longrightarrow> loading_inv (stopLoading e loadId w)"
  by (auto simp: loading_inv_def loading_flag_def split: option.splits)

lemma loading_inv_updateProgress: "loading_inv w \<Longrightarrow> loading_inv (updateProgress e loadId p s w)"
  by (auto simp: loading_inv_def loading_flag_def split: option.splits)

lemma loading_inv_run_load_op:
  "overlay_usable (overlay w) \<Longrightarrow> loading_inv w \<Longrightarrow> loading_inv (run_load_op e op w)"
  by (cases op)
    (simp_all add: loading_inv_startLoading loading_inv_stopAllLoading loading_inv_stopLoading
      loading_inv_updateProgress)

lemma activeLoads_run_load_op:
  "activeLoads (run_load_op e op w) = pending_after op (activeLoads w)"
  by (cases op) simp_all

lemma run_load_ops_Nil [simp]: "run_load_ops e [] w = w"
  by (simp add: run_load_ops_def)

lemma run_load_ops_Cons [simp]:
  "run_load_ops e (op # ops) w = run_load_ops e ops (run_load_op e op w)"
  by (simp add: run_load_ops_def)

lemma pending_Nil [simp]: "pending [] before = before"
  by (simp add: pending_def)

lemma pending_Cons [simp]: "pending (op # ops) before = pending ops (pending_after op before)"
  by (simp add: pending_def)

lemma run_load_ops_inv:
  assumes "overlay_usable (overlay w)" and "loading_inv w"
  shows "loading_inv (run_load_ops e ops w)"
    and "overlay_usable (overlay (run_load_ops e ops w))"
    and "activeLoads (run_load_ops e ops w) = pending ops (activeLoads w)"
  using assms
proof (induction ops arbitrary: w)
  case Nil
  {
    case 1 then show ?case by simp
  next
    case 2 then show ?case by simp
  next
    case 3 then show ?case by simp
  }
next
  case (Cons op ops)
  {
    case 1
    with Cons.IH(1)[of "run_load_op e op w"] show ?case
      by (simp add: overlay_usable_run_load_op loading_inv_run_load_op)
  next
    case 2
    with Cons.IH(2)[of "run_load_op e op w"] show ?case
      by (simp add: overlay_usable_run_load_op loading_inv_run_load_op)
  next
    case 3
    with Cons.IH(3)[of "run_load_op e op w"] show ?case
      by (simp add: overlay_usable_run_load_op loading_inv_run_load_op activeLoads_run_load_op)
  }
qed

lemma loading_inv_hidden:
  "loading_inv w \<Longrightarrow>
     (overlay_hidden w \<and> loading_flag w = Some (JBool False)) \<longleftrightarrow> activeLoads w = {}"
  by (auto simp: loading_inv_def overlay_hidden_def split: option.splits)

lemma loading_inv_shown:
  "loading_inv w \<Longrightarrow> overlay w \<noteq> None \<Longrightarrow> overlay_hidden w \<longleftrightarrow> activeLoads w = {}"
  by (auto simp: loading_inv_def overlay_hidden_def split: option.splits)

lemma run_load_op_holds_overlay: "overlay (run_load_op e op w) = None \<longleftrightarrow> overlay w = None"
proof (cases op)
  case (StartLoading loadId m sp)
  show ?thesis
  proof (cases "overlay_usable (overlay w)")
    case True
    then show ?thesis by (simp add: StartLoading startLoading_overlay)
  next
    case False
    then show ?thesis
      by (simp add: StartLoading startLoading_eq show_overlay_unusable)
  qed
qed simp_all

lemma run_load_ops_holds_overlay: "overlay (run_load_ops e ops w) = None \<longleftrightarrow> overlay w = None"
  by (induction ops arbitrary: w) (simp_all add: run_load_op_holds_overlay)


text \<open>
  C8, as amended. On a loading manager whose overlay can take a message:
  \<open>startLoading(id)\<close> returns, adds \<open>id\<close> to the set of active identifiers, which
  holds an identifier once however often it is started, and leaves the overlay displayed
  and the loading flag \<open>true\<close>; \<open>updateProgress\<close> changes none of the three;
  \<open>stopLoading(id)\<close> removes \<open>id\<close> from the set, leaves overlay and flag as they are
  while another identifier is active, and hides the overlay and clears the flag when none
  is; \<open>stopAllLoading\<close> empties the set, hides the overlay and clears the flag. So the
  invariant (the flag is \<open>true\<close> and a held overlay is displayed exactly while an
  identifier is active) holds after \<open>startLoading\<close>, after \<open>stopAllLoading\<close> and after
  a \<open>stopLoading\<close> that leaves no identifier active, whatever the state before, and
  every call keeps it. Under it the overlay is hidden and the flag is \<open>false\<close> exactly
  when no identifier is active, and after a run of calls that is exactly when every
  identifier started has been stopped since: with nested loads of different identifiers
  the overlay stays displayed until each of them is stopped.
\<close>

theorem loading_invariant:
  assumes "overlay_usable (overlay w)"
  shows "fst (startLoading e loadId message showProgress w) = Inr ()
   \<and> activeLoads (snd (startLoading e loadId message showProgress w)) = insert loadId (activeLoads w)
   \<and> loading_inv (snd (startLoading e loadId message showProgress w))
   \<and> activeLoads (stopAllLoading e w) = {}
   \<and> loading_inv (stopAllLoading e w)
   \<and> activeLoads (updateProgress e loadId progress status w) = activeLoads w
   \<and> overlay (updateProgress e loadId progress status w) = overlay w
   \<and> loading_flag (updateProgress e loadId progress status w) = loading_flag w
   \<and> activeLoads (stopLoading e loadId w) = activeLoads w - {loadId}
   \<and> (activeLoads w - {loadId} \<noteq> {} \<longrightarrow>
        overlay (stopLoading e loadId w) = overlay w
        \<and> loading_flag (stopLoading e loadId w) = loading_flag w)
   \<and> (activeLoads w - {loadId} = {} \<longrightarrow>
        overlay_hidden (stopLoading e loadId w)
        \<and> loading_flag (stopLoading e loadId w) = Some (JBool False)
        \<and> loading_inv (stopLoading e loadId w))
   \<and> (loading_inv w \<longrightarrow>
        ((overlay_hidden w \<and> loading_flag w = Some (JBool False)) \<longleftrightarrow> activeLoads w = {})
        \<and> loading_inv (stopLoading e loadId w)
        \<and> loading_inv (run_load_ops e ops w)
        \<and> activeLoads (run_load_ops e ops w) = pending ops (activeLoads w)
        \<and> ((overlay_hidden (run_load_ops e ops w)
              \<and> loading_flag (run_load_ops e ops w) = Some (JBool False))
             \<longleftrightarrow> pending ops (activeLoads w) = {})
        \<and> (overlay w \<noteq> None \<longrightarrow>
             (overlay_hidden (run_load_ops e ops w) \<longleftrightarrow> pending ops (activeLoads w) = {})))"
proof (intro conjI impI)
  show "fst (startLoading e loadId message showProgress w) = Inr ()"
    using assms by (rule startLoading_returns)
  show "activeLoads (snd (startLoading e loadId message showProgress w)) = insert loadId (activeLoads w)"
    by simp
  show "loading_inv (snd (startLoading e loadId message showProgress w))"
    using assms by (rule loading_inv_startLoading)
  show "activeLoads (stopAllLoading e w) = {}"
    by simp
  show "loading_inv (stopAllLoading e w)"
    by (rule loading_inv_stopAllLoading)
  show "activeLoads (updateProgress e loadId progress status w) = activeLoads w"
    by simp
  show "overlay (updateProgress e loadId progress status w) = overlay w"
    by simp
  show "loading_flag (updateProgress e loadId progress status w) = loading_flag w"
    by (simp add: loading_flag_def)
  show "activeLoads (stopLoading e loadId w) = activeLoads w - {loadId}"
    by simp
next
  assume other: "activeLoads w - {loadId} \<noteq> {}"
  then show "overlay (stopLoading e loadId w) = overlay w" by simp
  from other show "loading_flag (stopLoading e loadId w) = loading_flag w"
    by (simp add: loading_flag_def)
next
  assume last: "activeLoads w - {loadId} = {}"
  then show "overlay_hidden (stopLoading e loadId w)"
    by (simp add: overlay_hidden_def split: option.split)
  from last show "loading_flag (stopLoading e loadId w) = Some (JBool False)"
    by (simp add: loading_flag_def)
  from last show "loading_inv (stopLoading e loadId w)"
    by (rule loading_inv_last)
next
  assume inv: "loading_inv w"
  note run = run_load_ops_inv[OF assms inv, of e ops]
  show "(overlay_hidden w \<and> loading_flag w = Some (JBool False)) \<longleftrightarrow> activeLoads w = {}"
    using inv by (rule loading_inv_hidden)
  show "loading_inv (stopLoading e loadId w)"
    using inv by (rule loading_inv_stopLoading)
  show "loading_inv (run_load_ops e ops w)"
    by (rule run(1))
  show "activeLoads (run_load_ops e ops w) = pending ops (activeLoads w)"
    by (rule run(3))
  show "(overlay_hidden (run_load_ops e ops w)
          \<and> loading_flag (run_load_ops e ops w) = Some (JBool False))
         \<longleftrightarrow> pending ops (activeLoads w) = {}"
    using loading_inv_hidden[OF run(1)] by (simp only: run(3))
  assume "overlay w \<noteq> None"
  then have "overlay (run_load_ops e ops w) \<noteq> None"
    by (simp add: run_load_ops_holds_overlay)
  from loading_inv_shown[OF run(1) this]
  show "overlay_hidden (run_load_ops e ops w) \<longleftrightarrow> pending ops (activeLoads w) = {}"
    by (simp only: run(3))
qed

lemma overlay_ready_world:
  "overlay ready_world = Some \<lparr>ov_display = [], ov_message = Some ''Chargement en cours...''\<rparr>"
  by (simp add: ready_world_def lm_initialize_def createLoadingElements_def find_overlay_def
      quiet_env_def initial_world_def Let_def)

lemma activeLoads_ready_world: "activeLoads ready_world = {}"
  by (simp add: ready_world_def lm_initialize_def createLoadingElements_def find_overlay_def
      quiet_env_def initial_world_def Let_def)

lemma usable_ready_world: "overlay_usable (overlay ready_world)"
  by (simp add: overlay_ready_world overlay_usable_def)

theorem loading_invariant_witness:
  "overlay_usable (overlay ready_world)
   \<and> loading_inv (snd (startLoading quiet_env ''a'' ''first'' False ready_world))
   \<and> \<not> overlay_hidden
         (run_load_ops quiet_env [StartLoading ''b'' ''second'' False, StopLoading ''a'']
            (snd (startLoading quiet_env ''a'' ''first'' False ready_world)))
   \<and> overlay_hidden
         (run_load_ops quiet_env
            [StartLoading ''b'' ''second'' False, StopLoading ''a'', StopLoading ''b'']
            (snd (startLoading quiet_env ''a'' ''first'' False ready_world)))
   \<and> activeLoads two_loads = {''a'', ''b''}
   \<and> loading_inv two_loads
   \<and> overlay (stopLoading quiet_env ''a'' two_loads) =
       Some \<lparr>ov_display = ''flex'', ov_message = Some ''second''\<rparr>
   \<and> loading_flag (stopLoading quiet_env ''a'' two_loads) = Some (JBool True)
   \<and> \<not> overlay_hidden (stopLoading quiet_env ''a'' two_loads)
   \<and> activeLoads (stopLoading quiet_env ''a'' two_loads) = {''b''}
   \<and> overlay_hidden (stopLoading quiet_env ''b'' (stopLoading quiet_env ''a'' two_loads))
   \<and> loading_flag (stopLoading quiet_env ''b'' (stopLoading quiet_env ''a'' two_loads)) =
       Some (JBool False)"
proof -
  let ?wa = "snd (startLoading quiet_env ''a'' ''first'' False ready_world)"
  note first = loading_invariant[OF usable_ready_world, of quiet_env "''a''" "''first''" False 0 "[]" "[]"]
  have ua: "overlay_usable (overlay ?wa)"
    using usable_ready_world by (rule overlay_usable_startLoading)
  note nested = loading_invariant[OF ua, of quiet_env "''b''" "''second''" False 0 "[]"
      "[StartLoading ''b'' ''second'' False, StopLoading ''a'', StopLoading ''b'']"]
  have two: "two_loads = snd (startLoading quiet_env ''b'' ''second'' False ?wa)"
    by (simp add: two_loads_def)
  have ut: "overlay_usable (overlay two_loads)"
    unfolding two using ua by (rule overlay_usable_startLoading)
  note stop = loading_invariant[OF ut, of quiet_env "''a''" "''first''" False 0 "[]" "[]"]
  have a: "activeLoads two_loads = {''a'', ''b''}"
    using nested[THEN conjunct2, THEN conjunct1] first[THEN conjunct2, THEN conjunct1]
    by (auto simp: two activeLoads_ready_world)
  have i: "loading_inv two_loads"
    using nested[THEN conjunct2, THEN conjunct2, THEN conjunct1] by (simp add: two)
  have ov: "overlay two_loads = Some \<lparr>ov_display = ''flex'', ov_message = Some ''second''\<rparr>"
    by (simp add: two startLoading_overlay[OF ua] startLoading_overlay[OF usable_ready_world]
        overlay_ready_world)
  have fl: "loading_flag two_loads = Some (JBool True)"
    by (simp add: two loading_flag_def startLoading_state ua)
  have rest: "activeLoads two_loads - {''a''} \<noteq> {}"
    by (simp add: a)
  from stop rest have kept: "overlay (stopLoading quiet_env ''a'' two_loads) = overlay two_loads"
    "loading_flag (stopLoading quiet_env ''a'' two_loads) = loading_flag two_loads"
    by blast+
  have ub: "overlay_usable (overlay (stopLoading quiet_env ''a'' two_loads))"
    by (simp only: kept(1) ut)
  note last = loading_invariant[OF ub, of quiet_env "''b''" "''second''" False 0 "[]" "[]"]
  have none: "activeLoads (stopLoading quiet_env ''a'' two_loads) - {''b''} = {}"
    by (auto simp: a)
  from last none have hidden:
    "overlay_hidden (stopLoading quiet_env ''b'' (stopLoading quiet_env ''a'' two_loads))"
    "loading_flag (stopLoading quiet_env ''b'' (stopLoading quiet_env ''a'' two_loads)) =
       Some (JBool False)"
    by blast+
  have ia: "loading_inv ?wa"
    using first[THEN conjunct2, THEN conjunct2, THEN conjunct1] .
  have oa: "overlay ?wa \<noteq> None"
    by (simp add: startLoading_overlay[OF usable_ready_world] overlay_ready_world)
  note partly = loading_invariant[OF ua, of quiet_env "''b''" "''second''" False 0 "[]"
      "[StartLoading ''b'' ''second'' False, StopLoading ''a'']"]
  from partly ia oa
  have "overlay_hidden (run_load_ops quiet_env [StartLoading ''b'' ''second'' False, StopLoading ''a''] ?wa)
          \<longleftrightarrow> pending [StartLoading ''b'' ''second'' False, StopLoading ''a''] (activeLoads ?wa) = {}"
    by blast
  then have shown: "\<not> overlay_hidden
      (run_load_ops quiet_env [StartLoading ''b'' ''second'' False, StopLoading ''a''] ?wa)"
    by (simp add: activeLoads_ready_world del: run_load_ops_Cons)
  from nested ia oa
  have "overlay_hidden (run_load_ops quiet_env
            [StartLoading ''b'' ''second'' False, StopLoading ''a'', StopLoading ''b''] ?wa)
          \<longleftrightarrow> pending [StartLoading ''b'' ''second'' False, StopLoading ''a'', StopLoading ''b'']
                (activeLoads ?wa) = {}"
    by blast
  then have gone: "overlay_hidden (run_load_ops quiet_env
            [StartLoading ''b'' ''second'' False, StopLoading ''a'', StopLoading ''b''] ?wa)"
    by (auto simp: activeLoads_ready_world simp del: run_load_ops_Cons)
  have "activeLoads (stopLoading quiet_env ''a'' two_loads) = {''b''}"
    by (auto simp: a)
  moreover have "\<not> overlay_hidden (stopLoading quiet_env ''a'' two_loads)"
    by (simp add: overlay_hidden_def kept(1) ov del: stopLoading_overlay)
  moreover note ia shown gone
  ultimately show ?thesis
    using usable_ready_world a i kept hidden
    by (simp add: ov fl del: stopLoading_overlay stopLoading_state run_load_ops_Cons)
qed

text \<open>
  On an overlay without a \<open>.loading-message\<close> descendant \<open>startLoading\<close> throws:
  the identifier is in the set and the overlay is displayed, but the state is as it was,
  and nothing is logged or emitted.
\<close>

lemma startLoading_without_message:
  assumes "\<not> overlay_usable (overlay w)"
  shows "fst (startLoading e loadId message showProgress w) =
           Inl (js_error ''TypeError'' ''Cannot set properties of null (setting 'textContent')'')"
    and "activeLoads (snd (startLoading e loadId message showProgress w)) = insert loadId (activeLoads w)"
    and "overlay (snd (startLoading e loadId message showProgress w)) =
           map_option (\<lambda>el. el\<lparr>ov_display := ''flex''\<rparr>) (overlay w)"
    and "state (snd (startLoading e loadId message showProgress w)) = state w"
    and "trace (snd (startLoading e loadId message showProgress w)) = trace w"
  using assms by (simp_all add: startLoading_eq show_overlay_unusable)

subsection \<open>ApiManager\<close>

lemma get_prop_js_error [simp]: "get_prop (js_error nm msg) ''message'' = Inr (JStr msg)"
  by (simp add: js_error_def)

lemma attempt_result_error:
  assumes "attempt_result out = Inl err"
  obtains nm msg where "err = js_error nm msg"
  using assms by (cases out) (auto split: if_splits json_result.splits)

lemma net_of_append [simp]: "net_of (xs @ ys) = net_of xs @ net_of ys"
  by (simp add: net_of_def)

lemma warnings_of_append [simp]: "warnings_of (xs @ ys) = warnings_of xs @ warnings_of ys"
  by (simp add: warnings_of_def)

lemma net_of_logger [simp]: "net_of (trace (logger_log lv m w)) = net_of (trace w)"
  by (simp add: logger_log_def net_of_def)

lemma net_of_emit [simp]: "net_of (trace (emit e ev d w)) = net_of (trace w)"
  by (rule only_dispatch_net) simp

lemma warnings_of_emit [simp]: "warnings_of (trace (emit e ev d w)) = warnings_of (trace w)"
  by (rule only_dispatch_warnings) simp

lemma warnings_of_logger:
  "warnings_of (trace (logger_log lv m w)) =
     warnings_of (trace w) @
     (if lv = Warn \<and> level_num (currentLevel w) \<le> 2 then [Console Warn m] else [])"
  by (cases lv) (simp_all add: logger_log_def warnings_of_def)

text \<open>One turn of the loop of \<open>request\<close>, by what the attempt comes to.\<close>

lemma request_loop_ok:
  assumes "attempt_result (net e (fetches w) url init) = Inr data"
  shows "fst (request_loop e url endpoint init rid attempt (Suc n) w) = Inr data"
    and "net_of (trace (snd (request_loop e url endpoint init rid attempt (Suc n) w))) =
           net_of (trace w) @ [Fetch url init]"
  using assms by (simp_all add: do_fetch_def net_of_def[of "[Fetch url init]"])

lemma request_loop_last:
  assumes "attempt_result (net e (fetches w) url init) = Inl err" and "attempt = retryAttempts"
  shows "fst (request_loop e url endpoint init rid attempt (Suc n) w) = Inl err"
    and "net_of (trace (snd (request_loop e url endpoint init rid attempt (Suc n) w))) =
           net_of (trace w) @ [Fetch url init]"
proof -
  from assms(1) obtain nm msg where "err = js_error nm msg"
    by (rule attempt_result_error)
  with assms show
    "fst (request_loop e url endpoint init rid attempt (Suc n) w) = Inl err"
    "net_of (trace (snd (request_loop e url endpoint init rid attempt (Suc n) w))) =
       net_of (trace w) @ [Fetch url init]"
    by (simp_all add: do_fetch_def Let_def net_of_def[of "[Fetch url init]"])
qed

lemma request_loop_retry:
  assumes "attempt_result (net e (fetches w) url init) = Inl err" and "attempt \<noteq> retryAttempts"
  shows "request_loop e url endpoint init rid attempt (Suc n) w =
           request_loop e url endpoint init rid (Suc attempt) n (after_failure url init attempt err w)"
proof -
  from assms(1) obtain nm msg where "err = js_error nm msg"
    by (rule attempt_result_error)
  with assms show ?thesis
    by (simp add: do_fetch_def Let_def after_failure_def)
qed

declare request_loop.simps [simp del]

lemma after_failure_fetches [simp]: "fetches (after_failure url init attempt err w) = Suc (fetches w)"
  by (simp add: after_failure_def Let_def)

lemma after_failure_net [simp]:
  "net_of (trace (after_failure url init attempt err w)) =
     net_of (trace w) @ [Fetch url init, Delay (2 ^ (attempt - 1) * 1000)]"
  by (simp add: after_failure_def Let_def net_of_def[of "[_]"])


lemma after_failure_fetches2 [simp]:
  "fetches (after_failure url init a2 err2 (after_failure url init a1 err1 w)) = Suc (Suc (fetches w))"
  by simp

text \<open>
  C2. \<open>request\<close> makes at most three attempts (\<open>retryAttempts\<close>). An attempt that
  succeeds ends the function with its data. After a failed first attempt it waits
  \<open>2^(1-1) * 1000\<close> ms and after a failed second attempt \<open>2^(2-1) * 1000\<close> ms before the
  next one. After a failed third attempt it makes no further call and throws that
  attempt's error.
\<close>

theorem request_retries_with_backoff:
  fixes e :: env and endpoint :: string and options :: req_options and w :: world
  defines "url \<equiv> baseUrl @ endpoint"
    and "init \<equiv> finalOptions options"
    and "attempt \<equiv> \<lambda>i. attempt_result (net e (fetches w + i) (baseUrl @ endpoint) (finalOptions options))"
    and "w' \<equiv> snd (request e endpoint options w)"
  shows
    "(\<forall>data. attempt 0 = Inr data \<longrightarrow>
        fst (request e endpoint options w) = Inr data
        \<and> net_of (trace w') = net_of (trace w) @ [Fetch url init])
     \<and> (\<forall>err1 data. attempt 0 = Inl err1 \<and> attempt 1 = Inr data \<longrightarrow>
        fst (request e endpoint options w) = Inr data
        \<and> net_of (trace w') =
            net_of (trace w) @ [Fetch url init, Delay (2 ^ (1 - 1) * 1000), Fetch url init])
     \<and> (\<forall>err1 err2 data. attempt 0 = Inl err1 \<and> attempt 1 = Inl err2 \<and> attempt 2 = Inr data \<longrightarrow>
        fst (request e endpoint options w) = Inr data
        \<and> net_of (trace w') =
            net_of (trace w) @ [Fetch url init, Delay (2 ^ (1 - 1) * 1000),
                                Fetch url init, Delay (2 ^ (2 - 1) * 1000), Fetch url init])
     \<and> (\<forall>err1 err2 err3. attempt 0 = Inl err1 \<and> attempt 1 = Inl err2 \<and> attempt 2 = Inl err3 \<longrightarrow>
        fst (request e endpoint options w) = Inl err3
        \<and> net_of (trace w') =
            net_of (trace w) @ [Fetch url init, Delay (2 ^ (1 - 1) * 1000),
                                Fetch url init, Delay (2 ^ (2 - 1) * 1000), Fetch url init])"
proof -
  define rid where "rid = ''api_'' @ random_id e (ids w)"
  define w1 where "w1 = logger_debug (LogApiRequest (http_method init) url) (w\<lparr>ids := Suc (ids w)\<rparr>)"
  have req: "request e endpoint options w = request_loop e url endpoint init rid (Suc 0) (Suc (Suc (Suc 0))) w1"
    by (simp add: request_def Let_def url_def init_def rid_def w1_def retryAttempts_def numeral_3_eq_3)
  have f1: "fetches w1 = fetches w" and n1: "net_of (trace w1) = net_of (trace w)"
    by (simp_all add: w1_def)
  have a0: "attempt 0 = attempt_result (net e (fetches w1) url init)"
    by (simp add: attempt_def f1 url_def init_def)
  have a1: "attempt 1 = attempt_result (net e (Suc (fetches w1)) url init)"
    by (simp add: attempt_def f1 url_def init_def)
  have a2: "attempt 2 = attempt_result (net e (Suc (Suc (fetches w1))) url init)"
    by (simp add: attempt_def f1 url_def init_def)
  have ne1: "Suc 0 \<noteq> retryAttempts" and ne2: "Suc (Suc 0) \<noteq> retryAttempts"
    and eq3: "Suc (Suc (Suc 0)) = retryAttempts"
    by (simp_all add: retryAttempts_def)
  show ?thesis
  proof (intro conjI allI impI; (elim conjE)?)
    fix data
    assume "attempt 0 = Inr data"
    then have ok: "attempt_result (net e (fetches w1) url init) = Inr data"
      by (simp add: a0)
    from request_loop_ok[OF ok]
    show "fst (request e endpoint options w) = Inr data"
      and "net_of (trace w') = net_of (trace w) @ [Fetch url init]"
      by (simp_all add: req w'_def n1)
  next
    fix err1 data
    assume "attempt 0 = Inl err1" and "attempt 1 = Inr data"
    then have ko: "attempt_result (net e (fetches w1) url init) = Inl err1"
      and ok: "attempt_result (net e (fetches (after_failure url init (Suc 0) err1 w1)) url init) = Inr data"
      unfolding a0 a1 a2 by simp_all
    from request_loop_ok[OF ok]
    show "fst (request e endpoint options w) = Inr data"
      and "net_of (trace w') =
             net_of (trace w) @ [Fetch url init, Delay (2 ^ (1 - 1) * 1000), Fetch url init]"
      by (simp_all add: req w'_def n1 request_loop_retry[OF ko ne1])
  next
    fix err1 err2 data
    assume "attempt 0 = Inl err1" and "attempt 1 = Inl err2" and "attempt 2 = Inr data"
    then have ko1: "attempt_result (net e (fetches w1) url init) = Inl err1"
      and ko2: "attempt_result (net e (fetches (after_failure url init (Suc 0) err1 w1)) url init) = Inl err2"
      and ok: "attempt_result (net e (fetches (after_failure url init (Suc (Suc 0)) err2
                 (after_failure url init (Suc 0) err1 w1))) url init) = Inr data"
      unfolding a0 a1 a2 by simp_all
    from request_loop_ok[OF ok]
    show "fst (request e endpoint options w) = Inr data"
      and "net_of (trace w') =
             net_of (trace w) @ [Fetch url init, Delay (2 ^ (1 - 1) * 1000),
                                 Fetch url init, Delay (2 ^ (2 - 1) * 1000), Fetch url init]"
      by (simp_all add: req w'_def n1 request_loop_retry[OF ko1 ne1] request_loop_retry[OF ko2 ne2])
  next
    fix err1 err2 err3
    assume "attempt 0 = Inl err1" and "attempt 1 = Inl err2" and "attempt 2 = Inl err3"
    then have ko1: "attempt_result (net e (fetches w1) url init) = Inl err1"
      and ko2: "attempt_result (net e (fetches (after_failure url init (Suc 0) err1 w1)) url init) = Inl err2"
      and ko3: "attempt_result (net e (fetches (after_failure url init (Suc (Suc 0)) err2
                 (after_failure url init (Suc 0) err1 w1))) url init) = Inl err3"
      unfolding a0 a1 a2 by simp_all
    from request_loop_last[OF ko3 eq3]
    show "fst (request e endpoint options w) = Inl err3"
      and "net_of (trace w') =
             net_of (trace w) @ [Fetch url init, Delay (2 ^ (1 - 1) * 1000),
                                 Fetch url init, Delay (2 ^ (2 - 1) * 1000), Fetch url init]"
      by (simp_all add: req w'_def n1 request_loop_retry[OF ko1 ne1] request_loop_retry[OF ko2 ne2])
  qed
qed

lemma show_nat_503: "show_nat 503 = ''503''"
  by code_simp

lemma fetches_initial_world [simp]: "fetches initial_world = 0"
  by (simp add: initial_world_def)

lemma net_down_env [simp]: "net down_env n url init = Responded 503 ''Service Unavailable'' (Json JNull)"
  by (simp add: down_env_def)

lemma net_flaky_env [simp]:
  "net flaky_env n url init =
     (if n < 2 then Rejected ''TypeError'' ''Failed to fetch''
      else Responded 200 ''OK'' (Json (JObj [''success'' \<mapsto> JBool True])))"
  by (simp add: flaky_env_def)

theorem request_retries_with_backoff_witness:
  "fst (request down_env ''/generate/'' \<lparr>opt_method = Some ''POST'', opt_body = None\<rparr> initial_world) =
     Inl (js_error ''Error'' ''HTTP 503: Service Unavailable'')
   \<and> net_of (trace (snd (request down_env ''/generate/''
         \<lparr>opt_method = Some ''POST'', opt_body = None\<rparr> initial_world))) =
       [Fetch ''/generate/'' (finalOptions \<lparr>opt_method = Some ''POST'', opt_body = None\<rparr>),
        Delay 1000,
        Fetch ''/generate/'' (finalOptions \<lparr>opt_method = Some ''POST'', opt_body = None\<rparr>),
        Delay 2000,
        Fetch ''/generate/'' (finalOptions \<lparr>opt_method = Some ''POST'', opt_body = None\<rparr>)]
   \<and> fst (request flaky_env ''/generate/'' \<lparr>opt_method = Some ''POST'', opt_body = None\<rparr> initial_world) =
     Inr (JObj [''success'' \<mapsto> JBool True])"
  using request_retries_with_backoff[where e = down_env and endpoint = "''/generate/''"
          and options = "\<lparr>opt_method = Some ''POST'', opt_body = None\<rparr>" and w = initial_world]
    request_retries_with_backoff[where e = flaky_env and endpoint = "''/generate/''"
          and options = "\<lparr>opt_method = Some ''POST'', opt_body = None\<rparr>" and w = initial_world]
  by (simp add: show_nat_503 baseUrl_def net_of_def[of "[]"])

subsection \<open>What leaves the page alone\<close>

lemma same_page_refl [simp]: "same_page w w"
  by (simp add: same_page_def)

lemma same_page_trans: "same_page a b \<Longrightarrow> same_page b c \<Longrightarrow> same_page a c"
  unfolding same_page_def by (cases a, cases b, cases c) simp

lemma same_page_fields:
  assumes "same_page w w'"
  shows "currentLevel w' = currentLevel w" "state w' = state w" "subscribers w' = subscribers w"
    "activeLoads w' = activeLoads w" "overlay w' = overlay w" "progressBar w' = progressBar w"
    "statusElement w' = statusElement w" "container w' = container w"
    "notifications w' = notifications w" "modules w' = modules w" "initialized w' = initialized w"
  using assms unfolding same_page_def
  by (cases w, cases w', simp)+

lemma only_dispatch_same_page: "only_dispatch w w' \<Longrightarrow> same_page w w'"
  unfolding only_dispatch_def same_page_def by (cases w, cases w') auto

lemma same_page_step [simp]:
  "same_page w a \<Longrightarrow> same_page w (a\<lparr>trace := t\<rparr>)"
  "same_page w a \<Longrightarrow> same_page w (a\<lparr>fetches := n\<rparr>)"
  "same_page w a \<Longrightarrow> same_page w (a\<lparr>ids := n\<rparr>)"
  "same_page w a \<Longrightarrow> same_page w (logger_log lv m a)"
  "same_page w a \<Longrightarrow> same_page w (emit e ev d a)"
  unfolding same_page_def logger_log_def
  using only_dispatch_fields[OF only_dispatch_emit[OF only_dispatch_refl], of e ev d a]
  by (cases w, cases a, cases "emit e ev d a", simp)+

lemma same_page_after_failure [simp]:
  "same_page w a \<Longrightarrow> same_page w (after_failure url init attempt err a)"
  by (simp add: after_failure_def Let_def)

lemma same_page_request_loop:
  "same_page w a \<Longrightarrow> same_page w (snd (request_loop e url endpoint init rid attempt n a))"
proof (induction n arbitrary: attempt a)
  case 0
  then show ?case by (simp add: request_loop.simps)
next
  case (Suc n)
  show ?case
  proof (cases "attempt_result (net e (fetches a) url init)")
    case (Inr data)
    with Suc.prems show ?thesis by (simp add: request_loop.simps do_fetch_def)
  next
    case (Inl err)
    then obtain nm msg where err: "err = js_error nm msg"
      by (rule attempt_result_error)
    show ?thesis
    proof (cases "attempt = retryAttempts")
      case True
      with Inl err Suc.prems show ?thesis
        by (simp add: request_loop.simps do_fetch_def Let_def)
    next
      case False
      from Suc.IH[OF same_page_after_failure[OF Suc.prems]]
      show ?thesis by (simp add: request_loop_retry[OF Inl False])
    qed
  qed
qed

lemma same_page_request: "same_page w (snd (request e endpoint options w))"
  unfolding request_def Let_def
  by (rule same_page_request_loop) simp

lemma same_page_post: "same_page w (snd (post e endpoint data w))"
  unfolding post_def Let_def by (rule same_page_request)

subsection \<open>NotificationManager\<close>

lemma nm_show_shown:
  assumes "container w = Some children"
  shows "fst (nm_show e message type duration w) = Inr (''notif_'' @ random_id e (ids w))"
    and "only_dispatch
           (w\<lparr>ids := Suc (ids w),
              container := Some (children @ [\<lparr>n_type = type, n_message = Html message\<rparr>]),
              notifications := (notifications w)
                (''notif_'' @ random_id e (ids w) \<mapsto> \<lparr>n_type = type, n_message = Html message\<rparr>)\<rparr>)
           (snd (nm_show e message type duration w))"
  using assms by (simp_all add: nm_show_def Let_def)

lemma nm_show_container:
  assumes "container w = Some children"
  shows "container (snd (nm_show e message type duration w)) =
           Some (children @ [\<lparr>n_type = type, n_message = Html message\<rparr>])"
  using only_dispatch_fields(8)[OF nm_show_shown(2)[OF assms]] by simp

lemma nm_show_page:
  assumes "container w = Some children"
  shows "currentLevel (snd (nm_show e message type duration w)) = currentLevel w"
    and "state (snd (nm_show e message type duration w)) = state w"
    and "activeLoads (snd (nm_show e message type duration w)) = activeLoads w"
    and "overlay (snd (nm_show e message type duration w)) = overlay w"
    and "fetches (snd (nm_show e message type duration w)) = fetches w"
    and "net_of (trace (snd (nm_show e message type duration w))) = net_of (trace w)"
    and "warnings_of (trace (snd (nm_show e message type duration w))) = warnings_of (trace w)"
  using only_dispatch_fields[OF nm_show_shown(2)[OF assms]]
    only_dispatch_net[OF nm_show_shown(2)[OF assms]]
    only_dispatch_warnings[OF nm_show_shown(2)[OF assms]]
  by simp_all

subsection \<open>LoadingManager and the page\<close>

lemma setState_net [simp]: "net_of (trace (setState e u w)) = net_of (trace w)"
  using only_dispatch_net[OF setState_only] by simp

lemma setState_warnings [simp]: "warnings_of (trace (setState e u w)) = warnings_of (trace w)"
  using only_dispatch_warnings[OF setState_only] by simp

lemma warnings_of_other [simp]:
  "lv \<noteq> Warn \<Longrightarrow> warnings_of (trace (logger_log lv m w)) = warnings_of (trace w)"
  by (simp add: warnings_of_logger)

lemma startLoading_page [simp]:
  "container (snd (startLoading e loadId m sp w)) = container w"
  "currentLevel (snd (startLoading e loadId m sp w)) = currentLevel w"
  "fetches (snd (startLoading e loadId m sp w)) = fetches w"
  "net_of (trace (snd (startLoading e loadId m sp w))) = net_of (trace w)"
  "warnings_of (trace (snd (startLoading e loadId m sp w))) = warnings_of (trace w)"
  by (simp_all add: startLoading_eq split: sum.split)

lemma startLoading_state_other:
  "k \<noteq> ''loading'' \<Longrightarrow> state (snd (startLoading e loadId m sp w)) k = state w k"
  by (simp add: startLoading_eq map_add_def split: sum.split)

lemma stopLoading_page [simp]:
  "container (stopLoading e loadId w) = container w"
  "currentLevel (stopLoading e loadId w) = currentLevel w"
  "fetches (stopLoading e loadId w) = fetches w"
  "net_of (trace (stopLoading e loadId w)) = net_of (trace w)"
  "warnings_of (trace (stopLoading e loadId w)) = warnings_of (trace w)"
  by (simp_all add: stopLoading_def Let_def split: option.split)

subsection \<open>What \<open>request\<close> throws, and its first call\<close>

lemma request_loop_throws:
  assumes "fst (request_loop e url endpoint init rid attempt n w) = Inl err"
  obtains nm msg where "err = js_error nm msg"
  using assms
proof (induction n arbitrary: attempt w thesis)
  case 0
  then show ?case by (simp add: request_loop.simps)
next
  case (Suc n)
  show ?case
  proof (cases "attempt_result (net e (fetches w) url init)")
    case (Inr data)
    with Suc.prems(2) show ?thesis by (simp add: request_loop_ok)
  next
    case (Inl err')
    show ?thesis
    proof (cases "attempt = retryAttempts")
      case True
      with Suc.prems(2) Inl have "err = err'" by (simp add: request_loop_last)
      with Inl Suc.prems(1) show ?thesis by (auto elim: attempt_result_error)
    next
      case False
      with Suc.prems(2) Inl
      have "fst (request_loop e url endpoint init rid (Suc attempt) n
                   (after_failure url init attempt err' w)) = Inl err"
        by (simp add: request_loop_retry)
      from Suc.IH[OF _ this] Suc.prems(1) show ?thesis by blast
    qed
  qed
qed

lemma post_throws:
  assumes "fst (post e endpoint data w) = Inl err"
  obtains nm msg where "err = js_error nm msg"
  using assms unfolding post_def request_def Let_def
  by (rule request_loop_throws)

lemma request_loop_net_grows:
  "\<exists>rest. net_of (trace (snd (request_loop e url endpoint init rid attempt n w))) =
            net_of (trace w) @ rest"
proof (induction n arbitrary: attempt w)
  case 0
  then show ?case by (simp add: request_loop.simps)
next
  case (Suc n)
  show ?case
  proof (cases "attempt_result (net e (fetches w) url init)")
    case (Inr data)
    then show ?thesis by (simp add: request_loop_ok)
  next
    case (Inl err)
    show ?thesis
    proof (cases "attempt = retryAttempts")
      case True
      with Inl show ?thesis by (simp add: request_loop_last)
    next
      case False
      from Suc.IH[of "Suc attempt" "after_failure url init attempt err w"]
      show ?thesis by (auto simp: request_loop_retry[OF Inl False])
    qed
  qed
qed

lemma request_loop_net_first:
  "\<exists>rest. net_of (trace (snd (request_loop e url endpoint init rid attempt (Suc n) w))) =
            net_of (trace w) @ Fetch url init # rest"
proof (cases "attempt_result (net e (fetches w) url init)")
  case (Inr data)
  then show ?thesis by (simp add: request_loop_ok)
next
  case (Inl err)
  show ?thesis
  proof (cases "attempt = retryAttempts")
    case True
    with Inl show ?thesis by (simp add: request_loop_last)
  next
    case False
    from request_loop_net_grows[of e url endpoint init rid "Suc attempt" n
        "after_failure url init attempt err w"]
    show ?thesis by (auto simp: request_loop_retry[OF Inl False])
  qed
qed

lemma generate_init_eq:
  "finalOptions \<lparr>opt_method = Some ''POST'',
                  opt_body = stringify (if formData = JUndefined then JObj Map.empty else formData)\<rparr> =
     generate_init formData"
  by (cases formData) (simp_all add: finalOptions_def generate_init_def timeout_def json_body_def)

lemma http_method_generate_init [simp]: "http_method (generate_init formData) = ''POST''"
  by (simp add: generate_init_def)

lemma post_net_first:
  "\<exists>rest. net_of (trace (snd (post e ''/generate/'' formData w))) =
            net_of (trace w) @ Fetch ''/generate/'' (generate_init formData) # rest"
  using request_loop_net_first[of e "''/generate/''" "''/generate/''" "generate_init formData"
      "''api_'' @ random_id e (ids w)" "Suc 0" "Suc (Suc 0)"
      "logger_debug (LogApiRequest ''POST'' ''/generate/'') (w\<lparr>ids := Suc (ids w)\<rparr>)"]
  by (simp add: post_def request_def Let_def generate_init_eq baseUrl_def retryAttempts_def
      numeral_3_eq_3)

subsection \<open>startGeneration\<close>

lemma case_returned:
  "fst p = Inr x \<Longrightarrow> (case p of (Inl a, w) \<Rightarrow> f a w | (Inr b, w) \<Rightarrow> g b w) = g x (snd p)"
  by (cases p) auto

lemma case_thrown:
  "fst p = Inl x \<Longrightarrow> (case p of (Inl a, w) \<Rightarrow> f a w | (Inr b, w) \<Rightarrow> g b w) = f x (snd p)"
  by (cases p) auto

lemma validation_ofD:
  assumes "validation_of e = Some (formData, valid)"
  obtains validate validation where
    "getFormData e = Some (Inr formData)" "validateForm e = Some validate"
    "validate formData = Inr validation" "get_prop validation ''valid'' = Inr valid"
  using assms unfolding validation_of_def
  by (auto split: option.splits sum.splits)

lemma to_string_JStr [simp]: "to_string e (JStr s) = s"
  by simp

text \<open>The \<open>catch\<close> block, for an error object: one error notification.\<close>

lemma generation_catch_error:
  assumes "container w = Some children"
  shows "fst (generation_catch e (js_error nm msg) w) = Inr ()"
    and "container (snd (generation_catch e (js_error nm msg) w)) =
           Some (children @ [\<lparr>n_type = ''error'', n_message = Html (''Erreur: '' @ msg)\<rparr>])"
    and "net_of (trace (snd (generation_catch e (js_error nm msg) w))) = net_of (trace w)"
    and "warnings_of (trace (snd (generation_catch e (js_error nm msg) w))) = warnings_of (trace w)"
    and "state (snd (generation_catch e (js_error nm msg) w)) = state w"
proof -
  let ?w1 = "logger_error (LogGenFailed (js_error nm msg)) w"
  have c: "container ?w1 = Some children" using assms by simp
  have eq: "generation_catch e (js_error nm msg) w =
              (Inr (), snd (nm_show e (''Erreur: '' @ msg) ''error'' 8000 ?w1))"
    using nm_show_shown(1)[OF c, of e "''Erreur: '' @ msg" "''error''" 8000]
    by (auto simp: generation_catch_def nm_error_def Let_def split: prod.split sum.split)
  show "fst (generation_catch e (js_error nm msg) w) = Inr ()"
    by (simp add: eq)
  show "container (snd (generation_catch e (js_error nm msg) w)) =
          Some (children @ [\<lparr>n_type = ''error'', n_message = Html (''Erreur: '' @ msg)\<rparr>])"
    by (simp add: eq nm_show_container[OF c])
  show "net_of (trace (snd (generation_catch e (js_error nm msg) w))) = net_of (trace w)"
    by (simp add: eq nm_show_page[OF c])
  show "warnings_of (trace (snd (generation_catch e (js_error nm msg) w))) = warnings_of (trace w)"
    by (simp add: eq nm_show_page[OF c])
  show "state (snd (generation_catch e (js_error nm msg) w)) = state w"
    by (simp add: eq nm_show_page[OF c])
qed

text \<open>A submission that fails validation: the \<open>try\<close> block is the notification.\<close>

lemma generation_try_invalid:
  assumes "validation_of e = Some (formData, valid)" and "\<not> truthy valid"
    and "container w = Some children"
  shows "generation_try e w = (Inr (), snd (nm_error e msg_fix_form w))"
proof -
  from assms(1) obtain validate validation where
    h: "getFormData e = Some (Inr formData)" "validateForm e = Some validate"
      "validate formData = Inr validation" "get_prop validation ''valid'' = Inr valid"
    by (rule validation_ofD)
  from nm_show_shown(1)[OF assms(3), of e msg_fix_form "''error''" 8000] h assms(2)
  show ?thesis
    by (auto simp: generation_try_def nm_error_def split: prod.split sum.split)
qed

text \<open>
  A submission that passes validation, by what the request comes to: the \<open>try\<close>
  block up to the point where it ends or throws.
\<close>

lemma generation_try_valid:
  assumes "validation_of e = Some (formData, valid)" and "truthy valid"
    and "overlay_usable (overlay w)"
  shows "generation_try e w =
           (let w1 = snd (startLoading e ''main_generation'' msg_generating True w)
            in case post e ''/generate/'' formData w1 of
                 (Inl thrown, w2) \<Rightarrow> (Inl thrown, w2)
               | (Inr result, w2) \<Rightarrow>
                   (case get_prop result ''success'' of
                      Inl type_error \<Rightarrow> (Inl type_error, w2)
                    | Inr success \<Rightarrow>
                        if truthy success
                        then (case nm_success e msg_generated w2 of
                                (Inl thrown, w3) \<Rightarrow> (Inl thrown, w3)
                              | (Inr notificationId, w3) \<Rightarrow>
                                  (Inr (),
                                   emit e ''generationCompleted'' result
                                     (setState e [''currentGeneration'' \<mapsto> result] w3)))
                        else (case get_prop result ''error'' of
                                Inl type_error \<Rightarrow> (Inl type_error, w2)
                              | Inr err \<Rightarrow>
                                  (Inl (js_error ''Error''
                                          (to_string e
                                             (if truthy err then err
                                              else JStr msg_generation_failed))),
                                   w2))))"
proof -
  from assms(1) obtain validate validation where
    h: "getFormData e = Some (Inr formData)" "validateForm e = Some validate"
      "validate formData = Inr validation" "get_prop validation ''valid'' = Inr valid"
    by (rule validation_ofD)
  with assms(2) startLoading_returns[OF assms(3), of e "''main_generation''" msg_generating True]
  show ?thesis
    by (simp add: generation_try_def case_returned)
qed

lemma get_prop_throws:
  assumes "get_prop v p = Inl err"
  obtains nm msg where "err = js_error nm msg"
  using assms by (cases v) auto

lemma nm_error_page:
  assumes "container w = Some children"
  shows "container (snd (nm_error e message w)) =
           Some (children @ [\<lparr>n_type = ''error'', n_message = Html message\<rparr>])"
    and "net_of (trace (snd (nm_error e message w))) = net_of (trace w)"
    and "fetches (snd (nm_error e message w)) = fetches w"
    and "activeLoads (snd (nm_error e message w)) = activeLoads w"
    and "overlay (snd (nm_error e message w)) = overlay w"
  using nm_show_container[OF assms, of e message "''error''" 8000]
    nm_show_page[OF assms, of e message "''error''" 8000]
  by (simp_all add: nm_error_def)

text \<open>
  C5. On a page whose notification container exists, when the form data fails
  validation (\<open>validation.valid\<close> is not truthy), \<open>startGeneration\<close> logs its start,
  shows the error notification, runs its \<open>finally\<close> (\<open>stopLoading\<close>) and returns:
  that is the whole call. No \<open>fetch\<close> is made and no load is started: the set of
  active loads only loses \<open>main_generation\<close>, and the overlay is never switched on.
\<close>

theorem invalid_form_never_calls_api:
  assumes "validation_of e = Some (formData, valid)" and "\<not> truthy valid"
    and "container w = Some children"
  shows "startGeneration e w =
           (Inr (), stopLoading e ''main_generation''
                      (snd (nm_error e msg_fix_form (logger_info LogGenStart w))))
         \<and> container (snd (startGeneration e w)) =
             Some (children @ [\<lparr>n_type = ''error'', n_message = Html msg_fix_form\<rparr>])
         \<and> net_of (trace (snd (startGeneration e w))) = net_of (trace w)
         \<and> fetches (snd (startGeneration e w)) = fetches w
         \<and> activeLoads (snd (startGeneration e w)) = activeLoads w - {''main_generation''}
         \<and> overlay (snd (startGeneration e w)) =
             (if activeLoads w - {''main_generation''} = {}
              then map_option (\<lambda>el. el\<lparr>ov_display := ''none''\<rparr>) (overlay w)
              else overlay w)"
proof -
  let ?w0 = "logger_info LogGenStart w"
  have c: "container ?w0 = Some children" using assms(3) by simp
  have eq: "startGeneration e w =
              (Inr (), stopLoading e ''main_generation'' (snd (nm_error e msg_fix_form ?w0)))"
    by (simp add: startGeneration_def Let_def generation_try_invalid[OF assms(1,2) c])
  show ?thesis
    by (simp add: eq nm_error_page[OF c])
qed

lemma validation_of_invalid_env: "validation_of invalid_env = Some (form_data, JBool False)"
  by (simp add: validation_of_def invalid_env_def)

lemma container_page_world: "container page_world = Some []"
  by (simp add: page_world_def nm_initialize_def quiet_env_def Let_def initial_world_def
      lm_initialize_def createLoadingElements_def find_overlay_def)

lemma trace_page_world: "trace page_world = []"
  by (simp add: page_world_def nm_initialize_def quiet_env_def Let_def initial_world_def
      lm_initialize_def createLoadingElements_def find_overlay_def logger_log_def)

theorem invalid_form_never_calls_api_witness:
  "validation_of invalid_env = Some (form_data, JBool False)
   \<and> container page_world = Some []
   \<and> fst (startGeneration invalid_env page_world) = Inr ()
   \<and> container (snd (startGeneration invalid_env page_world)) =
       Some [\<lparr>n_type = ''error'', n_message = Html ''Veuillez corriger les erreurs du formulaire''\<rparr>]
   \<and> net_of (trace (snd (startGeneration invalid_env page_world))) = []"
proof -
  have invalid: "\<not> truthy (JBool False)" by simp
  note run = invalid_form_never_calls_api[OF validation_of_invalid_env invalid container_page_world]
  from run[THEN conjunct1] have "fst (startGeneration invalid_env page_world) = Inr ()"
    by simp
  moreover from run[THEN conjunct2, THEN conjunct1] have "container (snd (startGeneration invalid_env page_world)) =
      Some [\<lparr>n_type = ''error'', n_message = Html ''Veuillez corriger les erreurs du formulaire''\<rparr>]"
    by (simp add: msg_fix_form_def)
  moreover from run[THEN conjunct2, THEN conjunct2, THEN conjunct1] have "net_of (trace (snd (startGeneration invalid_env page_world))) = []"
    by (simp add: trace_page_world net_of_def)
  ultimately show ?thesis
    by (simp add: validation_of_invalid_env container_page_world)
qed

lemma generation_started_page [simp]:
  "container (generation_started e w) = container w"
  "fetches (generation_started e w) = fetches w"
  "currentLevel (generation_started e w) = currentLevel w"
  "net_of (trace (generation_started e w)) = net_of (trace w)"
  "warnings_of (trace (generation_started e w)) = warnings_of (trace w)"
  by (simp_all add: generation_started_def)

lemma container_after_post [simp]: "container (snd (post e endpoint data w)) = container w"
  by (rule same_page_fields(8)[OF same_page_post])

text \<open>
  A submission that passes validation, when the \<open>try\<close> block throws an error object
  after the request: the \<open>catch\<close> block shows it.
\<close>

lemma startGeneration_caught:
  assumes "validation_of e = Some (formData, valid)" and "truthy valid"
    and "container w = Some children"
    and "generation_try e (logger_info LogGenStart w) =
           (Inl (js_error nm msg), snd (post e ''/generate/'' formData (generation_started e w)))"
  shows "fst (startGeneration e w) = Inr ()"
    and "container (snd (startGeneration e w)) =
           Some (children @ [\<lparr>n_type = ''error'', n_message = Html (''Erreur: '' @ msg)\<rparr>])"
    and "net_of (trace (snd (startGeneration e w))) =
           net_of (trace (snd (post e ''/generate/'' formData (generation_started e w))))"
    and "warnings_of (trace (snd (startGeneration e w))) =
           warnings_of (trace (snd (post e ''/generate/'' formData (generation_started e w))))"
    and "state (snd (startGeneration e w)) ''currentGeneration'' = state w ''currentGeneration''"
proof -
  let ?w2 = "snd (post e ''/generate/'' formData (generation_started e w))"
  have c: "container ?w2 = Some children" using assms(3) by simp
  have s: "state ?w2 ''currentGeneration'' = state w ''currentGeneration''"
    using same_page_fields(2)[OF same_page_post, of e "''/generate/''" formData "generation_started e w"]
    by (simp add: generation_started_def startLoading_state_other)
  have eq: "startGeneration e w =
              (fst (generation_catch e (js_error nm msg) ?w2),
               stopLoading e ''main_generation'' (snd (generation_catch e (js_error nm msg) ?w2)))"
    by (simp add: startGeneration_def Let_def assms(4) split: prod.split)
  show "fst (startGeneration e w) = Inr ()"
    by (simp add: eq generation_catch_error[OF c])
  show "container (snd (startGeneration e w)) =
          Some (children @ [\<lparr>n_type = ''error'', n_message = Html (''Erreur: '' @ msg)\<rparr>])"
    by (simp add: eq generation_catch_error[OF c])
  show "net_of (trace (snd (startGeneration e w))) = net_of (trace ?w2)"
    by (simp add: eq generation_catch_error[OF c])
  show "warnings_of (trace (snd (startGeneration e w))) = warnings_of (trace ?w2)"
    by (simp add: eq generation_catch_error[OF c])
  show "state (snd (startGeneration e w)) ''currentGeneration'' = state w ''currentGeneration''"
    by (simp add: eq generation_catch_error[OF c] s map_add_def)
qed

lemma generation_try_started:
  assumes "validation_of e = Some (formData, valid)" and "truthy valid"
    and "overlay_usable (overlay w)"
  shows "generation_try e (logger_info LogGenStart w) =
           (let w2 = snd (post e ''/generate/'' formData (generation_started e w))
            in case generation_response e formData w of
                 Inl thrown \<Rightarrow> (Inl thrown, w2)
               | Inr result \<Rightarrow>
                   (case get_prop result ''success'' of
                      Inl type_error \<Rightarrow> (Inl type_error, w2)
                    | Inr success \<Rightarrow>
                        if truthy success
                        then (case fst (nm_success e msg_generated w2) of
                                Inl thrown \<Rightarrow> (Inl thrown, snd (nm_success e msg_generated w2))
                              | Inr notificationId \<Rightarrow>
                                  (Inr (),
                                   emit e ''generationCompleted'' result
                                     (setState e [''currentGeneration'' \<mapsto> result]
                                        (snd (nm_success e msg_generated w2)))))
                        else (case get_prop result ''error'' of
                                Inl type_error \<Rightarrow> (Inl type_error, w2)
                              | Inr err \<Rightarrow>
                                  (Inl (js_error ''Error''
                                          (to_string e
                                             (if truthy err then err
                                              else JStr msg_generation_failed))),
                                   w2))))"
  using assms(3)
  by (simp add: generation_try_valid[OF assms(1,2)] generation_started_def generation_response_def
      Let_def split: prod.split sum.split)

text \<open>The request fails: its error is caught and shown.\<close>

lemma startGeneration_request_failed:
  assumes "validation_of e = Some (formData, valid)" and "truthy valid"
    and "container w = Some children" and "overlay_usable (overlay w)"
    and "generation_response e formData w = Inl (js_error nm msg)"
  shows "fst (startGeneration e w) = Inr ()"
    and "container (snd (startGeneration e w)) =
           Some (children @ [\<lparr>n_type = ''error'', n_message = Html (''Erreur: '' @ msg)\<rparr>])"
    and "net_of (trace (snd (startGeneration e w))) =
           net_of (trace (snd (post e ''/generate/'' formData (generation_started e w))))"
    and "warnings_of (trace (snd (startGeneration e w))) =
           warnings_of (trace (snd (post e ''/generate/'' formData (generation_started e w))))"
proof -
  from assms(5) have "generation_try e (logger_info LogGenStart w) =
      (Inl (js_error nm msg), snd (post e ''/generate/'' formData (generation_started e w)))"
    by (simp add: generation_try_started[OF assms(1,2,4)])
  from startGeneration_caught[OF assms(1,2,3) this]
  show "fst (startGeneration e w) = Inr ()"
    and "container (snd (startGeneration e w)) =
           Some (children @ [\<lparr>n_type = ''error'', n_message = Html (''Erreur: '' @ msg)\<rparr>])"
    and "net_of (trace (snd (startGeneration e w))) =
           net_of (trace (snd (post e ''/generate/'' formData (generation_started e w))))"
    and "warnings_of (trace (snd (startGeneration e w))) =
           warnings_of (trace (snd (post e ''/generate/'' formData (generation_started e w))))"
    by simp_all
qed

text \<open>The response cannot be read, or says that the generation failed.\<close>

lemma startGeneration_refused:
  assumes "validation_of e = Some (formData, valid)" and "truthy valid"
    and "container w = Some children" and "overlay_usable (overlay w)"
    and "generation_response e formData w = Inr result"
    and "get_prop result ''success'' = Inl (js_error nm msg)
         \<or> (\<exists>success err. get_prop result ''success'' = Inr success \<and> \<not> truthy success
               \<and> get_prop result ''error'' = Inr err \<and> nm = ''Error''
               \<and> msg = to_string e (if truthy err then err else JStr msg_generation_failed))"
  shows "fst (startGeneration e w) = Inr ()"
    and "container (snd (startGeneration e w)) =
           Some (children @ [\<lparr>n_type = ''error'', n_message = Html (''Erreur: '' @ msg)\<rparr>])"
    and "net_of (trace (snd (startGeneration e w))) =
           net_of (trace (snd (post e ''/generate/'' formData (generation_started e w))))"
    and "state (snd (startGeneration e w)) ''currentGeneration'' = state w ''currentGeneration''"
proof -
  from assms(5,6) have "generation_try e (logger_info LogGenStart w) =
      (Inl (js_error nm msg), snd (post e ''/generate/'' formData (generation_started e w)))"
    by (auto simp: generation_try_started[OF assms(1,2,4)])
  from startGeneration_caught[OF assms(1,2,3) this]
  show "fst (startGeneration e w) = Inr ()"
    and "container (snd (startGeneration e w)) =
           Some (children @ [\<lparr>n_type = ''error'', n_message = Html (''Erreur: '' @ msg)\<rparr>])"
    and "net_of (trace (snd (startGeneration e w))) =
           net_of (trace (snd (post e ''/generate/'' formData (generation_started e w))))"
    and "state (snd (startGeneration e w)) ''currentGeneration'' = state w ''currentGeneration''"
    by simp_all
qed

text \<open>The response says that the generation succeeded.\<close>

lemma startGeneration_succeeded:
  assumes "validation_of e = Some (formData, valid)" and "truthy valid"
    and "container w = Some children" and "overlay_usable (overlay w)"
    and "generation_response e formData w = Inr result"
    and "get_prop result ''success'' = Inr success" and "truthy success"
  shows "fst (startGeneration e w) = Inr ()"
    and "container (snd (startGeneration e w)) =
           Some (children @ [\<lparr>n_type = ''success'', n_message = Html msg_generated\<rparr>])"
    and "net_of (trace (snd (startGeneration e w))) =
           net_of (trace (snd (post e ''/generate/'' formData (generation_started e w))))"
    and "state (snd (startGeneration e w)) ''currentGeneration'' = Some result"
proof -
  let ?w2 = "snd (post e ''/generate/'' formData (generation_started e w))"
  let ?w3 = "snd (nm_show e msg_generated ''success'' 5000 ?w2)"
  have c: "container ?w2 = Some children" using assms(3) by simp
  from assms(5,6,7) nm_show_shown(1)[OF c, of e msg_generated "''success''" 5000]
  have "generation_try e (logger_info LogGenStart w) =
      (Inr (), emit e ''generationCompleted'' result
                 (setState e [''currentGeneration'' \<mapsto> result] ?w3))"
    by (simp add: generation_try_started[OF assms(1,2,4)] nm_success_def)
  then have eq: "startGeneration e w =
      (Inr (), stopLoading e ''main_generation''
                 (emit e ''generationCompleted'' result
                    (setState e [''currentGeneration'' \<mapsto> result] ?w3)))"
    by (simp add: startGeneration_def Let_def)
  show "fst (startGeneration e w) = Inr ()"
    by (simp add: eq)
  show "container (snd (startGeneration e w)) =
          Some (children @ [\<lparr>n_type = ''success'', n_message = Html msg_generated\<rparr>])"
    by (simp add: eq nm_show_container[OF c])
  show "net_of (trace (snd (startGeneration e w))) = net_of (trace ?w2)"
    by (simp add: eq nm_show_page[OF c])
  show "state (snd (startGeneration e w)) ''currentGeneration'' = Some result"
    by (simp add: eq map_add_def)
qed


lemma get_prop_again:
  assumes "get_prop v p = Inr x"
  obtains y where "get_prop v q = Inr y"
  using assms by (cases v) auto

lemma post_net_generate:
  "\<exists>rest. net_of (trace (snd (post e ''/generate/'' formData (generation_started e w)))) =
            net_of (trace w) @ Fetch ''/generate/'' (generate_init formData) # rest"
  using post_net_first[of e formData "generation_started e w"] by simp

text \<open>
  C1. On a page whose notification container exists and whose loading overlay can take
  a message (as after a bootstrap that has completed), when the form data passes
  validation, \<open>startGeneration\<close> posts it: the first thing it does on the network is a
  \<open>fetch\<close> of \<open>/generate/\<close> with the method POST, the JSON headers and the JSON text
  of the form data as body, which is the text of \<open>{}\<close> when the form data is
  \<open>undefined\<close> (what follows are the retries of that request). It then shows exactly one
  notification, of type success when the request came to a response with a truthy
  \<open>success\<close> and of type error otherwise, and returns.
\<close>

theorem valid_form_is_posted_and_reported:
  assumes "validation_of e = Some (formData, valid)" and "truthy valid"
    and "container w = Some children" and "overlay_usable (overlay w)"
  shows "fst (startGeneration e w) = Inr ()
         \<and> (\<exists>rest. net_of (trace (snd (startGeneration e w))) =
                     net_of (trace w) @
                     Fetch ''/generate/''
                       \<lparr>http_method = ''POST'',
                        headers = [(''Content-Type'', ''application/json''),
                                   (''Accept'', ''application/json'')],
                        timeout_ms = 300000,
                        body = json_body formData\<rparr> # rest)
         \<and> (\<exists>message. container (snd (startGeneration e w)) =
               Some (children @
                 [\<lparr>n_type = (if generation_succeeded e formData w then ''success'' else ''error''),
                   n_message = message\<rparr>]))"
proof -
  have "fst (startGeneration e w) = Inr ()
         \<and> (\<exists>rest. net_of (trace (snd (startGeneration e w))) =
                     net_of (trace w) @ Fetch ''/generate/'' (generate_init formData) # rest)
         \<and> (\<exists>message. container (snd (startGeneration e w)) =
               Some (children @
                 [\<lparr>n_type = (if generation_succeeded e formData w then ''success'' else ''error''),
                   n_message = message\<rparr>]))"
  proof (cases "generation_response e formData w")
    case (Inl err)
    then obtain nm msg where err: "err = js_error nm msg"
      unfolding generation_response_def by (rule post_throws)
    note run = startGeneration_request_failed[OF assms Inl[unfolded err]]
    have "\<not> generation_succeeded e formData w"
      by (simp add: generation_succeeded_def Inl)
    with run post_net_generate[of e formData w] show ?thesis by simp
  next
    case (Inr result)
    show ?thesis
    proof (cases "get_prop result ''success''")
      case unreadable: (Inl type_error)
      then obtain nm msg where te: "type_error = js_error nm msg"
        by (rule get_prop_throws)
      note run = startGeneration_refused[OF assms Inr, of nm msg]
      have "\<not> generation_succeeded e formData w"
        by (simp add: generation_succeeded_def Inr unreadable)
      with run unreadable te post_net_generate[of e formData w] show ?thesis by simp
    next
      case success: (Inr success)
      show ?thesis
      proof (cases "truthy success")
        case True
        note run = startGeneration_succeeded[OF assms Inr success True]
        have "generation_succeeded e formData w"
          by (simp add: generation_succeeded_def Inr success True)
        with run post_net_generate[of e formData w] show ?thesis by simp
      next
        case False
        from success obtain err where err: "get_prop result ''error'' = Inr err"
          by (rule get_prop_again)
        note run = startGeneration_refused[OF assms Inr, of "''Error''"
            "to_string e (if truthy err then err else JStr msg_generation_failed)"]
        have "\<not> generation_succeeded e formData w"
          by (simp add: generation_succeeded_def Inr success False)
        with run success False err post_net_generate[of e formData w] show ?thesis by simp
      qed
    qed
  qed
  then show ?thesis
    by (simp only: generate_init_def)
qed

lemma post_first_ok:
  assumes "attempt_result (net e (fetches w) ''/generate/'' (generate_init formData)) = Inr data"
  shows "fst (post e ''/generate/'' formData w) = Inr data"
  using request_loop_ok(1)[of e
      "logger_debug (LogApiRequest ''POST'' ''/generate/'') (w\<lparr>ids := Suc (ids w)\<rparr>)"
      "''/generate/''" "generate_init formData" data "''/generate/''"
      "''api_'' @ random_id e (ids w)" "Suc 0" "Suc (Suc 0)"] assms
  by (simp add: post_def request_def Let_def generate_init_eq baseUrl_def retryAttempts_def
      numeral_3_eq_3)

lemma generation_response_first_ok:
  assumes "attempt_result (net e (fetches w) ''/generate/'' (generate_init formData)) = Inr data"
  shows "generation_response e formData w = Inr data"
  unfolding generation_response_def
  by (rule post_first_ok) (simp add: assms)

lemma validation_of_valid_env [simp]: "validation_of valid_env = Some (form_data, JBool True)"
  by (simp add: validation_of_def valid_env_def)

lemma validation_of_accepting_env [simp]: "validation_of accepting_env = Some (form_data, JBool True)"
  by (simp add: validation_of_def accepting_env_def valid_env_def)

lemma validation_of_refusing_env [simp]: "validation_of refusing_env = Some (form_data, JBool True)"
  by (simp add: validation_of_def refusing_env_def valid_env_def)

lemma generation_response_accepting_env:
  "generation_response accepting_env form_data page_world =
     Inr (JObj [''success'' \<mapsto> JBool True, ''buildings'' \<mapsto> JArr []])"
  by (rule generation_response_first_ok) (simp add: accepting_env_def)

lemma generation_response_refusing_env:
  "generation_response refusing_env form_data page_world =
     Inr (JObj [''success'' \<mapsto> JBool False, ''error'' \<mapsto> JStr ''No buildings found''])"
  by (rule generation_response_first_ok) (simp add: refusing_env_def)

lemma usable_page_world: "overlay_usable (overlay page_world)"
  by (simp add: page_world_def nm_initialize_def quiet_env_def Let_def initial_world_def
      lm_initialize_def createLoadingElements_def find_overlay_def overlay_usable_def)

lemma validation_of_blank_env: "validation_of blank_env = Some (JUndefined, JBool True)"
  by (simp add: validation_of_def blank_env_def accepting_env_def valid_env_def)

theorem valid_form_is_posted_and_reported_witness:
  "validation_of accepting_env = Some (form_data, JBool True)
   \<and> container page_world = Some []
   \<and> overlay_usable (overlay page_world)
   \<and> generation_succeeded accepting_env form_data page_world
   \<and> fst (startGeneration accepting_env page_world) = Inr ()
   \<and> (\<exists>rest. net_of (trace (snd (startGeneration accepting_env page_world))) =
               Fetch ''/generate/''
                 \<lparr>http_method = ''POST'',
                  headers = [(''Content-Type'', ''application/json''),
                             (''Accept'', ''application/json'')],
                  timeout_ms = 300000,
                  body = Some (Stringify form_data)\<rparr> # rest)
   \<and> (\<exists>message. container (snd (startGeneration accepting_env page_world)) =
         Some [\<lparr>n_type = ''success'', n_message = message\<rparr>])
   \<and> validation_of blank_env = Some (JUndefined, JBool True)
   \<and> (\<exists>rest. net_of (trace (snd (startGeneration blank_env page_world))) =
               Fetch ''/generate/''
                 \<lparr>http_method = ''POST'',
                  headers = [(''Content-Type'', ''application/json''),
                             (''Accept'', ''application/json'')],
                  timeout_ms = 300000,
                  body = Some (Stringify (JObj Map.empty))\<rparr> # rest)"
proof -
  have valid: "truthy (JBool True)" by simp
  note run = valid_form_is_posted_and_reported[OF validation_of_accepting_env valid
      container_page_world usable_page_world]
  note blank = valid_form_is_posted_and_reported[OF validation_of_blank_env valid
      container_page_world usable_page_world]
  have ok: "generation_succeeded accepting_env form_data page_world"
    by (simp add: generation_succeeded_def generation_response_accepting_env)
  from run[THEN conjunct1] have "fst (startGeneration accepting_env page_world) = Inr ()" .
  moreover from run[THEN conjunct2, THEN conjunct1]
  have "\<exists>rest. net_of (trace (snd (startGeneration accepting_env page_world))) =
               Fetch ''/generate/''
                 \<lparr>http_method = ''POST'',
                  headers = [(''Content-Type'', ''application/json''),
                             (''Accept'', ''application/json'')],
                  timeout_ms = 300000,
                  body = Some (Stringify form_data)\<rparr> # rest"
    by (simp add: trace_page_world net_of_def[of "[]"] json_body_def form_data_def)
  moreover from run[THEN conjunct2, THEN conjunct2] ok
  have "\<exists>message. container (snd (startGeneration accepting_env page_world)) =
         Some [\<lparr>n_type = ''success'', n_message = message\<rparr>]"
    by simp
  moreover from blank[THEN conjunct2, THEN conjunct1]
  have "\<exists>rest. net_of (trace (snd (startGeneration blank_env page_world))) =
               Fetch ''/generate/''
                 \<lparr>http_method = ''POST'',
                  headers = [(''Content-Type'', ''application/json''),
                             (''Accept'', ''application/json'')],
                  timeout_ms = 300000,
                  body = Some (Stringify (JObj Map.empty))\<rparr> # rest"
    by (simp add: trace_page_world net_of_def[of "[]"] json_body_def)
  ultimately show ?thesis
    using ok by (simp add: container_page_world usable_page_world validation_of_blank_env)
qed

text \<open>
  C3, as amended. On a page whose notification container exists and whose loading
  overlay can take a message, for a JSON response to the POST of a valid submission:
  when its \<open>success\<close> is \<open>true\<close>, the success notification is shown and the response
  is stored in the state as \<open>currentGeneration\<close>; when its \<open>success\<close> is \<open>false\<close>
  and its \<open>error\<close> is a string, one error notification is shown, whose message is
  \<open>Erreur:\<close> followed by that string when it is not empty and by the default text
  \<open>Erreur de generation\<close> (with its accents) when it is empty, and \<open>currentGeneration\<close>
  stays as it was. The message reaches the notification as markup: it is the text of
  the notification when the error string is plain text, and for a string with markup in
  it the text is what the HTML parser makes of it.
\<close>

theorem response_is_reported:
  assumes "validation_of e = Some (formData, valid)" and "truthy valid"
    and "container w = Some children" and "overlay_usable (overlay w)"
    and "generation_response e formData w = Inr result"
  shows "(get_prop result ''success'' = Inr (JBool True) \<longrightarrow>
            container (snd (startGeneration e w)) =
              Some (children @ [\<lparr>n_type = ''success'', n_message = Html msg_generated\<rparr>])
            \<and> text_of (Html msg_generated) = Some msg_generated
            \<and> state (snd (startGeneration e w)) ''currentGeneration'' = Some result)
         \<and> (\<forall>reason. get_prop result ''success'' = Inr (JBool False)
                    \<and> get_prop result ''error'' = Inr (JStr reason) \<longrightarrow>
            container (snd (startGeneration e w)) =
              Some (children @
                [\<lparr>n_type = ''error'',
                  n_message =
                    Html (''Erreur: '' @ (if reason = [] then msg_generation_failed else reason))\<rparr>])
            \<and> (plain_text reason \<longrightarrow>
                 text_of (Html (''Erreur: '' @ (if reason = [] then msg_generation_failed else reason))) =
                   Some (''Erreur: '' @ (if reason = [] then msg_generation_failed else reason)))
            \<and> state (snd (startGeneration e w)) ''currentGeneration'' = state w ''currentGeneration'')"
proof (intro conjI allI impI; (elim conjE)?)
  assume ok: "get_prop result ''success'' = Inr (JBool True)"
  have t: "truthy (JBool True)" by simp
  from startGeneration_succeeded[OF assms ok t]
  show "container (snd (startGeneration e w)) =
          Some (children @ [\<lparr>n_type = ''success'', n_message = Html msg_generated\<rparr>])"
    and "state (snd (startGeneration e w)) ''currentGeneration'' = Some result"
    by simp_all
  show "text_of (Html msg_generated) = Some msg_generated"
    by (simp add: plain_text_def msg_generated_def e_acute_def e_grave_def)
next
  fix reason
  assume ko: "get_prop result ''success'' = Inr (JBool False)"
    and err: "get_prop result ''error'' = Inr (JStr reason)"
  have msg: "to_string e (if truthy (JStr reason) then JStr reason else JStr msg_generation_failed) =
               (if reason = [] then msg_generation_failed else reason)"
    by simp
  have "get_prop result ''success'' = Inl (js_error ''Error'' (if reason = [] then msg_generation_failed else reason))
        \<or> (\<exists>success err. get_prop result ''success'' = Inr success \<and> \<not> truthy success
              \<and> get_prop result ''error'' = Inr err \<and> ''Error'' = ''Error''
              \<and> (if reason = [] then msg_generation_failed else reason) =
                  to_string e (if truthy err then err else JStr msg_generation_failed))"
    using ko err msg by auto
  note run = startGeneration_refused[OF assms this]
  have plain: "plain_text (''Erreur: '' @ (if reason = [] then msg_generation_failed else reason))"
    if "plain_text reason"
    using that by (simp add: plain_text_def msg_generation_failed_def e_acute_def)
  from run(2)
  show "container (snd (startGeneration e w)) =
          Some (children @
            [\<lparr>n_type = ''error'',
              n_message =
                Html (''Erreur: '' @ (if reason = [] then msg_generation_failed else reason))\<rparr>])" .
  show "text_of (Html (''Erreur: '' @ (if reason = [] then msg_generation_failed else reason))) =
          Some (''Erreur: '' @ (if reason = [] then msg_generation_failed else reason))"
    if "plain_text reason"
    using plain[OF that] by simp
  from run(4)
  show "state (snd (startGeneration e w)) ''currentGeneration'' = state w ''currentGeneration''" .
qed

lemma state_page_world: "state page_world ''currentGeneration'' = Some JNull"
  by (simp add: page_world_def nm_initialize_def quiet_env_def Let_def initial_world_def
      lm_initialize_def createLoadingElements_def find_overlay_def APP_STATE_def)

theorem response_is_reported_witness:
  "container (snd (startGeneration accepting_env page_world)) =
     Some [\<lparr>n_type = ''success'', n_message = Html msg_generated\<rparr>]
   \<and> state (snd (startGeneration accepting_env page_world)) ''currentGeneration'' =
       Some (JObj [''success'' \<mapsto> JBool True, ''buildings'' \<mapsto> JArr []])
   \<and> container (snd (startGeneration refusing_env page_world)) =
       Some [\<lparr>n_type = ''error'', n_message = Html ''Erreur: No buildings found''\<rparr>]
   \<and> text_of (Html ''Erreur: No buildings found'') = Some ''Erreur: No buildings found''
   \<and> state (snd (startGeneration refusing_env page_world)) ''currentGeneration'' = Some JNull"
proof -
  have valid: "truthy (JBool True)" by simp
  note yes = response_is_reported[OF validation_of_accepting_env valid container_page_world
      usable_page_world generation_response_accepting_env]
  note no = response_is_reported[OF validation_of_refusing_env valid container_page_world
      usable_page_world generation_response_refusing_env]
  have plain: "plain_text ''No buildings found''"
    by (simp add: plain_text_def)
  from yes[THEN conjunct1]
  have "container (snd (startGeneration accepting_env page_world)) =
          Some [\<lparr>n_type = ''success'', n_message = Html msg_generated\<rparr>]
        \<and> state (snd (startGeneration accepting_env page_world)) ''currentGeneration'' =
            Some (JObj [''success'' \<mapsto> JBool True, ''buildings'' \<mapsto> JArr []])"
    by simp
  moreover from no[THEN conjunct2, THEN spec, of "''No buildings found''"] plain
  have "container (snd (startGeneration refusing_env page_world)) =
          Some [\<lparr>n_type = ''error'', n_message = Html ''Erreur: No buildings found''\<rparr>]
        \<and> text_of (Html ''Erreur: No buildings found'') = Some ''Erreur: No buildings found''
        \<and> state (snd (startGeneration refusing_env page_world)) ''currentGeneration'' = Some JNull"
    by (auto simp: state_page_world)
  ultimately show ?thesis by simp
qed

lemma after_failure_level [simp]:
  "currentLevel (after_failure url init attempt err w) = currentLevel w"
  by (simp add: after_failure_def Let_def)

lemma warnings_of_single [simp]:
  "warnings_of [Fetch url init] = []" "warnings_of [Delay ms] = []"
  by (simp_all add: warnings_of_def)

lemma after_failure_warnings:
  "warnings_of (trace (after_failure url init attempt err w)) =
     warnings_of (trace w) @
     (if level_num (currentLevel w) \<le> 2 then [failure_warning attempt url err] else [])"
  by (simp add: after_failure_def Let_def warnings_of_logger failure_warning_def)

lemma request_loop_last_warnings:
  assumes "attempt_result (net e (fetches w) url init) = Inl err" and "attempt = retryAttempts"
  shows "warnings_of (trace (snd (request_loop e url endpoint init rid attempt (Suc n) w))) =
           warnings_of (trace w) @
           (if level_num (currentLevel w) \<le> 2 then [failure_warning attempt url err] else [])"
proof -
  from assms(1) obtain nm msg where "err = js_error nm msg"
    by (rule attempt_result_error)
  with assms show ?thesis
    by (simp add: request_loop.simps do_fetch_def Let_def warnings_of_logger failure_warning_def)
qed

text \<open>The request of \<open>startGeneration\<close> when all three attempts fail.\<close>

lemma post_three_failures:
  assumes "attempt_result (net e (fetches w) ''/generate/'' (generate_init formData)) = Inl err1"
    and "attempt_result (net e (Suc (fetches w)) ''/generate/'' (generate_init formData)) = Inl err2"
    and "attempt_result (net e (Suc (Suc (fetches w))) ''/generate/'' (generate_init formData)) = Inl err3"
  shows "fst (post e ''/generate/'' formData w) = Inl err3"
    and "net_of (trace (snd (post e ''/generate/'' formData w))) =
           net_of (trace w) @
           [Fetch ''/generate/'' (generate_init formData), Delay 1000,
            Fetch ''/generate/'' (generate_init formData), Delay 2000,
            Fetch ''/generate/'' (generate_init formData)]"
    and "warnings_of (trace (snd (post e ''/generate/'' formData w))) =
           warnings_of (trace w) @
           (if level_num (currentLevel w) \<le> 2
            then [failure_warning 1 ''/generate/'' err1, failure_warning 2 ''/generate/'' err2,
                  failure_warning 3 ''/generate/'' err3]
            else [])"
proof -
  let ?url = "''/generate/''" and ?init = "generate_init formData"
  let ?rid = "''api_'' @ random_id e (ids w)"
  let ?w1 = "logger_debug (LogApiRequest ''POST'' ''/generate/'') (w\<lparr>ids := Suc (ids w)\<rparr>)"
  let ?w2 = "after_failure ?url ?init (Suc 0) err1 ?w1"
  let ?w3 = "after_failure ?url ?init (Suc (Suc 0)) err2 ?w2"
  have req: "post e ''/generate/'' formData w =
               request_loop e ?url ?url ?init ?rid (Suc 0) (Suc (Suc (Suc 0))) ?w1"
    by (simp add: post_def request_def Let_def generate_init_eq baseUrl_def retryAttempts_def
        numeral_3_eq_3)
  have ne1: "Suc 0 \<noteq> retryAttempts" and ne2: "Suc (Suc 0) \<noteq> retryAttempts"
    and eq3: "Suc (Suc (Suc 0)) = retryAttempts"
    by (simp_all add: retryAttempts_def)
  have ko1: "attempt_result (net e (fetches ?w1) ?url ?init) = Inl err1"
    using assms(1) by simp
  have ko2: "attempt_result (net e (fetches ?w2) ?url ?init) = Inl err2"
    using assms(2) by simp
  have ko3: "attempt_result (net e (fetches ?w3) ?url ?init) = Inl err3"
    using assms(3) by simp
  have steps: "post e ''/generate/'' formData w =
                 request_loop e ?url ?url ?init ?rid (Suc (Suc (Suc 0))) (Suc 0) ?w3"
    by (simp only: req request_loop_retry[OF ko1 ne1] request_loop_retry[OF ko2 ne2])
  show "fst (post e ''/generate/'' formData w) = Inl err3"
    by (simp only: steps request_loop_last(1)[OF ko3 eq3])
  show "net_of (trace (snd (post e ''/generate/'' formData w))) =
          net_of (trace w) @
          [Fetch ?url ?init, Delay 1000, Fetch ?url ?init, Delay 2000, Fetch ?url ?init]"
    by (simp add: steps request_loop_last(2)[OF ko3 eq3])
  show "warnings_of (trace (snd (post e ''/generate/'' formData w))) =
          warnings_of (trace w) @
          (if level_num (currentLevel w) \<le> 2
           then [failure_warning 1 ?url err1, failure_warning 2 ?url err2, failure_warning 3 ?url err3]
           else [])"
    by (simp add: steps request_loop_last_warnings[OF ko3 eq3] after_failure_warnings
        numeral_2_eq_2 numeral_3_eq_3)
qed

text \<open>
  C6. On a page whose notification container exists and whose loading overlay can take
  a message (as after a bootstrap that has completed, and as it is whenever the three
  attempts are made at all), when the form data passes validation and all three attempts
  of the request fail, \<open>startGeneration\<close> shows exactly one notification: an error
  notification with the message of the third attempt's error. The three failures are warnings on the console
  (when the logger's level lets warnings through), and the network sees three calls
  and two waits.
\<close>

theorem three_failures_one_notification:
  assumes "validation_of e = Some (formData, valid)" and "truthy valid"
    and "container w = Some children" and "overlay_usable (overlay w)"
    and "attempt_result (net e (fetches w) ''/generate/'' (generate_init formData)) = Inl err1"
    and "attempt_result (net e (fetches w + 1) ''/generate/'' (generate_init formData)) = Inl err2"
    and "attempt_result (net e (fetches w + 2) ''/generate/'' (generate_init formData)) = Inl err3"
  shows "fst (startGeneration e w) = Inr ()
         \<and> (\<exists>msg. get_prop err3 ''message'' = Inr (JStr msg)
                \<and> container (snd (startGeneration e w)) =
                    Some (children @ [\<lparr>n_type = ''error'', n_message = Html (''Erreur: '' @ msg)\<rparr>]))
         \<and> warnings_of (trace (snd (startGeneration e w))) =
             warnings_of (trace w) @
             (if level_num (currentLevel w) \<le> level_num Warn
              then [failure_warning 1 ''/generate/'' err1, failure_warning 2 ''/generate/'' err2,
                    failure_warning 3 ''/generate/'' err3]
              else [])
         \<and> net_of (trace (snd (startGeneration e w))) =
             net_of (trace w) @
             [Fetch ''/generate/'' (generate_init formData), Delay 1000,
              Fetch ''/generate/'' (generate_init formData), Delay 2000,
              Fetch ''/generate/'' (generate_init formData)]"
proof -
  let ?w1 = "generation_started e w"
  from assms(7) obtain nm msg where err3: "err3 = js_error nm msg"
    by (rule attempt_result_error)
  have k1: "attempt_result (net e (fetches ?w1) ''/generate/'' (generate_init formData)) = Inl err1"
    and k2: "attempt_result (net e (Suc (fetches ?w1)) ''/generate/'' (generate_init formData)) = Inl err2"
    and k3: "attempt_result (net e (Suc (Suc (fetches ?w1))) ''/generate/'' (generate_init formData)) = Inl err3"
    using assms(5,6,7) by simp_all
  note failed = post_three_failures[OF k1 k2 k3]
  have "generation_response e formData w = Inl (js_error nm msg)"
    by (simp add: generation_response_def failed(1) err3)
  note run = startGeneration_request_failed[OF assms(1,2,3,4) this]
  show ?thesis
    using run failed(2,3) by (simp add: err3)
qed

theorem three_failures_one_notification_witness:
  "fst (startGeneration valid_env page_world) = Inr ()
   \<and> container (snd (startGeneration valid_env page_world)) =
       Some [\<lparr>n_type = ''error'', n_message = Html ''Erreur: Failed to fetch''\<rparr>]
   \<and> warnings_of (trace (snd (startGeneration valid_env page_world))) =
       [Console Warn (LogAttemptFailed 1 3 ''/generate/'' (JStr ''Failed to fetch'')),
        Console Warn (LogAttemptFailed 2 3 ''/generate/'' (JStr ''Failed to fetch'')),
        Console Warn (LogAttemptFailed 3 3 ''/generate/'' (JStr ''Failed to fetch''))]"
proof -
  have valid: "truthy (JBool True)" by simp
  have down: "attempt_result (net valid_env n ''/generate/'' (generate_init form_data)) =
                Inl (js_error ''TypeError'' ''Failed to fetch'')" for n
    by (simp add: valid_env_def quiet_env_def)
  have level: "currentLevel page_world = Info"
    by (simp add: page_world_def nm_initialize_def quiet_env_def Let_def initial_world_def
        lm_initialize_def createLoadingElements_def find_overlay_def)
  note run = three_failures_one_notification[OF validation_of_valid_env valid container_page_world
      usable_page_world down down down]
  from run[THEN conjunct1] have "fst (startGeneration valid_env page_world) = Inr ()" .
  moreover from run[THEN conjunct2, THEN conjunct1]
  have "container (snd (startGeneration valid_env page_world)) =
          Some [\<lparr>n_type = ''error'', n_message = Html ''Erreur: Failed to fetch''\<rparr>]"
    by auto
  moreover from run[THEN conjunct2, THEN conjunct2, THEN conjunct1]
  have "warnings_of (trace (snd (startGeneration valid_env page_world))) =
          [Console Warn (LogAttemptFailed 1 3 ''/generate/'' (JStr ''Failed to fetch'')),
           Console Warn (LogAttemptFailed 2 3 ''/generate/'' (JStr ''Failed to fetch'')),
           Console Warn (LogAttemptFailed 3 3 ''/generate/'' (JStr ''Failed to fetch''))]"
    by (simp add: level trace_page_world warnings_of_def[of "[]"] failure_warning_def retryAttempts_def)
  ultimately show ?thesis by simp
qed

subsection \<open>Bootstrap\<close>

lemma scripts_of_append [simp]: "scripts_of (xs @ ys) = scripts_of xs @ scripts_of ys"
  by (simp add: scripts_of_def)

lemma only_dispatch_scripts: "only_dispatch w w' \<Longrightarrow> scripts_of (trace w') = scripts_of (trace w)"
  unfolding scripts_of_def by (rule only_dispatch_filter) (auto elim: is_dispatch_event.elims)

lemma scripts_of_logger [simp]: "scripts_of (trace (logger_log lv m w)) = scripts_of (trace w)"
  by (simp add: logger_log_def scripts_of_def)

lemma scripts_of_emit [simp]: "scripts_of (trace (emit e ev d w)) = scripts_of (trace w)"
  by (rule only_dispatch_scripts) simp

lemma scripts_of_setState [simp]: "scripts_of (trace (setState e u w)) = scripts_of (trace w)"
  using only_dispatch_scripts[OF setState_only] by simp

lemma dom_listeners_of_append [simp]:
  "dom_listeners_of (xs @ ys) = dom_listeners_of xs @ dom_listeners_of ys"
  by (simp add: dom_listeners_of_def)

lemma only_dispatch_dom:
  "only_dispatch w w' \<Longrightarrow> dom_listeners_of (trace w') = dom_listeners_of (trace w)"
  unfolding dom_listeners_of_def by (rule only_dispatch_filter) (auto elim: is_dispatch_event.elims)

lemma dom_listeners_of_logger [simp]:
  "dom_listeners_of (trace (logger_log lv m w)) = dom_listeners_of (trace w)"
  by (simp add: logger_log_def dom_listeners_of_def)

lemma dom_listeners_of_emit [simp]:
  "dom_listeners_of (trace (emit e ev d w)) = dom_listeners_of (trace w)"
  by (rule only_dispatch_dom) simp

lemma dom_listeners_of_setState [simp]:
  "dom_listeners_of (trace (setState e u w)) = dom_listeners_of (trace w)"
  using only_dispatch_dom[OF setState_only] by simp

lemma startLoading_rest [simp]:
  "modules (snd (startLoading e loadId m sp w)) = modules w"
  "initialized (snd (startLoading e loadId m sp w)) = initialized w"
  "scripts_of (trace (snd (startLoading e loadId m sp w))) = scripts_of (trace w)"
  "dom_listeners_of (trace (snd (startLoading e loadId m sp w))) = dom_listeners_of (trace w)"
  by (simp_all add: startLoading_eq split: sum.split)

lemma stopLoading_rest [simp]:
  "modules (stopLoading e loadId w) = modules w"
  "initialized (stopLoading e loadId w) = initialized w"
  "scripts_of (trace (stopLoading e loadId w)) = scripts_of (trace w)"
  "dom_listeners_of (trace (stopLoading e loadId w)) = dom_listeners_of (trace w)"
  by (simp_all add: stopLoading_def Let_def split: option.split)

lemma updateProgress_rest [simp]:
  "modules (updateProgress e loadId p s w) = modules w"
  "initialized (updateProgress e loadId p s w) = initialized w"
  "container (updateProgress e loadId p s w) = container w"
  "scripts_of (trace (updateProgress e loadId p s w)) = scripts_of (trace w)"
  "dom_listeners_of (trace (updateProgress e loadId p s w)) = dom_listeners_of (trace w)"
  by (simp_all add: updateProgress_def Let_def split: option.split)

lemma loadModule_fields [simp]:
  "initialized (snd (loadModule e name path w)) = initialized w"
  "container (snd (loadModule e name path w)) = container w"
  "activeLoads (snd (loadModule e name path w)) = activeLoads w"
  "state (snd (loadModule e name path w)) = state w"
  "scripts_of (trace (snd (loadModule e name path w))) = scripts_of (trace w) @ [Script name path]"
  "dom_listeners_of (trace (snd (loadModule e name path w))) = dom_listeners_of (trace w)"
  "modules (snd (loadModule e name path w)) =
     (case module_value e name path of None \<Rightarrow> modules w | Some v \<Rightarrow> map_set name v (modules w))"
  by (simp_all add: loadModule_def Let_def module_value_def scripts_of_def[of "[_]"]
      dom_listeners_of_def[of "[_]"] split: script_outcome.split)

lemma loadModules_loop_step:
  "loadModules_loop e loadId i ((name, path) # rest) w =
     loadModules_loop e loadId (Suc i) rest
       (logger_log (if module_value e name path = None then Warn else Debug)
          (if module_value e name path = None
           then LogModuleFailed name (case fst (loadModule e name path
                  (updateProgress e loadId ((real (i + 1) / real (length modulesToLoad)) * 100)
                     (''Chargement de '' @ name @ ''...'') w)) of Inl err \<Rightarrow> err | Inr v \<Rightarrow> JUndefined)
           else LogModuleLoaded name)
          (snd (loadModule e name path
                  (updateProgress e loadId ((real (i + 1) / real (length modulesToLoad)) * 100)
                     (''Chargement de '' @ name @ ''...'') w))))"
  by (simp add: Let_def loadModule_def module_value_def split: script_outcome.split)

text \<open>
  The loop goes through all the modules it is given, whatever becomes of each: every
  script is appended, and the map gains the modules that registered themselves.
\<close>

lemma loadModules_loop_initialized [simp]:
  "initialized (loadModules_loop e loadId i ms w) = initialized w"
proof (induction ms arbitrary: i w)
  case Nil
  then show ?case by simp
next
  case (Cons m ms)
  then show ?case by (cases m) (simp add: loadModules_loop_step del: loadModules_loop.simps)
qed

lemma loadModules_loop_container [simp]:
  "container (loadModules_loop e loadId i ms w) = container w"
proof (induction ms arbitrary: i w)
  case Nil
  then show ?case by simp
next
  case (Cons m ms)
  then show ?case by (cases m) (simp add: loadModules_loop_step del: loadModules_loop.simps)
qed

lemma loadModules_loop_activeLoads [simp]:
  "activeLoads (loadModules_loop e loadId i ms w) = activeLoads w"
proof (induction ms arbitrary: i w)
  case Nil
  then show ?case by simp
next
  case (Cons m ms)
  then show ?case by (cases m) (simp add: loadModules_loop_step del: loadModules_loop.simps)
qed

lemma loadModules_loop_dom [simp]:
  "dom_listeners_of (trace (loadModules_loop e loadId i ms w)) = dom_listeners_of (trace w)"
proof (induction ms arbitrary: i w)
  case Nil
  then show ?case by simp
next
  case (Cons m ms)
  then show ?case by (cases m) (simp add: loadModules_loop_step del: loadModules_loop.simps)
qed

lemma loadModules_loop_scripts:
  "scripts_of (trace (loadModules_loop e loadId i ms w)) =
     scripts_of (trace w) @ map (\<lambda>(name, path). Script name path) ms"
proof (induction ms arbitrary: i w)
  case Nil
  then show ?case by simp
next
  case (Cons m ms)
  then show ?case by (cases m) (simp add: loadModules_loop_step del: loadModules_loop.simps)
qed

lemma loadModules_loop_modules:
  "modules (loadModules_loop e loadId i ms w) =
     fold (\<lambda>(name, path) acc.
             case module_value e name path of None \<Rightarrow> acc | Some v \<Rightarrow> map_set name v acc)
       ms (modules w)"
proof (induction ms arbitrary: i w)
  case Nil
  then show ?case by simp
next
  case (Cons m ms)
  then show ?case by (cases m) (simp add: loadModules_loop_step del: loadModules_loop.simps split: option.split)
qed

lemma map_of_map_set: "map_of (map_set k v kvs) = (map_of kvs)(k \<mapsto> v)"
  by (induction kvs) auto

lemma map_of_loaded:
  assumes "distinct (map fst ms)" and "(name, path) \<in> set ms"
  shows "map_of (fold (\<lambda>(name, path) acc.
                   case module_value e name path of None \<Rightarrow> acc | Some v \<Rightarrow> map_set name v acc)
                 ms acc) name =
           (case module_value e name path of None \<Rightarrow> map_of acc name | Some v \<Rightarrow> Some v)"
  using assms
proof (induction ms arbitrary: acc)
  case Nil
  then show ?case by simp
next
  case (Cons m ms)
  obtain n p where m: "m = (n, p)" by (cases m)
  show ?case
  proof (cases "(name, path) \<in> set ms")
    case True
    with Cons.prems m have "n \<noteq> name" by (auto simp: image_iff)
    with Cons.IH[OF _ True] Cons.prems(1) m show ?thesis
      by (simp add: map_of_map_set split: option.split)
  next
    case False
    with Cons.prems m have here: "n = name" "p = path" by auto
    have skip: "map_of (fold (\<lambda>(name, path) acc.
                   case module_value e name path of None \<Rightarrow> acc | Some v \<Rightarrow> map_set name v acc)
                 ms acc') name = map_of acc' name" if "name \<notin> fst ` set ms" for acc'
      using that
    proof (induction ms arbitrary: acc')
      case Nil
      then show ?case by simp
    next
      case (Cons x xs)
      then show ?case by (cases x) (auto simp: map_of_map_set split: option.split)
    qed
    from Cons.prems(1) m here have "name \<notin> fst ` set ms" by auto
    from skip[OF this] m here show ?thesis
      by (simp add: map_of_map_set split: option.split)
  qed
qed

declare loadModules_loop.simps [simp del]

text \<open>\<open>loadModules\<close> on an overlay that can take a message, and on one that cannot.\<close>

lemma loadModules_returns:
  assumes "overlay_usable (overlay w)"
  shows "loadModules e w =
           (Inr (),
            stopLoading e ''modules_loading''
              (logger_info
                 (LogModulesLoaded (length (modules
                    (loadModules_loop e ''modules_loading'' 0 modulesToLoad
                       (snd (startLoading e ''modules_loading'' ''Chargement des modules...'' True
                               (logger_info LogModulesLoading w)))))))
                 (loadModules_loop e ''modules_loading'' 0 modulesToLoad
                    (snd (startLoading e ''modules_loading'' ''Chargement des modules...'' True
                            (logger_info LogModulesLoading w))))))"
proof -
  have "fst (startLoading e ''modules_loading'' ''Chargement des modules...'' True
               (logger_info LogModulesLoading w)) = Inr ()"
    using assms by (simp add: startLoading_returns)
  then show ?thesis
    by (simp add: loadModules_def Let_def case_returned)
qed

lemma loadModules_throws:
  assumes "\<not> overlay_usable (overlay w)"
  shows "loadModules e w =
           (Inl (js_error ''TypeError'' ''Cannot set properties of null (setting 'textContent')''),
            snd (startLoading e ''modules_loading'' ''Chargement des modules...'' True
                   (logger_info LogModulesLoading w)))"
proof -
  have "fst (startLoading e ''modules_loading'' ''Chargement des modules...'' True
               (logger_info LogModulesLoading w)) =
          Inl (js_error ''TypeError'' ''Cannot set properties of null (setting 'textContent')'')"
    using assms by (simp add: startLoading_throws)
  then show ?thesis
    by (simp add: loadModules_def Let_def case_thrown)
qed

lemma loadModules_fields:
  assumes "overlay_usable (overlay w)"
  shows "fst (loadModules e w) = Inr ()"
    and "initialized (snd (loadModules e w)) = initialized w"
    and "container (snd (loadModules e w)) = container w"
    and "activeLoads (snd (loadModules e w)) = activeLoads w - {''modules_loading''}"
    and "dom_listeners_of (trace (snd (loadModules e w))) = dom_listeners_of (trace w)"
    and "scripts_of (trace (snd (loadModules e w))) =
           scripts_of (trace w) @ map (\<lambda>(name, path). Script name path) modulesToLoad"
    and "modules (snd (loadModules e w)) =
           fold (\<lambda>(name, path) acc.
                   case module_value e name path of None \<Rightarrow> acc | Some v \<Rightarrow> map_set name v acc)
             modulesToLoad (modules w)"
  by (simp_all add: loadModules_returns[OF assms] loadModules_loop_scripts loadModules_loop_modules)

lemma add_listeners_fields [simp]:
  "initialized (add_listeners ls w) = initialized w"
  "container (add_listeners ls w) = container w"
  "modules (add_listeners ls w) = modules w"
  "state (add_listeners ls w) = state w"
  "activeLoads (add_listeners ls w) = activeLoads w"
  "scripts_of (trace (add_listeners ls w)) = scripts_of (trace w)"
  "dom_listeners_of (trace (add_listeners ls w)) =
     dom_listeners_of (trace w) @ map (\<lambda>(target, name). AddListener target name) ls"
proof -
  have "filter is_script (map (\<lambda>(target, name). AddListener target name) ls) = []"
    by (induction ls) auto
  then show "scripts_of (trace (add_listeners ls w)) = scripts_of (trace w)"
    by (simp add: add_listeners_def scripts_of_def)
  have "filter is_add_listener (map (\<lambda>(target, name). AddListener target name) ls) =
          map (\<lambda>(target, name). AddListener target name) ls"
    by (induction ls) auto
  then show "dom_listeners_of (trace (add_listeners ls w)) =
               dom_listeners_of (trace w) @ map (\<lambda>(target, name). AddListener target name) ls"
    by (simp add: add_listeners_def dom_listeners_of_def)
qed (simp_all add: add_listeners_def)

lemma setupGlobalEventListeners_fields [simp]:
  "initialized (setupGlobalEventListeners w) = initialized w"
  "container (setupGlobalEventListeners w) = container w"
  "modules (setupGlobalEventListeners w) = modules w"
  "activeLoads (setupGlobalEventListeners w) = activeLoads w"
  "scripts_of (trace (setupGlobalEventListeners w)) = scripts_of (trace w)"
  by (simp_all add: setupGlobalEventListeners_def)

lemma initializeUI_fields [simp]:
  "initialized (initializeUI e w) = initialized w"
  "container (initializeUI e w) = container w"
  "modules (initializeUI e w) = modules w"
  "activeLoads (initializeUI e w) = activeLoads w"
  "scripts_of (trace (initializeUI e w)) = scripts_of (trace w)"
  by (simp_all add: initializeUI_def setupResponsive_def setupTooltips_def setupMainButtons_def
      setupForms_def Let_def split: option.split)

text \<open>The listeners the two set-up steps add, in order.\<close>

lemma setup_listeners:
  "dom_listeners_of (trace (initializeUI e (setupGlobalEventListeners w))) =
     dom_listeners_of (trace w) @ map (\<lambda>(target, name). AddListener target name) (bootstrap_listeners e)"
  by (simp add: initializeUI_def setupResponsive_def setupTooltips_def setupMainButtons_def
      setupForms_def setupGlobalEventListeners_def bootstrap_listeners_def Let_def
      split: option.split)

lemma lm_initialize_fields [simp]:
  "initialized (lm_initialize e w) = initialized w"
  "container (lm_initialize e w) = container w"
  "modules (lm_initialize e w) = modules w"
  "activeLoads (lm_initialize e w) = activeLoads w"
  "scripts_of (trace (lm_initialize e w)) = scripts_of (trace w)"
  "dom_listeners_of (trace (lm_initialize e w)) = dom_listeners_of (trace w)"
  by (simp_all add: lm_initialize_def createLoadingElements_def Let_def)

lemma lm_initialize_overlay:
  "overlay (lm_initialize e w) =
     (case find_overlay e w of
        None \<Rightarrow> Some \<lparr>ov_display = [], ov_message = Some ''Chargement en cours...''\<rparr>
      | Some el \<Rightarrow> Some el)"
  by (simp add: lm_initialize_def createLoadingElements_def Let_def split: option.split)

lemma lm_initialize_usable:
  "overlay_usable (overlay (lm_initialize e w)) = overlay_usable (find_overlay e w)"
  by (simp add: lm_initialize_overlay overlay_usable_def split: option.split)

lemma find_overlay_logger [simp]: "find_overlay e (logger_log lv m w) = find_overlay e w"
  by (simp add: find_overlay_def)

lemma nm_initialize_fields [simp]:
  "initialized (nm_initialize e w) = initialized w"
  "modules (nm_initialize e w) = modules w"
  "activeLoads (nm_initialize e w) = activeLoads w"
  "overlay (nm_initialize e w) = overlay w"
  "scripts_of (trace (nm_initialize e w)) = scripts_of (trace w)"
  "dom_listeners_of (trace (nm_initialize e w)) = dom_listeners_of (trace w)"
  by (simp_all add: nm_initialize_def Let_def)

lemma nm_initialize_container:
  "container (nm_initialize e w) =
     Some (case container w of
             None \<Rightarrow> (case doc_container e of None \<Rightarrow> [] | Some c \<Rightarrow> c)
           | Some c \<Rightarrow> c)"
  by (simp add: nm_initialize_def Let_def split: option.split)

lemma nm_show_rest:
  assumes "container w = Some children"
  shows "initialized (snd (nm_show e message type duration w)) = initialized w"
    and "modules (snd (nm_show e message type duration w)) = modules w"
    and "scripts_of (trace (snd (nm_show e message type duration w))) = scripts_of (trace w)"
    and "dom_listeners_of (trace (snd (nm_show e message type duration w))) = dom_listeners_of (trace w)"
  using only_dispatch_fields[OF nm_show_shown(2)[OF assms]]
    only_dispatch_scripts[OF nm_show_shown(2)[OF assms]]
    only_dispatch_dom[OF nm_show_shown(2)[OF assms]]
  by simp_all

text \<open>
  The state in which \<open>initialize\<close> shows its last notification, and what
  \<open>initialize\<close> comes to, when the overlay it finds can take a message.
\<close>

lemma initialize_run:
  fixes e w
  defines "w3 \<equiv> nm_initialize e (lm_initialize e (logger_info LogAppInit w))"
  defines "w9 \<equiv> logger_info LogAppReady
     (setState e [''initialized'' \<mapsto> JBool True]
        ((initializeUI e (setupGlobalEventListeners (snd (loadModules e w3))))
         \<lparr>initialized := True\<rparr>))"
  assumes "overlay_usable (find_overlay e w)"
  shows "overlay_usable (overlay w3)"
    and "container w9 = container w3"
    and "initialize e w =
           (Inr (), emit e ''appInitialized'' JNull
              (snd (nm_show e (''Application charg'' @ [e_acute] @ ''e avec succ'' @ [e_grave] @ ''s'')
                      ''success'' 5000 w9)))"
proof -
  show u: "overlay_usable (overlay w3)"
    using assms(3) by (simp add: w3_def lm_initialize_usable)
  show c: "container w9 = container w3"
    by (simp add: w9_def loadModules_fields[OF u])
  obtain children where "container w3 = Some children"
    by (simp add: w3_def nm_initialize_container)
  with c have c9: "container w9 = Some children" by simp
  have l: "fst (loadModules e w3) = Inr ()"
    by (rule loadModules_fields(1)[OF u])
  have "initialize_try e (logger_info LogAppInit w) =
          (Inr (), emit e ''appInitialized'' JNull
             (snd (nm_show e (''Application charg'' @ [e_acute] @ ''e avec succ'' @ [e_grave] @ ''s'')
                     ''success'' 5000 w9)))"
    using case_returned[OF nm_show_shown(1)[OF c9, of e _ "''success''" 5000]]
    by (simp add: initialize_try_def Let_def case_returned[OF l[unfolded w3_def]] nm_success_def
        w9_def w3_def)
  then show "initialize e w =
           (Inr (), emit e ''appInitialized'' JNull
              (snd (nm_show e (''Application charg'' @ [e_acute] @ ''e avec succ'' @ [e_grave] @ ''s'')
                      ''success'' 5000 w9)))"
    by (simp add: initialize_def)
qed

lemma distinct_modulesToLoad: "distinct (map fst modulesToLoad)"
  by (simp add: modulesToLoad_def)


lemma find_overlay_partial_env: "find_overlay partial_env initial_world = None"
  by (simp add: find_overlay_def partial_env_def quiet_env_def initial_world_def)


text \<open>
  On a page whose loading overlay has no \<open>.loading-message\<close> descendant the bootstrap
  stops before the first script, whatever the scripts would do: \<open>startLoading\<close>
  throws, outside the \<open>try\<close> of \<open>loadModules\<close>, and \<open>initialize\<close> throws the error
  again, with the load \<open>modules_loading\<close> left active and the app not marked as
  initialized.
\<close>

lemma bootstrap_needs_loading_message:
  assumes "\<not> overlay_usable (find_overlay e w)"
  shows "fst (initialize e w) =
           Inl (js_error ''TypeError'' ''Cannot set properties of null (setting 'textContent')'')"
    and "scripts_of (trace (snd (initialize e w))) = scripts_of (trace w)"
    and "initialized (snd (initialize e w)) = initialized w"
    and "''modules_loading'' \<in> activeLoads (snd (initialize e w))"
    and "container (snd (initialize e w)) =
           Some ((case container w of
                    None \<Rightarrow> (case doc_container e of None \<Rightarrow> [] | Some c \<Rightarrow> c)
                  | Some c \<Rightarrow> c) @
                 [\<lparr>n_type = ''error'',
                   n_message = Html (''Erreur lors du chargement de l'' @ [CHR 0x27] @ ''application'')\<rparr>])"
proof -
  let ?err = "js_error ''TypeError'' ''Cannot set properties of null (setting 'textContent')''"
  let ?w3 = "nm_initialize e (lm_initialize e (logger_info LogAppInit w))"
  let ?w4 = "snd (startLoading e ''modules_loading'' ''Chargement des modules...'' True
                    (logger_info LogModulesLoading ?w3))"
  let ?w5 = "logger_error (LogAppFailed ?err) ?w4"
  have "\<not> overlay_usable (overlay ?w3)"
    using assms by (simp add: lm_initialize_usable)
  from loadModules_throws[OF this, of e]
  have t: "initialize_try e (logger_info LogAppInit w) = (Inl ?err, ?w4)"
    by (simp add: initialize_try_def Let_def)
  let ?found = "case container w of
                  None \<Rightarrow> (case doc_container e of None \<Rightarrow> [] | Some c \<Rightarrow> c)
                | Some c \<Rightarrow> c"
  have c: "container ?w5 = Some ?found"
    by (simp add: nm_initialize_container)
  have run: "initialize e w =
               (Inl ?err, snd (nm_show e (''Erreur lors du chargement de l'' @ [CHR 0x27] @ ''application'')
                                 ''error'' 8000 ?w5))"
    using case_returned[OF nm_show_shown(1)[OF c, of e _ "''error''" 8000]]
    by (simp add: initialize_def t initialize_catch_def Let_def nm_error_def)
  show "fst (initialize e w) = Inl ?err"
    by (simp add: run)
  show "scripts_of (trace (snd (initialize e w))) = scripts_of (trace w)"
    by (simp add: run nm_show_rest[OF c])
  show "initialized (snd (initialize e w)) = initialized w"
    by (simp add: run nm_show_rest[OF c])
  show "''modules_loading'' \<in> activeLoads (snd (initialize e w))"
    by (simp add: run nm_show_page[OF c])
  show "container (snd (initialize e w)) =
          Some (?found @
                [\<lparr>n_type = ''error'',
                  n_message = Html (''Erreur lors du chargement de l'' @ [CHR 0x27] @ ''application'')\<rparr>])"
    by (simp only: run snd_conv nm_show_container[OF c])
qed

subsection \<open>Where claims fail as stated\<close>


text \<open>
  C8 as stated fails: two loads are started one inside the other under the same
  identifier, as two generations that run at the same time are, and one of them is
  stopped. The set holds the identifier once, so that one stop empties it: the overlay,
  displayed until then, is hidden and the flag is cleared although the other load has
  not been stopped.
\<close>

theorem loading_invariant_counterexample:
  "twin_loads =
     stopLoading quiet_env ''main_generation''
       (snd (startLoading quiet_env ''main_generation'' ''second'' False
          (snd (startLoading quiet_env ''main_generation'' ''first'' False ready_world))))
   \<and> overlay (snd (startLoading quiet_env ''main_generation'' ''second'' False
          (snd (startLoading quiet_env ''main_generation'' ''first'' False ready_world)))) =
       Some \<lparr>ov_display = ''flex'', ov_message = Some ''second''\<rparr>
   \<and> activeLoads twin_loads = {}
   \<and> overlay twin_loads = Some \<lparr>ov_display = ''none'', ov_message = Some ''second''\<rparr>
   \<and> overlay_hidden twin_loads
   \<and> loading_flag twin_loads = Some (JBool False)"
proof -
  let ?wa = "snd (startLoading quiet_env ''main_generation'' ''first'' False ready_world)"
  let ?wb = "snd (startLoading quiet_env ''main_generation'' ''second'' False ?wa)"
  have ua: "overlay_usable (overlay ?wa)"
    using usable_ready_world by (rule overlay_usable_startLoading)
  have twin: "twin_loads = stopLoading quiet_env ''main_generation'' ?wb"
    by (simp add: twin_loads_def)
  have ov: "overlay ?wb = Some \<lparr>ov_display = ''flex'', ov_message = Some ''second''\<rparr>"
    by (simp add: startLoading_overlay[OF ua] startLoading_overlay[OF usable_ready_world]
        overlay_ready_world)
  show ?thesis
    by (simp add: twin ov activeLoads_ready_world overlay_hidden_def loading_flag_def)
qed

lemma validation_of_silent_env: "validation_of silent_env = Some (form_data, JBool True)"
  by (simp add: validation_of_def silent_env_def valid_env_def)

lemma generation_response_silent_env:
  "generation_response silent_env form_data page_world =
     Inr (JObj [''success'' \<mapsto> JBool False, ''error'' \<mapsto> JStr []])"
  by (rule generation_response_first_ok) (simp add: silent_env_def)

text \<open>
  C3 as stated fails: the server answers \<open>success: false\<close> with the error string
  \<open>""\<close>, and the notification shows the default text, not that string.
\<close>

theorem response_is_reported_counterexample:
  "generation_response silent_env form_data page_world =
     Inr (JObj [''success'' \<mapsto> JBool False, ''error'' \<mapsto> JStr []])
   \<and> container (snd (startGeneration silent_env page_world)) =
       Some [\<lparr>n_type = ''error'', n_message = Html (''Erreur: '' @ msg_generation_failed)\<rparr>]
   \<and> container (snd (startGeneration silent_env page_world)) \<noteq>
       Some [\<lparr>n_type = ''error'', n_message = Html (''Erreur: '' @ [])\<rparr>]"
proof -
  have valid: "truthy (JBool True)" by simp
  have "get_prop (JObj [''success'' \<mapsto> JBool False, ''error'' \<mapsto> JStr []]) ''success'' =
          Inl (js_error ''Error'' msg_generation_failed)
        \<or> (\<exists>success err.
              get_prop (JObj [''success'' \<mapsto> JBool False, ''error'' \<mapsto> JStr []]) ''success'' = Inr success
              \<and> \<not> truthy success
              \<and> get_prop (JObj [''success'' \<mapsto> JBool False, ''error'' \<mapsto> JStr []]) ''error'' = Inr err
              \<and> ''Error'' = ''Error''
              \<and> msg_generation_failed =
                  to_string silent_env (if truthy err then err else JStr msg_generation_failed))"
    by simp
  from startGeneration_refused(2)[OF validation_of_silent_env valid container_page_world
      usable_page_world generation_response_silent_env this]
  show ?thesis
    by (simp add: generation_response_silent_env msg_generation_failed_def)
qed

lemma registered_lone_world: "registered lone_world ''tick'' = [\<lparr>callback = 1, ctx = JNull\<rparr>]"
  by (simp add: lone_world_def registered_on)

lemma level_lone_world: "currentLevel lone_world = Info"
  by (simp add: lone_world_def)

lemma trace_lone_world: "trace lone_world = []"
  by (simp add: lone_world_def trace_on_quiet)

lemma listeners_Some_registered:
  "registered w ev \<noteq> [] \<Longrightarrow> listeners w ev = Some (registered w ev)"
  by (simp add: registered_def split: option.splits)

lemma emit_after_self_removal:
  assumes "listeners w ''tick'' = Some [\<lparr>callback = 1, ctx = JNull\<rparr>, l]"
    and "trace w = []" and "currentLevel w = Info"
  shows "calls_of (trace (emit once_env ''tick'' JNull w)) =
           [(1, entry \<lparr>callback = 1, ctx = JNull\<rparr>, [JNull])]"
  using assms
  by (simp add: emit_def logger_log_def invoke_listener_def call_handler_def once_env_def
      quiet_env_def receiver_def off_def splice1_def Let_def)

text \<open>
  C10 as stated fails: callback 5 is registered twice and unregistered once, so one
  registration is left, but callback 1, registered before it, unregisters itself during
  the dispatch, and callback 5 is not called by that \<open>emit\<close>.
\<close>

theorem off_removes_first_registration_counterexample:
  "registered (off ''tick'' 5 (on ''tick'' 5 JNull (on ''tick'' 5 JNull lone_world))) ''tick'' =
     [\<lparr>callback = 1, ctx = JNull\<rparr>, \<lparr>callback = 5, ctx = JNull\<rparr>]
   \<and> times_called 5
       (trace (emit once_env ''tick'' JNull
          (off ''tick'' 5 (on ''tick'' 5 JNull (on ''tick'' 5 JNull lone_world))))) = 0"
proof -
  let ?w = "off ''tick'' 5 (on ''tick'' 5 JNull (on ''tick'' 5 JNull lone_world))"
  have r: "registered ?w ''tick'' = [\<lparr>callback = 1, ctx = JNull\<rparr>, \<lparr>callback = 5, ctx = JNull\<rparr>]"
    by (simp add: registered_off registered_on registered_lone_world)
  then have l: "listeners ?w ''tick'' = Some [\<lparr>callback = 1, ctx = JNull\<rparr>, \<lparr>callback = 5, ctx = JNull\<rparr>]"
    using listeners_Some_registered[of ?w "''tick''"] by simp
  have t: "trace ?w = []"
    by (simp add: trace_off_quiet trace_on_quiet level_lone_world trace_lone_world)
  have lv: "currentLevel ?w = Info"
    by (simp add: level_lone_world)
  have "calls_of (trace (emit once_env ''tick'' JNull ?w)) =
          [(1, entry \<lparr>callback = 1, ctx = JNull\<rparr>, [JNull])]"
    using l t lv by (rule emit_after_self_removal)
  then have "times_called 5 (trace (emit once_env ''tick'' JNull ?w)) = 0"
    by (simp add: times_called_def)
  with r show ?thesis by simp
qed

end
